(* ===== verification/Banlieue_Prelude.thy ===== *)
theory Banlieue_Prelude
  imports Main "HOL-Library.Word" "HOL-Library.Code_Target_Nat" "HOL-Library.Multiset" "HOL-Library.Char_ord" "HOL-Library.List_Lexorder"
begin

section \<open>Shared vocabulary of the banlieue development\<close>

text \<open>
  The pieces of Rust and of its standard library that every component below uses, and the
  lemmas on them.  A Rust \<^verbatim>\<open>String\<close> is its sequence of UTF-8 bytes, a HOL \<^typ>\<open>string\<close>; its
  \<^verbatim>\<open>Ord\<close> is the bytewise lexicographic order, which is the order of \<^typ>\<open>string\<close> under the
  imported \<open>List_Lexorder\<close> and \<open>Char_ord\<close>.  Counters of the code that are never shifted or masked
  (\<^verbatim>\<open>u32\<close>, \<^verbatim>\<open>u64\<close>, \<^verbatim>\<open>usize\<close>) are \<^typ>\<open>nat\<close> with the wrap-around of an addition written out
  (\<open>wadd\<close>); a \<^verbatim>\<open>saturating_sub\<close> is \<^typ>\<open>nat\<close> subtraction.  Values the code masks, shifts or lays
  out byte by byte are words.  A \<^verbatim>\<open>BTreeMap<String, String>\<close> is the list of its entries in key
  order.
\<close>

named_theorems banlieue_defs \<open>definitions that unfold by themselves\<close>
named_theorems plan_facts \<open>facts on the passes of a planner\<close>

type_synonym u8 = "8 word"
type_synonym ipv4 = "32 word"
type_synonym btmap = "(string \<times> string) list"
type_synonym timestamp = int
type_synonym ('e, 'a) result = "'e + 'a"

subsection \<open>Fixed-width counters\<close>

definition u32_max :: nat where
  "u32_max = 4294967295"

definition u64_max :: nat where
  "u64_max = 18446744073709551615"

definition wadd32 :: "nat \<Rightarrow> nat \<Rightarrow> nat" where
  "wadd32 a b = (a + b) mod 4294967296"

definition wadd64 :: "nat \<Rightarrow> nat \<Rightarrow> nat" where
  "wadd64 a b = (a + b) mod 18446744073709551616"

lemma wadd32_exact: "a + b \<le> u32_max \<Longrightarrow> wadd32 a b = a + b"
  by (simp add: wadd32_def u32_max_def)

lemma wadd64_exact: "a + b \<le> u64_max \<Longrightarrow> wadd64 a b = a + b"
  by (simp add: wadd64_def u64_max_def)

lemma unat_succ32:
  fixes n :: "32 word"
  assumes "n \<noteq> 4294967295"
  shows "unat (n + 1) = unat n + 1"
proof -
  have "1 + n \<noteq> 0"
  proof
    assume "1 + n = 0"
    then have "n = - 1"
      by (simp add: eq_neg_iff_add_eq_0 add.commute)
    with assms show False by simp
  qed
  then have "unat (1 + n) = Suc (unat n)"
    by (rule unatSuc)
  then show ?thesis by (simp add: add.commute)
qed

lemma unat32_less: "unat (n :: 32 word) < 4294967296"
  using unsigned_less [of n] by simp

subsection \<open>Stable sorting and least elements under a comparator\<close>

text \<open>
  \<^verbatim>\<open>slice::sort_by\<close> is stable, so it is insertion sort that never moves an element past an equal
  one; \<open>le x y\<close> stands for \<^verbatim>\<open>cmp(x, y) != Greater\<close>.  \<^verbatim>\<open>Iterator::min_by\<close> returns the first of
  several least elements.
\<close>

fun ins_by :: "('a \<Rightarrow> 'a \<Rightarrow> bool) \<Rightarrow> 'a \<Rightarrow> 'a list \<Rightarrow> 'a list" where
  "ins_by le x [] = [x]"
| "ins_by le x (y # ys) = (if le x y then x # y # ys else y # ins_by le x ys)"

definition sort_by :: "('a \<Rightarrow> 'a \<Rightarrow> bool) \<Rightarrow> 'a list \<Rightarrow> 'a list" where
  "sort_by le xs = foldr (ins_by le) xs []"

fun min_by :: "('a \<Rightarrow> 'a \<Rightarrow> bool) \<Rightarrow> 'a list \<Rightarrow> 'a option" where
  "min_by le [] = None"
| "min_by le (x # xs) = Some (foldl (\<lambda>m y. if le m y then m else y) x xs)"

lemma sort_by_simps [simp]:
  "sort_by le [] = []"
  "sort_by le (x # xs) = ins_by le x (sort_by le xs)"
  by (simp_all add: sort_by_def)

lemma mset_ins_by [simp]: "mset (ins_by le x xs) = add_mset x (mset xs)"
  by (induction xs) auto

lemma mset_sort_by [simp]: "mset (sort_by le xs) = mset xs"
  by (induction xs) auto

lemma set_sort_by [simp]: "set (sort_by le xs) = set xs"
  by (rule mset_eq_setD) simp

lemma length_sort_by [simp]: "length (sort_by le xs) = length xs"
  by (metis mset_sort_by size_mset)

lemma set_ins_by [simp]: "set (ins_by le x xs) = insert x (set xs)"
  by (induction xs) auto

lemma min_by_None [simp]: "min_by le xs = None \<longleftrightarrow> xs = []"
  by (cases xs) auto

lemma foldl_min_in: "foldl (\<lambda>m y. if le m y then m else y) x xs \<in> insert x (set xs)"
proof (induction xs arbitrary: x)
  case (Cons y ys)
  from Cons.IH [of "if le x y then x else y"] show ?case
    by (cases "le x y") auto
qed simp

lemma min_by_in: "min_by le xs = Some m \<Longrightarrow> m \<in> set xs"
proof (cases xs)
  case (Cons y ys)
  moreover assume "min_by le xs = Some m"
  ultimately show ?thesis
    using foldl_min_in [of le y ys] by simp
qed simp

text \<open>
  The contract a comparator closure has to satisfy for these two library calls to mean anything:
  a total preorder.  Each comparator of the code is an instance.
\<close>

locale comparator_le =
  fixes le :: "'a \<Rightarrow> 'a \<Rightarrow> bool"
  assumes le_total: "le x y \<or> le y x"
    and le_trans: "le x y \<Longrightarrow> le y z \<Longrightarrow> le x z"
begin

lemma le_refl: "le x x"
  using le_total by blast

lemma sorted_ins_by: "sorted_wrt le xs \<Longrightarrow> sorted_wrt le (ins_by le x xs)"
proof (induction xs)
  case Nil
  then show ?case by simp
next
  case (Cons y ys)
  have "le y x \<and> (\<forall>z \<in> set ys. le y z)" if "\<not> le x y"
    using that le_total [of x y] Cons.prems by simp
  moreover have "\<forall>z \<in> set ys. le x z" if "le x y"
    using that Cons.prems by (auto intro: le_trans)
  ultimately show ?case
    using Cons by simp
qed

lemma sorted_sort_by: "sorted_wrt le (sort_by le xs)"
  by (induction xs) (auto intro: sorted_ins_by)

lemma foldl_min_least: "y \<in> insert x (set xs) \<Longrightarrow> le (foldl (\<lambda>m y. if le m y then m else y) x xs) y"
proof (induction xs arbitrary: x y)
  case Nil
  then show ?case by (simp add: le_refl)
next
  case (Cons z zs)
  define x' where "x' = (if le x z then x else z)"
  have least: "le (foldl (\<lambda>m y. if le m y then m else y) x' zs) v" if "v \<in> insert x' (set zs)" for v
    using Cons.IH that by blast
  have x': "le x' x" "le x' z"
    using le_total [of x z] le_refl by (auto simp: x'_def)
  have here: "le (foldl (\<lambda>m y. if le m y then m else y) x' zs) x'"
    by (rule least) simp
  from Cons.prems consider "y = x" | "y = z" | "y \<in> set zs" by auto
  then have "le (foldl (\<lambda>m y. if le m y then m else y) x' zs) y"
    by cases (use here x' least le_trans in blast)+
  then show ?case by (simp add: x'_def)
qed

lemma min_by_least: "min_by le xs = Some m \<Longrightarrow> y \<in> set xs \<Longrightarrow> le m y"
  using foldl_min_least by (cases xs) auto

end

subsection \<open>Decimal rendering, splitting and association lists\<close>

definition digit_char :: "nat \<Rightarrow> char" where
  "digit_char d = char_of (48 + d)"

fun show_nat :: "nat \<Rightarrow> string" where
  "show_nat n = (if n < 10 then [digit_char n] else show_nat (n div 10) @ [digit_char (n mod 10)])"

declare show_nat.simps [simp del]

text \<open>\<^verbatim>\<open>str::split_once(c)\<close>: the text before and after the first \<open>c\<close>.\<close>

fun split_once :: "char \<Rightarrow> string \<Rightarrow> (string \<times> string) option" where
  "split_once c [] = None"
| "split_once c (x # xs) =
     (if x = c then Some ([], xs) else map_option (\<lambda>(a, b). (x # a, b)) (split_once c xs))"

lemma split_once_Some: "split_once c s = Some (a, b) \<Longrightarrow> s = a @ c # b \<and> c \<notin> set a"
  by (induction s arbitrary: a) (auto split: if_splits)

lemma split_once_None [simp]: "split_once c s = None \<longleftrightarrow> c \<notin> set s"
  by (induction s) auto

text \<open>\<^verbatim>\<open>BTreeMap::insert\<close> on a list of entries in key order, and \<^verbatim>\<open>[String]::join\<close>.\<close>

fun bt_insert :: "string \<Rightarrow> string \<Rightarrow> btmap \<Rightarrow> btmap" where
  "bt_insert k v [] = [(k, v)]"
| "bt_insert k v ((k', v') # m) =
     (if k < k' then (k, v) # (k', v') # m
      else if k = k' then (k, v) # m
      else (k', v') # bt_insert k v m)"

definition bt_wf :: "btmap \<Rightarrow> bool" where
  "bt_wf m = sorted_wrt (<) (map fst m)"

lemma map_of_bt_insert [simp]: "map_of (bt_insert k v m) = (map_of m)(k \<mapsto> v)"
  by (induction k v m rule: bt_insert.induct) (auto simp: fun_eq_iff)

lemma set_fst_bt_insert: "fst ` set (bt_insert k v m) = insert k (fst ` set m)"
  by (induction k v m rule: bt_insert.induct) auto

lemma bt_wf_insert: "bt_wf m \<Longrightarrow> bt_wf (bt_insert k v m)"
  unfolding bt_wf_def
proof (induction k v m rule: bt_insert.induct)
  case (2 k v k' v' m)
  from "2.prems" have k': "\<forall>x \<in> fst ` set m. k' < x" and m: "sorted_wrt (<) (map fst m)"
    by auto
  consider "k < k'" | "k = k'" | "k' < k"
    by fastforce
  then show ?case
  proof cases
    case 1
    with k' have "\<forall>x \<in> fst ` set m. k < x"
      by (meson less_trans)
    with 1 k' m show ?thesis by simp
  next
    case 2
    with k' m show ?thesis by simp
  next
    case 3
    have "sorted_wrt (<) (map fst (bt_insert k v m))"
      by (rule "2.IH") (use 3 m in auto)
    moreover have "\<forall>x \<in> fst ` set (bt_insert k v m). k' < x"
      unfolding set_fst_bt_insert using 3 k' by simp
    moreover have "\<not> k < k'" "k \<noteq> k'"
      using 3 by auto
    ultimately show ?thesis by simp
  qed
qed simp

fun join_with :: "string \<Rightarrow> string list \<Rightarrow> string" where
  "join_with sep [] = []"
| "join_with sep [s] = s"
| "join_with sep (s # t # ss) = s @ sep @ join_with sep (t # ss)"

subsection \<open>Counting with filters\<close>

lemma length_filter_split:
  "length (filter P xs) = length (filter (\<lambda>x. P x \<and> Q x) xs) + length (filter (\<lambda>x. P x \<and> \<not> Q x) xs)"
  by (induction xs) auto

lemma distinct_map_filter_key: "distinct (map f xs) \<Longrightarrow> distinct (map f (filter P xs))"
  by (simp add: distinct_map inj_on_def)

text \<open>What is left of a list when the members of one part of it, named by a key, are removed.\<close>

lemma filter_remaining:
  assumes "distinct (map f xs)" and "mset xs = mset ys + mset zs"
  shows "mset (filter (\<lambda>x. f x \<notin> f ` set ys) xs) = mset zs"
proof -
  have "mset (map f (ys @ zs)) = mset (map f xs)"
    using assms(2) by (simp flip: image_mset_union)
  then have d: "distinct (map f (ys @ zs))"
    using assms(1) by (metis mset_eq_imp_distinct_iff)
  have "filter_mset (\<lambda>x. f x \<notin> f ` set ys) (mset ys) = {#}"
    by simp
  moreover have "filter_mset (\<lambda>x. f x \<notin> f ` set ys) (mset zs) = mset zs"
    using d by (auto simp: filter_mset_eq_conv)
  ultimately show ?thesis
    by (simp add: assms(2))
qed

lemma distinct_keys_eq: "distinct (map f xs) \<Longrightarrow> x \<in> set xs \<Longrightarrow> y \<in> set xs \<Longrightarrow> f x = f y \<Longrightarrow> x = y"
  by (auto simp: distinct_map inj_on_def)

end
