(* ===== verification/Pool_Plan.thy ===== *)
theory Pool_Plan
  imports Banlieue_Prelude
begin

section \<open>The pool planner\<close>

text \<open>
  Model of \<^verbatim>\<open>crates/banlieue-controller/src/reconciler/pool_plan.rs\<close>: the pure function that
  decides which members a \<^verbatim>\<open>VirtualMachinePool\<close> creates and deletes.  The passes of \<^verbatim>\<open>plan\<close> are
  one definition each, in the order of the code; \<open>plan\<close> composes them.  The lemmas show what the
  module's header promises: claimed members are never deleted, the caps on replicas and surge,
  surge replacement of stale members, and that no address in use is handed out.
\<close>

subsection \<open>Data\<close>

datatype member_phase = Provisioning | Ready | Claimed | Deleting

record member_view =
  mv_name :: string
  mv_phase :: member_phase
  mv_age_secs :: nat
  mv_ready_for_secs :: nat
  mv_image_revision :: string
  mv_address :: "ipv4 option"

record address_range =
  ar_start :: ipv4
  ar_end :: ipv4

record pool_inputs =
  pi_warm_replicas :: nat
  pi_max_replicas :: nat
  pi_max_surge :: nat
  pi_provisioning_timeout_secs :: nat
  pi_max_idle_secs :: "nat option"
  pi_recycle_on_image_change :: bool
  pi_current_image_revision :: string
  pi_address_ranges :: "address_range list"

datatype delete_reason = ProvisioningTimeout | StaleImage | IdleExpired | ScaleDown

record new_member =
  nm_address :: "ipv4 option"

record pool_plan =
  pp_create :: "new_member list"
  pp_delete :: "(string \<times> delete_reason) list"
  pp_blocked_on_addresses :: nat
  pp_blocked_on_capacity :: nat

definition len_u32 :: "nat \<Rightarrow> nat" where
  "len_u32 n = (if n \<le> u32_max then n else u32_max)"

definition count_phase :: "member_view list \<Rightarrow> member_phase \<Rightarrow> nat" where
  "count_phase members phase = len_u32 (length (filter (\<lambda>m. mv_phase m = phase) members))"

subsection \<open>The passes\<close>

text \<open>Pass 1: poisoned provisioners are deleted, the others counted.\<close>

fun reap_provisioning ::
  "pool_inputs \<Rightarrow> member_view list \<Rightarrow> (string \<times> delete_reason) list \<times> nat
    \<Rightarrow> (string \<times> delete_reason) list \<times> nat" where
  "reap_provisioning i [] st = st"
| "reap_provisioning i (m # ms) (del, provisioning) =
     (if mv_age_secs m > pi_provisioning_timeout_secs i
      then reap_provisioning i ms (del @ [(mv_name m, ProvisioningTimeout)], provisioning)
      else reap_provisioning i ms (del, wadd32 provisioning 1))"

text \<open>Pass 2: a Ready member is stale for its image first, then for idling.\<close>

definition stale_image :: "pool_inputs \<Rightarrow> member_view \<Rightarrow> bool" where
  "stale_image i m \<longleftrightarrow>
     pi_recycle_on_image_change i \<and> mv_image_revision m \<noteq> pi_current_image_revision i"

definition idle_expired :: "pool_inputs \<Rightarrow> member_view \<Rightarrow> bool" where
  "idle_expired i m = (case pi_max_idle_secs i of None \<Rightarrow> False | Some mx \<Rightarrow> mv_ready_for_secs m > mx)"

fun split_ready ::
  "pool_inputs \<Rightarrow> member_view list \<Rightarrow> member_view list \<times> (member_view \<times> delete_reason) list
    \<Rightarrow> member_view list \<times> (member_view \<times> delete_reason) list" where
  "split_ready i [] st = st"
| "split_ready i (m # ms) (fresh, stale) =
     (if stale_image i m then split_ready i ms (fresh, stale @ [(m, StaleImage)])
      else if idle_expired i m then split_ready i ms (fresh, stale @ [(m, IdleExpired)])
      else split_ready i ms (fresh @ [m], stale))"

text \<open>Oldest first, the name as the tiebreak.\<close>

definition older_first :: "member_view \<Rightarrow> member_view \<Rightarrow> bool" where
  "older_first a b \<longleftrightarrow>
     mv_age_secs b < mv_age_secs a \<or> mv_age_secs a = mv_age_secs b \<and> mv_name a \<le> mv_name b"

text \<open>Passes 3 and 4: the fresh surplus, and the stale members no longer needed.\<close>

definition scale_down :: "pool_inputs \<Rightarrow> member_view list \<Rightarrow> (string \<times> delete_reason) list" where
  "scale_down i fresh_ready =
     (let fresh_ready_n = len_u32 (length fresh_ready)
      in if fresh_ready_n > pi_warm_replicas i
         then map (\<lambda>m. (mv_name m, ScaleDown)) (take (fresh_ready_n - pi_warm_replicas i) fresh_ready)
         else [])"

definition delete_stale ::
  "(member_view \<times> delete_reason) list \<Rightarrow> (string \<times> delete_reason) list" where
  "delete_stale ms = map (\<lambda>(m, reason). (mv_name m, reason)) ms"

text \<open>
  Pass 7: the two nested loops over the ranges.  \<open>draw_range\<close> is the inner \<^verbatim>\<open>while\<close>; the flag of
  its result is the \<^verbatim>\<open>break 'ranges\<close> that also ends the outer loop.
\<close>

function draw_range ::
  "ipv4 list \<Rightarrow> nat \<Rightarrow> ipv4 \<Rightarrow> ipv4 \<Rightarrow> ipv4 \<Rightarrow> ipv4 list \<times> nat \<Rightarrow> (ipv4 list \<times> nat) \<times> bool" where
  "draw_range used to_create lo hi nxt (create, granted) =
     (if lo \<le> hi \<and> nxt \<le> hi then
        if granted \<ge> to_create then ((create, granted), True)
        else let st = (if nxt \<notin> set used then (create @ [nxt], wadd32 granted 1) else (create, granted))
             in if nxt = 4294967295 then (st, False)
                else draw_range used to_create lo hi (nxt + 1) st
      else ((create, granted), False))"
  by pat_completeness auto
termination
proof (relation "measure (\<lambda>(used, to_create, lo, hi, nxt, st). 4294967296 - unat nxt)", goal_cases)
  case 1
  then show ?case by simp
next
  case (2 used to_create lo hi nxt create granted st)
  then show ?case
    using unat_succ32 [of nxt] unat32_less [of nxt] by simp
qed

declare draw_range.simps [simp del]

fun draw_ranges ::
  "ipv4 list \<Rightarrow> nat \<Rightarrow> address_range list \<Rightarrow> ipv4 list \<times> nat \<Rightarrow> ipv4 list \<times> nat" where
  "draw_ranges used to_create [] st = st"
| "draw_ranges used to_create (r # rs) st =
     (let (st', broke) = draw_range used to_create (ar_start r) (ar_end r) (ar_start r) st
      in if broke then st' else draw_ranges used to_create rs st')"

definition allocate_addresses ::
  "pool_inputs \<Rightarrow> member_view list \<Rightarrow> nat \<Rightarrow> new_member list \<times> nat" where
  "allocate_addresses i members to_create =
     (if pi_address_ranges i = [] then (replicate to_create \<lparr>nm_address = None\<rparr>, 0)
      else let used = List.map_filter mv_address members;
               (create, granted) = draw_ranges used to_create (pi_address_ranges i) ([], 0)
           in (map (\<lambda>a. \<lparr>nm_address = Some a\<rparr>) create, to_create - granted))"

subsection \<open>The planner\<close>

definition plan :: "pool_inputs \<Rightarrow> member_view list \<Rightarrow> pool_plan" where
  "plan i members =
     (let (del1, provisioning) =
            reap_provisioning i (filter (\<lambda>m. mv_phase m = Provisioning) members) ([], 0);
          (fresh, stale) = split_ready i (filter (\<lambda>m. mv_phase m = Ready) members) ([], []);
          stale_ready = sort_by (\<lambda>a b. older_first (fst a) (fst b)) stale;
          fresh_ready = sort_by older_first fresh;
          fresh_ready_n = len_u32 (length fresh_ready);
          claimed = count_phase members Claimed;
          del3 = scale_down i fresh_ready;
          fresh_ready_kept = min fresh_ready_n (pi_warm_replicas i);
          stale_needed = pi_warm_replicas i - fresh_ready_kept;
          stale_kept = min (length stale_ready) stale_needed;
          del4 = delete_stale (take (length stale_ready - stale_kept) stale_ready);
          wanted = pi_warm_replicas i - fresh_ready_kept - provisioning;
          surge_room = pi_max_surge i - provisioning;
          to_create = min wanted surge_room;
          alive = (\<lambda>sk. wadd32 (wadd32 (wadd32 claimed provisioning) fresh_ready_kept) (len_u32 sk));
          room = pi_max_replicas i - alive stale_kept;
          trade = (if to_create > room \<and> stale_kept > 0 then min (to_create - room) stale_kept else 0);
          del6 = delete_stale (take trade (drop (length stale_ready - stale_kept) stale_ready));
          room' = pi_max_replicas i - alive (stale_kept - trade);
          blocked = (if to_create > room' then to_create - room' else 0);
          to_create' = (if to_create > room' then room' else to_create);
          (create, blocked_addr) = allocate_addresses i members to_create'
      in \<lparr>pp_create = create, pp_delete = del1 @ del3 @ del4 @ del6,
          pp_blocked_on_addresses = blocked_addr, pp_blocked_on_capacity = blocked\<rparr>)"

subsection \<open>Each pass in closed form\<close>

definition stale_reason :: "pool_inputs \<Rightarrow> member_view \<Rightarrow> delete_reason option" where
  "stale_reason i m =
     (if stale_image i m then Some StaleImage else if idle_expired i m then Some IdleExpired else None)"

definition timed_out :: "pool_inputs \<Rightarrow> member_view list \<Rightarrow> member_view list" where
  "timed_out i ms = filter (\<lambda>m. mv_phase m = Provisioning \<and> pi_provisioning_timeout_secs i < mv_age_secs m) ms"

definition installing :: "pool_inputs \<Rightarrow> member_view list \<Rightarrow> member_view list" where
  "installing i ms = filter (\<lambda>m. mv_phase m = Provisioning \<and> \<not> pi_provisioning_timeout_secs i < mv_age_secs m) ms"

definition claimed_of :: "member_view list \<Rightarrow> member_view list" where
  "claimed_of ms = filter (\<lambda>m. mv_phase m = Claimed) ms"

definition fresh_of :: "pool_inputs \<Rightarrow> member_view list \<Rightarrow> member_view list" where
  "fresh_of i ms = filter (\<lambda>m. mv_phase m = Ready \<and> stale_reason i m = None) ms"

definition stale_of :: "pool_inputs \<Rightarrow> member_view list \<Rightarrow> (member_view \<times> delete_reason) list" where
  "stale_of i ms = map (\<lambda>m. (m, the (stale_reason i m)))
     (filter (\<lambda>m. mv_phase m = Ready \<and> stale_reason i m \<noteq> None) ms)"

definition fresh_sorted :: "pool_inputs \<Rightarrow> member_view list \<Rightarrow> member_view list" where
  "fresh_sorted i ms = sort_by older_first (fresh_of i ms)"

definition stale_sorted :: "pool_inputs \<Rightarrow> member_view list \<Rightarrow> (member_view \<times> delete_reason) list" where
  "stale_sorted i ms = sort_by (\<lambda>a b. older_first (fst a) (fst b)) (stale_of i ms)"

lemma reap_provisioning_eq:
  assumes "p + length ms \<le> u32_max"
  shows "reap_provisioning i ms (del, p) =
     (del @ map (\<lambda>m. (mv_name m, ProvisioningTimeout))
        (filter (\<lambda>m. pi_provisioning_timeout_secs i < mv_age_secs m) ms),
      p + length (filter (\<lambda>m. \<not> pi_provisioning_timeout_secs i < mv_age_secs m) ms))"
  using assms
proof (induction ms arbitrary: del p)
  case (Cons m ms)
  then have "wadd32 p 1 = p + 1"
    by (simp add: wadd32_exact)
  with Cons show ?case by simp
qed simp

lemma split_ready_eq:
  "split_ready i ms (fresh, stale) =
     (fresh @ filter (\<lambda>m. stale_reason i m = None) ms,
      stale @ map (\<lambda>m. (m, the (stale_reason i m))) (filter (\<lambda>m. stale_reason i m \<noteq> None) ms))"
  by (induction ms arbitrary: fresh stale) (auto simp: stale_reason_def)

interpretation older: comparator_le older_first
proof unfold_locales
  fix x y z :: member_view
  show "older_first x y \<or> older_first y x"
    by (auto simp: older_first_def)
  assume "older_first x y" "older_first y z"
  then show "older_first x z"
    by (auto simp: older_first_def)
qed

interpretation older_pair: comparator_le "\<lambda>a b. older_first (fst a) (fst (b :: member_view \<times> delete_reason))"
  using older.le_total older.le_trans by unfold_locales blast+

text \<open>The numbers the passes work with, as the header of the module describes them.\<close>

definition kept_fresh :: "pool_inputs \<Rightarrow> member_view list \<Rightarrow> nat" where
  "kept_fresh i ms = min (length (fresh_of i ms)) (pi_warm_replicas i)"

definition kept_stale :: "pool_inputs \<Rightarrow> member_view list \<Rightarrow> nat" where
  "kept_stale i ms = min (length (stale_of i ms)) (pi_warm_replicas i - kept_fresh i ms)"

definition build_target :: "pool_inputs \<Rightarrow> member_view list \<Rightarrow> nat" where
  "build_target i ms =
     min (pi_warm_replicas i - kept_fresh i ms - length (installing i ms))
         (pi_max_surge i - length (installing i ms))"

definition alive_untraded :: "pool_inputs \<Rightarrow> member_view list \<Rightarrow> nat" where
  "alive_untraded i ms =
     length (claimed_of ms) + length (installing i ms) + kept_fresh i ms + kept_stale i ms"

definition traded :: "pool_inputs \<Rightarrow> member_view list \<Rightarrow> nat" where
  "traded i ms = min (build_target i ms - (pi_max_replicas i - alive_untraded i ms)) (kept_stale i ms)"

definition creates :: "pool_inputs \<Rightarrow> member_view list \<Rightarrow> nat" where
  "creates i ms = min (build_target i ms) (pi_max_replicas i - (alive_untraded i ms - traded i ms))"

definition stale_dropped :: "pool_inputs \<Rightarrow> member_view list \<Rightarrow> nat" where
  "stale_dropped i ms = length (stale_of i ms) - kept_stale i ms + traded i ms"

definition plan_spec :: "pool_inputs \<Rightarrow> member_view list \<Rightarrow> pool_plan" where
  "plan_spec i ms =
     \<lparr>pp_create = fst (allocate_addresses i ms (creates i ms)),
      pp_delete = map (\<lambda>m. (mv_name m, ProvisioningTimeout)) (timed_out i ms)
        @ map (\<lambda>m. (mv_name m, ScaleDown))
            (take (length (fresh_of i ms) - pi_warm_replicas i) (fresh_sorted i ms))
        @ delete_stale (take (stale_dropped i ms) (stale_sorted i ms)),
      pp_blocked_on_addresses = snd (allocate_addresses i ms (creates i ms)),
      pp_blocked_on_capacity = build_target i ms - creates i ms\<rparr>"

lemma length_parts:
  "length (claimed_of ms) + length (installing i ms) + length (timed_out i ms)
     + length (fresh_of i ms) + length (stale_of i ms) \<le> length ms"
  unfolding claimed_of_def installing_def timed_out_def fresh_of_def stale_of_def
  by (induction ms) (auto simp del: not_None_eq split: if_splits)

lemma len_u32_exact: "n \<le> u32_max \<Longrightarrow> len_u32 n = n"
  by (simp add: len_u32_def)

lemma length_sorted [simp]:
  "length (fresh_sorted i ms) = length (fresh_of i ms)"
  "length (stale_sorted i ms) = length (stale_of i ms)"
  by (simp_all add: fresh_sorted_def stale_sorted_def)

lemma delete_stale_append: "delete_stale (xs @ ys) = delete_stale xs @ delete_stale ys"
  by (simp add: delete_stale_def)

lemma reap_phase:
  assumes "length ms \<le> u32_max"
  shows "reap_provisioning i (filter (\<lambda>m. mv_phase m = Provisioning) ms) ([], 0) =
      (map (\<lambda>m. (mv_name m, ProvisioningTimeout)) (timed_out i ms), length (installing i ms))"
  using le_trans [OF length_filter_le assms]
  by (simp add: reap_provisioning_eq timed_out_def installing_def conj_commute)

lemma split_phase:
  "split_ready i (filter (\<lambda>m. mv_phase m = Ready) ms) ([], []) = (fresh_of i ms, stale_of i ms)"
  by (simp add: split_ready_eq fresh_of_def stale_of_def conj_commute)

lemma claimed_exact: "length ms \<le> u32_max \<Longrightarrow> count_phase ms Claimed = length (claimed_of ms)"
  unfolding count_phase_def claimed_of_def
  by (rule len_u32_exact) (rule le_trans [OF length_filter_le])

lemma kept_stale_le: "kept_stale i ms \<le> length (stale_of i ms)"
  by (simp add: kept_stale_def)

lemma traded_le: "traded i ms \<le> kept_stale i ms"
  by (simp add: traded_def)

lemma alive_exact:
  assumes "length ms \<le> u32_max" and "k \<le> length (stale_of i ms)"
  shows "wadd32 (wadd32 (wadd32 (length (claimed_of ms)) (length (installing i ms))) (kept_fresh i ms)) (len_u32 k)
      = length (claimed_of ms) + length (installing i ms) + kept_fresh i ms + k"
proof -
  have "length (claimed_of ms) + length (installing i ms) + kept_fresh i ms + k \<le> u32_max"
    using assms length_parts [of ms i] unfolding kept_fresh_def by linarith
  then show ?thesis
    by (simp add: wadd32_exact len_u32_exact)
qed

lemma plan_eq_spec:
  assumes "length ms \<le> u32_max"
  shows "plan i ms = plan_spec i ms"
proof -
  have nf: "len_u32 (length (fresh_of i ms)) = length (fresh_of i ms)"
    by (rule len_u32_exact) (use length_parts [of ms i] assms in linarith)
  note alive = alive_exact [OF assms, of _ i]
  have alive_kept: "wadd32 (wadd32 (wadd32 (length (claimed_of ms)) (length (installing i ms))) (kept_fresh i ms))
      (len_u32 (kept_stale i ms)) = alive_untraded i ms"
    using alive [OF kept_stale_le] by (simp add: alive_untraded_def)
  have alive_traded: "wadd32 (wadd32 (wadd32 (length (claimed_of ms)) (length (installing i ms))) (kept_fresh i ms))
      (len_u32 (kept_stale i ms - traded i ms)) = alive_untraded i ms - traded i ms"
    using alive [of "kept_stale i ms - traded i ms"] kept_stale_le [of i ms] traded_le [of i ms]
    by (simp add: alive_untraded_def)
  have trade: "(if build_target i ms > pi_max_replicas i - alive_untraded i ms \<and> kept_stale i ms > 0
      then min (build_target i ms - (pi_max_replicas i - alive_untraded i ms)) (kept_stale i ms) else 0) = traded i ms"
    by (auto simp: traded_def)
  have cr: "(if build_target i ms > pi_max_replicas i - (alive_untraded i ms - traded i ms)
      then pi_max_replicas i - (alive_untraded i ms - traded i ms) else build_target i ms) = creates i ms"
    by (simp add: creates_def)
  have blocked: "(if build_target i ms > pi_max_replicas i - (alive_untraded i ms - traded i ms)
      then build_target i ms - (pi_max_replicas i - (alive_untraded i ms - traded i ms)) else 0)
      = build_target i ms - creates i ms"
    by (simp add: creates_def)
  have scale: "(if length (fresh_of i ms) > pi_warm_replicas i
      then map (\<lambda>m. (mv_name m, ScaleDown)) (take (length (fresh_of i ms) - pi_warm_replicas i) (fresh_sorted i ms))
      else []) = map (\<lambda>m. (mv_name m, ScaleDown)) (take (length (fresh_of i ms) - pi_warm_replicas i) (fresh_sorted i ms))"
    by simp
  have del: "delete_stale (take (length (stale_of i ms) - kept_stale i ms) (stale_sorted i ms))
      @ delete_stale (take (traded i ms) (drop (length (stale_of i ms) - kept_stale i ms) (stale_sorted i ms)))
      = delete_stale (take (stale_dropped i ms) (stale_sorted i ms))"
    by (simp add: take_add stale_dropped_def flip: delete_stale_append)
  show ?thesis
    unfolding plan_def plan_spec_def reap_phase [OF assms] split_phase claimed_exact [OF assms] Let_def prod.case
      stale_sorted_def [symmetric] fresh_sorted_def [symmetric] scale_down_def length_sorted nf
      kept_fresh_def [symmetric] kept_stale_def [symmetric] build_target_def [symmetric]
      alive_kept trade alive_traded cr blocked scale del
    by (simp split: prod.split)
qed

subsection \<open>What a plan leaves behind\<close>

text \<open>
  The members that still exist once the plan's deletes are done and that were not already being
  deleted: every claimed member, every installing one, the newest fresh members and the newest
  stale ones.
\<close>

definition survivors :: "pool_inputs \<Rightarrow> member_view list \<Rightarrow> member_view list" where
  "survivors i ms =
     filter (\<lambda>m. mv_phase m \<noteq> Deleting \<and> mv_name m \<notin> fst ` set (pp_delete (plan i ms))) ms"

definition deleted_members :: "pool_inputs \<Rightarrow> member_view list \<Rightarrow> member_view list" where
  "deleted_members i ms =
     timed_out i ms @ take (length (fresh_of i ms) - pi_warm_replicas i) (fresh_sorted i ms)
       @ map fst (take (stale_dropped i ms) (stale_sorted i ms))"

definition kept_members :: "pool_inputs \<Rightarrow> member_view list \<Rightarrow> member_view list" where
  "kept_members i ms =
     claimed_of ms @ installing i ms
       @ drop (length (fresh_of i ms) - pi_warm_replicas i) (fresh_sorted i ms)
       @ map fst (drop (stale_dropped i ms) (stale_sorted i ms))"

lemma mset_by_phase:
  "mset (filter (\<lambda>m. mv_phase m \<noteq> Deleting) ms) =
     mset (claimed_of ms) + mset (installing i ms) + mset (timed_out i ms)
       + mset (fresh_of i ms) + mset (map fst (stale_of i ms))"
  unfolding claimed_of_def installing_def timed_out_def fresh_of_def stale_of_def
proof (induction ms)
  case (Cons m ms)
  then show ?case by (cases "mv_phase m") (auto simp: comp_def)
qed simp

lemma mset_take_drop: "mset (take n xs) + mset (drop n xs) = mset xs"
  by (metis append_take_drop_id mset_append)

lemma mset_deleted_kept:
  "mset (filter (\<lambda>m. mv_phase m \<noteq> Deleting) ms) = mset (deleted_members i ms) + mset (kept_members i ms)"
proof -
  have fresh: "mset (fresh_of i ms) = mset (take n (fresh_sorted i ms)) + mset (drop n (fresh_sorted i ms))" for n
    by (simp add: mset_take_drop) (simp add: fresh_sorted_def)
  have stale: "mset (map fst (stale_of i ms))
      = mset (map fst (take n (stale_sorted i ms))) + mset (map fst (drop n (stale_sorted i ms)))" for n
  proof -
    have "mset (map fst (stale_of i ms)) = image_mset fst (mset (stale_sorted i ms))"
      by (simp add: stale_sorted_def)
    also have "\<dots> = image_mset fst (mset (take n (stale_sorted i ms)) + mset (drop n (stale_sorted i ms)))"
      by (simp only: mset_take_drop)
    finally show ?thesis by simp
  qed
  show ?thesis
    unfolding mset_by_phase [of ms i] deleted_members_def kept_members_def
    using fresh [of "length (fresh_of i ms) - pi_warm_replicas i"] stale [of "stale_dropped i ms"]
    by simp
qed

lemma names_deleted:
  assumes "length ms \<le> u32_max"
  shows "map fst (pp_delete (plan i ms)) = map mv_name (deleted_members i ms)"
  by (simp add: plan_eq_spec [OF assms] plan_spec_def deleted_members_def delete_stale_def comp_def case_prod_beta)

lemma mset_survivors:
  assumes "length ms \<le> u32_max" and "distinct (map mv_name ms)"
  shows "mset (survivors i ms) = mset (kept_members i ms)"
proof -
  have "fst ` set (pp_delete (plan i ms)) = mv_name ` set (deleted_members i ms)"
    using names_deleted [OF assms(1), of i] by (metis set_map)
  then have "survivors i ms =
      filter (\<lambda>m. mv_name m \<notin> mv_name ` set (deleted_members i ms)) (filter (\<lambda>m. mv_phase m \<noteq> Deleting) ms)"
    by (simp add: survivors_def conj_commute)
  moreover have "distinct (map mv_name (filter (\<lambda>m. mv_phase m \<noteq> Deleting) ms))"
    using assms(2) by (rule distinct_map_filter_key)
  ultimately show ?thesis
    using filter_remaining [OF _ mset_deleted_kept] by metis
qed

lemma length_kept:
  "length (kept_members i ms) = alive_untraded i ms - traded i ms"
  unfolding kept_members_def alive_untraded_def stale_dropped_def kept_fresh_def
  using kept_stale_le [of i ms] traded_le [of i ms] by (simp add: min_def ac_simps)

lemma length_survivors:
  assumes "length ms \<le> u32_max" and "distinct (map mv_name ms)"
  shows "length (survivors i ms) = alive_untraded i ms - traded i ms"
  using mset_survivors [OF assms, of i] by (metis length_kept size_mset)

subsection \<open>Addresses\<close>

definition addr_list :: "ipv4 \<Rightarrow> ipv4 \<Rightarrow> ipv4 list" where
  "addr_list lo hi = map word_of_nat [unat lo..<Suc (unat hi)]"

lemma set_addr_list: "set (addr_list lo hi) = {a. lo \<le> a \<and> a \<le> hi}"
proof -
  have "a \<in> word_of_nat ` {unat lo..unat hi}" if "lo \<le> a" "a \<le> hi" for a :: ipv4
    by (rule image_eqI [of _ _ "unat a"]) (use that in \<open>auto simp: word_le_nat_alt\<close>)
  moreover have "lo \<le> word_of_nat n \<and> word_of_nat n \<le> hi" if "unat lo \<le> n" "n \<le> unat hi" for n
    using that unat32_less [of hi] by (simp add: word_le_nat_alt unat_of_nat)
  ultimately show ?thesis
    unfolding addr_list_def set_map set_upt atLeastLessThanSuc_atLeastAtMost by auto
qed

lemma distinct_addr_list: "distinct (addr_list lo hi)"
proof -
  have "inj_on (word_of_nat :: nat \<Rightarrow> ipv4) (set [unat lo..<Suc (unat hi)])"
  proof (rule inj_onI)
    fix x y
    assume "x \<in> set [unat lo..<Suc (unat hi)]" "y \<in> set [unat lo..<Suc (unat hi)]"
      and eq: "(word_of_nat x :: ipv4) = word_of_nat y"
    then have "x < 4294967296" "y < 4294967296"
      using unat32_less [of hi] by auto
    with arg_cong [OF eq, of unat] show "x = y"
      by (simp add: unat_of_nat)
  qed
  then show ?thesis
    by (simp add: addr_list_def distinct_map del: upt_Suc)
qed

lemma addr_list_empty: "\<not> nxt \<le> hi \<Longrightarrow> addr_list nxt hi = []"
  by (simp add: addr_list_def word_le_nat_alt)

lemma addr_list_step:
  assumes "nxt \<le> hi" and "nxt \<noteq> 4294967295"
  shows "addr_list nxt hi = nxt # addr_list (nxt + 1) hi"
  using assms unat_succ32 [of nxt]
  by (simp add: addr_list_def word_le_nat_alt upt_conv_Cons del: upt_Suc)

lemma addr_list_last:
  assumes "nxt \<le> hi" and "nxt = 4294967295"
  shows "addr_list nxt hi = [nxt]"
proof -
  have "unat hi = unat nxt"
    using assms unat32_less [of hi] by (simp add: word_le_nat_alt)
  then show ?thesis by (simp add: addr_list_def)
qed

definition free_addrs :: "ipv4 list \<Rightarrow> ipv4 list \<Rightarrow> ipv4 list" where
  "free_addrs used as = filter (\<lambda>a. a \<notin> set used) as"

lemma draw_range_eq:
  assumes "lo \<le> nxt" and "granted \<le> to_create" and "to_create \<le> u32_max"
  shows "fst (draw_range used to_create lo hi nxt (create, granted)) =
      (create @ take (to_create - granted) (free_addrs used (addr_list nxt hi)),
       granted + length (take (to_create - granted) (free_addrs used (addr_list nxt hi))))
    \<and> (snd (draw_range used to_create lo hi nxt (create, granted)) \<longrightarrow>
       to_create \<le> granted + length (take (to_create - granted) (free_addrs used (addr_list nxt hi))))"
  using assms
proof (induction used to_create lo hi nxt "(create, granted)" arbitrary: create granted rule: draw_range.induct)
  case (1 used to_create lo hi nxt create granted)
  note unfold = draw_range.simps [of used to_create lo hi nxt create granted]
  consider "\<not> nxt \<le> hi" | "nxt \<le> hi" "granted \<ge> to_create" | "nxt \<le> hi" "granted < to_create"
    by linarith
  then show ?case
  proof cases
    case 1
    then show ?thesis
      by (simp add: unfold addr_list_empty free_addrs_def)
  next
    case 2
    have "lo \<le> hi"
      using "1.prems"(1) 2(1) by (rule order_trans)
    with 2 "1.prems"(2) show ?thesis
      by (simp add: draw_range.simps)
  next
    case 3
    define st where "st = (if nxt \<notin> set used then (create @ [nxt], granted + 1) else (create, granted))"
    have lohi: "lo \<le> hi"
      using "1.prems"(1) 3(1) by (rule order_trans)
    have w: "wadd32 granted 1 = granted + 1"
      using 3 "1.prems" by (simp add: wadd32_exact)
    show ?thesis
    proof (cases "nxt = 4294967295")
      case True
      have un: "draw_range used to_create lo hi nxt (create, granted) = (st, False)"
        using 3 lohi True w by (simp add: draw_range.simps st_def)
      show ?thesis
        unfolding un addr_list_last [OF 3(1) True] using 3 by (auto simp: st_def free_addrs_def)
    next
      case False
      have lo': "lo \<le> nxt + 1"
        using "1.prems"(1) unat_succ32 [OF False] by (simp add: word_le_nat_alt)
      have IH: "fst (draw_range used to_create lo hi (nxt + 1) (c, g)) =
            (c @ take (to_create - g) (free_addrs used (addr_list (nxt + 1) hi)),
             g + length (take (to_create - g) (free_addrs used (addr_list (nxt + 1) hi))))
          \<and> (snd (draw_range used to_create lo hi (nxt + 1) (c, g)) \<longrightarrow>
             to_create \<le> g + length (take (to_create - g) (free_addrs used (addr_list (nxt + 1) hi))))"
        if "(c, g) = st" for c g
        using "1.hyps" [of c g] that 3 lohi False lo' w "1.prems"
        by (auto simp: st_def split: if_splits)
      have rec: "draw_range used to_create lo hi nxt (create, granted) = draw_range used to_create lo hi (nxt + 1) st"
        using 3 lohi False w by (simp add: unfold st_def)
      show ?thesis
      proof (cases "nxt \<in> set used")
        case True
        then have "st = (create, granted)" by (simp add: st_def)
        with IH [of create granted] rec True show ?thesis
          by (simp add: addr_list_step [OF 3(1) False] free_addrs_def)
      next
        case unused: False
        then have "st = (create @ [nxt], granted + 1)" by (simp add: st_def)
        with IH [of "create @ [nxt]" "granted + 1"] rec unused 3 show ?thesis
          by (simp add: addr_list_step [OF 3(1) False] free_addrs_def take_Cons')
      qed
    qed
  qed
qed

definition range_addrs :: "address_range list \<Rightarrow> ipv4 list" where
  "range_addrs rs = concat (map (\<lambda>r. addr_list (ar_start r) (ar_end r)) rs)"

lemma free_addrs_append: "free_addrs used (xs @ ys) = free_addrs used xs @ free_addrs used ys"
  by (simp add: free_addrs_def)

lemma draw_ranges_eq:
  assumes "granted \<le> to_create" and "to_create \<le> u32_max"
  shows "draw_ranges used to_create rs (create, granted) =
     (create @ take (to_create - granted) (free_addrs used (range_addrs rs)),
      granted + length (take (to_create - granted) (free_addrs used (range_addrs rs))))"
  using assms
proof (induction rs arbitrary: create granted)
  case Nil
  then show ?case by (simp add: range_addrs_def free_addrs_def)
next
  case (Cons r rs)
  let ?A = "free_addrs used (addr_list (ar_start r) (ar_end r))"
  obtain st broke where d:
    "draw_range used to_create (ar_start r) (ar_end r) (ar_start r) (create, granted) = (st, broke)"
    by fastforce
  have st: "st = (create @ take (to_create - granted) ?A, granted + length (take (to_create - granted) ?A))"
    and full: "broke \<Longrightarrow> to_create \<le> granted + length (take (to_create - granted) ?A)"
    using draw_range_eq [OF order_refl Cons.prems, of used "ar_start r" "ar_end r" create] d by auto
  show ?case
  proof (cases broke)
    case True
    with full Cons.prems have "to_create - granted \<le> length ?A" by simp
    then show ?thesis
      using d st True by (simp add: range_addrs_def free_addrs_append)
  next
    case False
    have "granted + length (take (to_create - granted) ?A) \<le> to_create"
      using Cons.prems(1) by simp
    from Cons.IH [OF this Cons.prems(2), of "create @ take (to_create - granted) ?A"] show ?thesis
      using d st False
      by (simp add: range_addrs_def free_addrs_append min_def split: if_splits)
  qed
qed

definition inputs_u32 :: "pool_inputs \<Rightarrow> bool" where
  "inputs_u32 i \<longleftrightarrow> pi_warm_replicas i \<le> u32_max \<and> pi_max_replicas i \<le> u32_max \<and> pi_max_surge i \<le> u32_max"

definition held_addresses :: "member_view list \<Rightarrow> ipv4 list" where
  "held_addresses ms = List.map_filter mv_address ms"

lemma set_held_addresses: "a \<in> set (held_addresses ms) \<longleftrightarrow> (\<exists>m \<in> set ms. mv_address m = Some a)"
  unfolding held_addresses_def List.map_filter_def by force

definition addrs_granted :: "pool_inputs \<Rightarrow> member_view list \<Rightarrow> ipv4 list" where
  "addrs_granted i ms =
     take (creates i ms) (free_addrs (held_addresses ms) (range_addrs (pi_address_ranges i)))"

lemma creates_u32: "inputs_u32 i \<Longrightarrow> creates i ms \<le> u32_max"
  unfolding creates_def inputs_u32_def by (auto simp: min_def)

lemma plan_create:
  assumes "length ms \<le> u32_max" and "inputs_u32 i"
  shows "pp_create (plan i ms) =
      (if pi_address_ranges i = [] then replicate (creates i ms) \<lparr>nm_address = None\<rparr>
       else map (\<lambda>a. \<lparr>nm_address = Some a\<rparr>) (addrs_granted i ms))"
    and "pp_blocked_on_addresses (plan i ms) =
      (if pi_address_ranges i = [] then 0 else creates i ms - length (addrs_granted i ms))"
  using draw_ranges_eq [OF le0 creates_u32 [OF assms(2), of ms], of "held_addresses ms" "pi_address_ranges i" "[]"]
  by (simp_all add: plan_eq_spec [OF assms(1)] plan_spec_def allocate_addresses_def addrs_granted_def
      held_addresses_def)

lemma length_create:
  assumes "length ms \<le> u32_max" and "inputs_u32 i"
  shows "length (pp_create (plan i ms)) + pp_blocked_on_addresses (plan i ms) = creates i ms"
  by (simp add: plan_create [OF assms] addrs_granted_def)

lemma set_range_addrs: "set (range_addrs rs) = {a. \<exists>r \<in> set rs. ar_start r \<le> a \<and> a \<le> ar_end r}"
  by (auto simp: range_addrs_def set_addr_list)

definition ranges_disjoint :: "address_range list \<Rightarrow> bool" where
  "ranges_disjoint rs \<longleftrightarrow>
     (\<forall>j < length rs. \<forall>k < length rs. j \<noteq> k \<longrightarrow>
        ar_end (rs ! j) < ar_start (rs ! k) \<or> ar_end (rs ! k) < ar_start (rs ! j)
          \<or> ar_end (rs ! j) < ar_start (rs ! j) \<or> ar_end (rs ! k) < ar_start (rs ! k))"

lemma ranges_disjoint_Cons:
  assumes "ranges_disjoint (r # rs)"
  shows "ranges_disjoint rs"
    and "q \<in> set rs \<Longrightarrow> ar_start r \<le> a \<Longrightarrow> a \<le> ar_end r \<Longrightarrow> \<not> (ar_start q \<le> a \<and> a \<le> ar_end q)"
proof -
  show "ranges_disjoint rs"
    unfolding ranges_disjoint_def
  proof (intro allI impI)
    fix j k
    assume "j < length rs" "k < length rs" "j \<noteq> k"
    with assms [unfolded ranges_disjoint_def, rule_format, of "Suc j" "Suc k"]
    show "ar_end (rs ! j) < ar_start (rs ! k) \<or> ar_end (rs ! k) < ar_start (rs ! j)
          \<or> ar_end (rs ! j) < ar_start (rs ! j) \<or> ar_end (rs ! k) < ar_start (rs ! k)"
      by simp
  qed
  assume q: "q \<in> set rs" and a: "ar_start r \<le> a" "a \<le> ar_end r"
  then obtain k where k: "k < length rs" "q = rs ! k"
    by (auto simp: in_set_conv_nth)
  with assms [unfolded ranges_disjoint_def, rule_format, of 0 "Suc k"] a
  show "\<not> (ar_start q \<le> a \<and> a \<le> ar_end q)"
    by (auto dest: order_trans order.strict_trans1 order.strict_trans2)
qed

lemma distinct_range_addrs: "ranges_disjoint rs \<Longrightarrow> distinct (range_addrs rs)"
proof (induction rs)
  case (Cons r rs)
  have "set (addr_list (ar_start r) (ar_end r)) \<inter> set (range_addrs rs) = {}"
    using ranges_disjoint_Cons(2) [OF Cons.prems] by (auto simp: set_addr_list set_range_addrs)
  with Cons.IH [OF ranges_disjoint_Cons(1) [OF Cons.prems]] show ?case
    by (simp add: range_addrs_def distinct_addr_list)
qed (simp add: range_addrs_def)

subsection \<open>Properties\<close>

lemma set_fresh_sorted: "m \<in> set (fresh_sorted i ms) \<longleftrightarrow> m \<in> set ms \<and> mv_phase m = Ready \<and> stale_reason i m = None"
  by (simp add: fresh_sorted_def fresh_of_def)

lemma set_stale_sorted:
  "(m, r) \<in> set (stale_sorted i ms) \<longleftrightarrow> m \<in> set ms \<and> mv_phase m = Ready \<and> stale_reason i m = Some r"
  by (auto simp: stale_sorted_def stale_of_def)

lemma in_deleted_phase: "m \<in> set (deleted_members i ms) \<Longrightarrow> m \<in> set ms \<and> mv_phase m \<in> {Provisioning, Ready}"
  by (auto simp: deleted_members_def timed_out_def set_fresh_sorted set_stale_sorted dest!: in_set_takeD)

lemma stale_reason_Some:
  "stale_reason i m = Some r \<Longrightarrow> r = StaleImage \<and> stale_image i m \<or> r = IdleExpired \<and> idle_expired i m"
  by (auto simp: stale_reason_def split: if_splits)

text \<open>
  Every delete carries a true reason: the member named was past the provisioning timeout, ran a
  superseded image, had idled too long, or was one of a surplus of fresh members.
\<close>

theorem plan_delete_reasons:
  assumes "length ms \<le> u32_max" and "(n, r) \<in> set (pp_delete (plan i ms))"
  shows "\<exists>m \<in> set ms. mv_name m = n \<and>
    (case r of
       ProvisioningTimeout \<Rightarrow> mv_phase m = Provisioning \<and> pi_provisioning_timeout_secs i < mv_age_secs m
     | StaleImage \<Rightarrow> mv_phase m = Ready \<and> stale_image i m
     | IdleExpired \<Rightarrow> mv_phase m = Ready \<and> idle_expired i m
     | ScaleDown \<Rightarrow> mv_phase m = Ready \<and> pi_warm_replicas i < length (fresh_of i ms))"
proof -
  let ?surplus = "length (fresh_of i ms) - pi_warm_replicas i"
  from assms(2) consider
      m where "r = ProvisioningTimeout" "m \<in> set (timed_out i ms)" "n = mv_name m"
    | m where "r = ScaleDown" "m \<in> set (take ?surplus (fresh_sorted i ms))" "n = mv_name m"
    | m where "(m, r) \<in> set (take (stale_dropped i ms) (stale_sorted i ms))" "n = mv_name m"
    by (auto simp: plan_eq_spec [OF assms(1)] plan_spec_def delete_stale_def)
  then show ?thesis
  proof cases
    case 1
    then show ?thesis by (auto simp: timed_out_def)
  next
    case 2
    then have "0 < ?surplus"
      by (cases ?surplus) auto
    with 2 show ?thesis by (auto simp: set_fresh_sorted dest!: in_set_takeD)
  next
    case 3
    then have "m \<in> set ms" "mv_phase m = Ready" "stale_reason i m = Some r"
      by (auto simp: set_stale_sorted dest!: in_set_takeD)
    with 3(2) stale_reason_Some [of i m r] show ?thesis by auto
  qed
qed

text \<open>
  (C28) A claimed member, and one already being deleted, is never deleted by the pool: whatever the
  snapshot, every name the plan deletes is the name of a Provisioning or Ready member, and when
  names are unique (the API server's guarantee) of no other member.
\<close>

theorem plan_never_deletes_claimed:
  assumes "length ms \<le> u32_max" and "distinct (map mv_name ms)" and "m \<in> set ms"
    and "mv_phase m = Claimed \<or> mv_phase m = Deleting"
  shows "mv_name m \<notin> fst ` set (pp_delete (plan i ms))"
proof
  assume "mv_name m \<in> fst ` set (pp_delete (plan i ms))"
  then have "mv_name m \<in> mv_name ` set (deleted_members i ms)"
    using names_deleted [OF assms(1), of i] by (metis set_map)
  then obtain m' where "m' \<in> set (deleted_members i ms)" "mv_name m' = mv_name m"
    by auto
  with in_deleted_phase distinct_keys_eq [OF assms(2)] assms(3,4) show False
    by fastforce
qed

text \<open>
  (C32) \<^verbatim>\<open>max_replicas\<close>: a plan that creates anything leaves at most \<^verbatim>\<open>max_replicas\<close> members,
  counting every member that survives its deletes and every one it creates.  (A pool that is already
  above the cap, for instance because the cap was lowered, creates nothing.)
\<close>

theorem plan_respects_max_replicas:
  assumes "length ms \<le> u32_max" and "inputs_u32 i" and "distinct (map mv_name ms)"
    and "pp_create (plan i ms) \<noteq> []"
  shows "length (survivors i ms) + length (pp_create (plan i ms)) \<le> pi_max_replicas i"
proof -
  have "length (pp_create (plan i ms)) \<le> creates i ms"
    using length_create [OF assms(1,2)] by linarith
  moreover have "creates i ms \<le> pi_max_replicas i - length (survivors i ms)"
    by (simp add: length_survivors [OF assms(1,3)] creates_def)
  moreover have "length (pp_create (plan i ms)) > 0"
    using assms(4) by simp
  ultimately show ?thesis by linarith
qed

lemma provisioning_kept: "filter (\<lambda>m. mv_phase m = Provisioning) (kept_members i ms) = installing i ms"
proof -
  have "filter (\<lambda>m. mv_phase m = Provisioning) (claimed_of ms) = []"
    by (auto simp: claimed_of_def filter_empty_conv)
  moreover have "filter (\<lambda>m. mv_phase m = Provisioning) (installing i ms) = installing i ms"
    by (auto simp: installing_def intro: filter_cong)
  moreover have "filter (\<lambda>m. mv_phase m = Provisioning) (drop k (fresh_sorted i ms)) = []" for k
    by (auto simp: filter_empty_conv set_fresh_sorted dest!: in_set_dropD)
  moreover have "filter (\<lambda>m. mv_phase m = Provisioning) (map fst (drop k (stale_sorted i ms))) = []" for k
    by (auto simp: filter_empty_conv set_stale_sorted dest!: in_set_dropD)
  ultimately show ?thesis by (simp add: kept_members_def)
qed

text \<open>
  \<^verbatim>\<open>max_surge\<close>: a plan that creates anything leaves at most \<^verbatim>\<open>max_surge\<close> members
  installing, counting the survivors still in Provisioning and the ones it creates.
\<close>

theorem plan_respects_max_surge:
  assumes "length ms \<le> u32_max" and "inputs_u32 i" and "distinct (map mv_name ms)"
    and "pp_create (plan i ms) \<noteq> []"
  shows "length (filter (\<lambda>m. mv_phase m = Provisioning) (survivors i ms)) + length (pp_create (plan i ms))
    \<le> pi_max_surge i"
proof -
  have "filter (\<lambda>m. mv_phase m = Provisioning) (kept_members i ms) = installing i ms"
    by (rule provisioning_kept)
  then have "length (filter (\<lambda>m. mv_phase m = Provisioning) (survivors i ms)) = length (installing i ms)"
    using mset_survivors [OF assms(1,3), of i] by (metis mset_filter size_mset)
  moreover have "length (pp_create (plan i ms)) \<le> creates i ms"
    using length_create [OF assms(1,2)] by linarith
  moreover have "creates i ms \<le> pi_max_surge i - length (installing i ms)"
    by (simp add: creates_def build_target_def min.coboundedI1)
  moreover have "length (pp_create (plan i ms)) > 0"
    using assms(4) by simp
  ultimately show ?thesis by linarith
qed

lemma ready_count: "length (filter (\<lambda>m. mv_phase m = Ready) ms) = length (fresh_of i ms) + length (stale_of i ms)"
  unfolding fresh_of_def stale_of_def by (induction ms) auto

lemma ready_survivors:
  assumes "length ms \<le> u32_max" and "distinct (map mv_name ms)"
  shows "length (filter (\<lambda>m. mv_phase m = Ready) (survivors i ms)) = kept_fresh i ms + kept_stale i ms - traded i ms"
proof -
  let ?R = "\<lambda>m. mv_phase m = Ready"
  have "filter ?R (claimed_of ms) = []" "filter ?R (installing i ms) = []"
    by (auto simp: claimed_of_def installing_def filter_empty_conv)
  moreover have "filter ?R (drop k (fresh_sorted i ms)) = drop k (fresh_sorted i ms)" for k
    by (rule filter_True) (auto simp: set_fresh_sorted dest!: in_set_dropD)
  moreover have "filter ?R (map fst (drop k (stale_sorted i ms))) = map fst (drop k (stale_sorted i ms))" for k
    by (rule filter_True) (auto simp: set_stale_sorted dest!: in_set_dropD)
  ultimately have "length (filter ?R (kept_members i ms)) = kept_fresh i ms + kept_stale i ms - traded i ms"
    using kept_stale_le [of i ms] traded_le [of i ms]
    by (simp add: kept_members_def stale_dropped_def kept_fresh_def min_def ac_simps)
  moreover have "mset (filter ?R (survivors i ms)) = mset (filter ?R (kept_members i ms))"
    by (simp add: mset_survivors [OF assms])
  ultimately show ?thesis
    by (metis size_mset)
qed

text \<open>
  Surge replacement: when \<^verbatim>\<open>max_replicas\<close> leaves room for the claimed members, the warm set
  and a full surge, the plan's deletes keep exactly \<^verbatim>\<open>warm_replicas\<close> claimable members, or all of
  them if there are fewer, however many of them are stale.
\<close>

theorem plan_keeps_warm_set:
  assumes "length ms \<le> u32_max" and "distinct (map mv_name ms)"
    and "length (filter (\<lambda>m. mv_phase m = Claimed) ms) + pi_warm_replicas i
      + max (pi_max_surge i) (length (filter (\<lambda>m. mv_phase m = Provisioning) ms)) \<le> pi_max_replicas i"
  shows "length (filter (\<lambda>m. mv_phase m = Ready) (survivors i ms))
    = min (pi_warm_replicas i) (length (filter (\<lambda>m. mv_phase m = Ready) ms))"
proof -
  have "length (installing i ms) \<le> length (filter (\<lambda>m. mv_phase m = Provisioning) ms)"
    unfolding installing_def by (induction ms) auto
  with assms(3) have "alive_untraded i ms + build_target i ms \<le> pi_max_replicas i"
    unfolding alive_untraded_def build_target_def kept_stale_def kept_fresh_def claimed_of_def
    by linarith
  then have "traded i ms = 0"
    by (simp add: traded_def)
  then show ?thesis
    unfolding ready_survivors [OF assms(1,2)] ready_count [of ms i]
    by (auto simp: kept_fresh_def kept_stale_def)
qed

text \<open>
  Nothing the pool wants is dropped silently: what it creates and what it reports as blocked on
  addresses and on capacity add up to the members missing from the warm set, capped by the surge
  left.  In particular a plan that neither creates nor blocks anything, with nothing installing and
  surge allowed, has a full set of fresh Ready members.
\<close>

theorem plan_accounts_for_demand:
  assumes "length ms \<le> u32_max" and "inputs_u32 i"
  shows "length (pp_create (plan i ms)) + pp_blocked_on_addresses (plan i ms) + pp_blocked_on_capacity (plan i ms)
      = min (pi_warm_replicas i - length (fresh_of i ms) - length (installing i ms))
            (pi_max_surge i - length (installing i ms))"
proof -
  have "pp_blocked_on_capacity (plan i ms) = build_target i ms - creates i ms"
    by (simp add: plan_eq_spec [OF assms(1)] plan_spec_def)
  moreover have "creates i ms \<le> build_target i ms"
    by (simp add: creates_def)
  moreover have "build_target i ms = min (pi_warm_replicas i - length (fresh_of i ms) - length (installing i ms))
            (pi_max_surge i - length (installing i ms))"
    by (simp add: build_target_def kept_fresh_def min_def)
  ultimately show ?thesis
    using length_create [OF assms] by linarith
qed

text \<open>
  A pool at its target is left alone: with as many fresh Ready members as \<^verbatim>\<open>warm_replicas\<close>, no
  stale Ready member and no poisoned install, the plan is empty.
\<close>

theorem plan_steady_state:
  assumes "length ms \<le> u32_max" and "length (fresh_of i ms) = pi_warm_replicas i"
    and "stale_of i ms = []" and "timed_out i ms = []"
  shows "plan i ms = \<lparr>pp_create = [], pp_delete = [], pp_blocked_on_addresses = 0, pp_blocked_on_capacity = 0\<rparr>"
proof -
  have "build_target i ms = 0" "creates i ms = 0" "kept_stale i ms = 0" "traded i ms = 0"
    by (simp_all add: build_target_def creates_def kept_fresh_def kept_stale_def traded_def assms)
  moreover have "stale_sorted i ms = []"
    by (simp add: stale_sorted_def assms)
  moreover have "fst (allocate_addresses i ms 0) = [] \<and> snd (allocate_addresses i ms 0) = 0"
    using draw_ranges_eq [of 0 0 "held_addresses ms" "pi_address_ranges i" "[]"]
    by (simp add: allocate_addresses_def held_addresses_def)
  ultimately show ?thesis
    by (simp add: plan_eq_spec [OF assms(1)] plan_spec_def assms delete_stale_def)
qed

text \<open>
  (C33) Addresses: with static addressing every new member gets an address of one of the pool's
  ranges that no existing member holds, whatever that member's phase, and when the ranges do not
  overlap no two new members get the same one.
\<close>

theorem plan_addresses_free:
  assumes "length ms \<le> u32_max" and "inputs_u32 i" and "pi_address_ranges i \<noteq> []"
    and "ranges_disjoint (pi_address_ranges i)"
  shows "(\<forall>n \<in> set (pp_create (plan i ms)). \<exists>a. nm_address n = Some a
        \<and> (\<forall>m \<in> set ms. mv_address m \<noteq> Some a)
        \<and> (\<exists>r \<in> set (pi_address_ranges i). ar_start r \<le> a \<and> a \<le> ar_end r))
    \<and> distinct (map nm_address (pp_create (plan i ms)))"
proof -
  have create: "pp_create (plan i ms) = map (\<lambda>a. \<lparr>nm_address = Some a\<rparr>) (addrs_granted i ms)"
    using assms(3) by (simp add: plan_create [OF assms(1,2)])
  have "distinct (addrs_granted i ms)"
    unfolding addrs_granted_def free_addrs_def
    by (intro distinct_take distinct_filter distinct_range_addrs assms(4))
  then have "distinct (map nm_address (pp_create (plan i ms)))"
    by (simp add: create comp_def distinct_map)
  moreover have "a \<notin> set (held_addresses ms)" "a \<in> set (range_addrs (pi_address_ranges i))"
    if "a \<in> set (addrs_granted i ms)" for a
    using that by (auto simp: addrs_granted_def free_addrs_def dest!: in_set_takeD)
  ultimately show ?thesis
    by (simp add: create set_range_addrs set_held_addresses)
qed

text \<open>
  \<^verbatim>\<open>blocked_on_addresses\<close> is only reported when the ranges are exhausted: every address of
  every range is then held by a member or handed out by this very plan.
\<close>

theorem plan_blocked_means_exhausted:
  assumes "length ms \<le> u32_max" and "inputs_u32 i" and "0 < pp_blocked_on_addresses (plan i ms)"
    and "r \<in> set (pi_address_ranges i)" and "ar_start r \<le> a" and "a \<le> ar_end r"
  shows "(\<exists>m \<in> set ms. mv_address m = Some a) \<or> \<lparr>nm_address = Some a\<rparr> \<in> set (pp_create (plan i ms))"
proof -
  have ne: "pi_address_ranges i \<noteq> []"
    using assms(4) by auto
  let ?F = "free_addrs (held_addresses ms) (range_addrs (pi_address_ranges i))"
  have "length (addrs_granted i ms) < creates i ms"
    using assms(3) ne by (simp add: plan_create [OF assms(1,2)])
  then have "addrs_granted i ms = ?F"
    by (simp add: addrs_granted_def)
  moreover have "a \<in> set (range_addrs (pi_address_ranges i))"
    using assms(4-6) by (auto simp: set_range_addrs)
  ultimately have "a \<in> set (held_addresses ms) \<or> a \<in> set (addrs_granted i ms)"
    by (simp add: free_addrs_def)
  then show ?thesis
    using ne by (simp add: plan_create [OF assms(1,2)] set_held_addresses image_iff)
qed


definition overlap_inputs :: pool_inputs where
  "overlap_inputs = \<lparr>pi_warm_replicas = 2, pi_max_replicas = 5, pi_max_surge = 2,
     pi_provisioning_timeout_secs = 900, pi_max_idle_secs = None, pi_recycle_on_image_change = False,
     pi_current_image_revision = ''r1'',
     pi_address_ranges = [\<lparr>ar_start = 10, ar_end = 10\<rparr>, \<lparr>ar_start = 10, ar_end = 11\<rparr>]\<rparr>"

text \<open>
  Overlapping address ranges are not caught: the planner checks an address against the members
  that exist but not against the ones it has just handed out, so two ranges that share an address
  give it to two new members of the same plan.
\<close>

theorem plan_overlapping_ranges_duplicate:
  "map nm_address (pp_create (plan overlap_inputs [])) = [Some 10, Some 10]"
  by (subst plan_eq_spec) code_simp+

subsection \<open>Concrete pools\<close>

definition demo_member :: "string \<Rightarrow> member_phase \<Rightarrow> nat \<Rightarrow> string \<Rightarrow> ipv4 \<Rightarrow> member_view" where
  "demo_member n ph age img a = \<lparr>mv_name = n, mv_phase = ph, mv_age_secs = age, mv_ready_for_secs = age,
     mv_image_revision = img, mv_address = Some a\<rparr>"

definition demo_members :: "member_view list" where
  "demo_members =
     [demo_member ''a'' Ready 500 ''r1'' 20, demo_member ''b'' Ready 400 ''r0'' 21,
      demo_member ''c'' Claimed 300 ''r0'' 22, demo_member ''d'' Provisioning 1000 ''r1'' 23,
      demo_member ''e'' Deleting 50 ''r1'' 24]"

definition demo_inputs :: "nat \<Rightarrow> nat \<Rightarrow> address_range list \<Rightarrow> pool_inputs" where
  "demo_inputs warm cap rs = \<lparr>pi_warm_replicas = warm, pi_max_replicas = cap, pi_max_surge = 2,
     pi_provisioning_timeout_secs = 900, pi_max_idle_secs = None, pi_recycle_on_image_change = True,
     pi_current_image_revision = ''r1'', pi_address_ranges = rs\<rparr>"

definition demo_ranges :: "address_range list" where
  "demo_ranges = [\<lparr>ar_start = 20, ar_end = 25\<rparr>, \<lparr>ar_start = 30, ar_end = 30\<rparr>]"

lemma demo_u32:
  "length demo_members \<le> u32_max" "distinct (map mv_name demo_members)" "inputs_u32 (demo_inputs 2 9 rs)"
  "inputs_u32 (demo_inputs 3 9 rs)"
  by (simp_all add: demo_members_def demo_member_def u32_max_def inputs_u32_def demo_inputs_def)

lemmas demo_plan = plan_eq_spec [OF demo_u32(1)]

lemma demo_c: "demo_member ''c'' Claimed 300 ''r0'' 22 \<in> set demo_members"
  by (simp add: demo_members_def)

lemma demo_ranges_disjoint: "ranges_disjoint demo_ranges"
  by (auto simp: ranges_disjoint_def demo_ranges_def less_Suc_eq)

theorem plan_delete_reasons_witness:
  "\<exists>m \<in> set demo_members. mv_name m = ''d'' \<and> mv_phase m = Provisioning \<and> 900 < mv_age_secs m"
proof -
  have "(''d'', ProvisioningTimeout) \<in> set (pp_delete (plan (demo_inputs 2 9 []) demo_members))"
    unfolding demo_plan by code_simp
  from plan_delete_reasons [OF demo_u32(1) this] show ?thesis
    by (simp add: demo_inputs_def)
qed

theorem plan_never_deletes_claimed_witness:
  "''c'' \<notin> fst ` set (pp_delete (plan (demo_inputs 2 9 []) demo_members))"
  using plan_never_deletes_claimed [OF demo_u32(1,2) demo_c, of "demo_inputs 2 9 []"]
  by (simp add: demo_member_def)

theorem plan_respects_max_replicas_witness:
  "length (survivors (demo_inputs 2 9 []) demo_members) + length (pp_create (plan (demo_inputs 2 9 []) demo_members)) \<le> 9"
proof -
  have "pp_create (plan (demo_inputs 2 9 []) demo_members) \<noteq> []"
    unfolding demo_plan by code_simp
  from plan_respects_max_replicas [OF demo_u32(1) demo_u32(3) demo_u32(2) this] show ?thesis
    by (simp add: demo_inputs_def)
qed

theorem plan_respects_max_surge_witness:
  "length (filter (\<lambda>m. mv_phase m = Provisioning) (survivors (demo_inputs 2 9 []) demo_members))
     + length (pp_create (plan (demo_inputs 2 9 []) demo_members)) \<le> 2"
proof -
  have "pp_create (plan (demo_inputs 2 9 []) demo_members) \<noteq> []"
    unfolding demo_plan by code_simp
  from plan_respects_max_surge [OF demo_u32(1) demo_u32(3) demo_u32(2) this] show ?thesis
    by (simp add: demo_inputs_def)
qed

theorem plan_keeps_warm_set_witness:
  "length (filter (\<lambda>m. mv_phase m = Ready) (survivors (demo_inputs 2 9 []) demo_members)) = 2"
  using plan_keeps_warm_set [OF demo_u32(1,2), of "demo_inputs 2 9 []"]
  by (simp add: demo_inputs_def demo_members_def demo_member_def)

theorem plan_accounts_for_demand_witness:
  "length (pp_create (plan (demo_inputs 3 9 demo_ranges) demo_members))
     + pp_blocked_on_addresses (plan (demo_inputs 3 9 demo_ranges) demo_members)
     + pp_blocked_on_capacity (plan (demo_inputs 3 9 demo_ranges) demo_members) = 2"
proof -
  have "min (3 - length (fresh_of (demo_inputs 3 9 demo_ranges) demo_members)
        - length (installing (demo_inputs 3 9 demo_ranges) demo_members))
      (2 - length (installing (demo_inputs 3 9 demo_ranges) demo_members)) = 2"
    by code_simp
  with plan_accounts_for_demand [OF demo_u32(1) demo_u32(4)] show ?thesis
    by (simp add: demo_inputs_def)
qed

theorem plan_steady_state_witness:
  "plan (demo_inputs 1 9 []) [demo_member ''a'' Ready 500 ''r1'' 20] =
     \<lparr>pp_create = [], pp_delete = [], pp_blocked_on_addresses = 0, pp_blocked_on_capacity = 0\<rparr>"
  by (rule plan_steady_state) code_simp+

theorem plan_addresses_free_witness:
  "map nm_address (pp_create (plan (demo_inputs 3 9 demo_ranges) demo_members)) = [Some 25, Some 30]
    \<and> Some 25 \<notin> mv_address ` set demo_members"
proof -
  have create: "pp_create (plan (demo_inputs 3 9 demo_ranges) demo_members) =
      [\<lparr>nm_address = Some 25\<rparr>, \<lparr>nm_address = Some 30\<rparr>]"
    unfolding demo_plan by code_simp
  have "pi_address_ranges (demo_inputs 3 9 demo_ranges) \<noteq> []"
    "ranges_disjoint (pi_address_ranges (demo_inputs 3 9 demo_ranges))"
    by (simp_all add: demo_inputs_def demo_ranges_disjoint) (simp add: demo_ranges_def)
  from plan_addresses_free [OF demo_u32(1) demo_u32(4) this] show ?thesis
    by (auto simp: create)
qed

theorem plan_blocked_means_exhausted_witness:
  "(\<exists>m \<in> set demo_members. mv_address m = Some 20)
    \<or> \<lparr>nm_address = Some 20\<rparr> \<in> set (pp_create (plan (demo_inputs 2 9 [\<lparr>ar_start = 20, ar_end = 20\<rparr>]) demo_members))"
proof -
  have "0 < pp_blocked_on_addresses (plan (demo_inputs 2 9 [\<lparr>ar_start = 20, ar_end = 20\<rparr>]) demo_members)"
    unfolding demo_plan by code_simp
  from plan_blocked_means_exhausted [OF demo_u32(1) demo_u32(3) this, of "\<lparr>ar_start = 20, ar_end = 20\<rparr>" 20] show ?thesis
    by (simp add: demo_inputs_def)
qed


end
