(* ===== verification/Api_Common.thy ===== *)
theory Api_Common
  imports Banlieue_Prelude
begin

section \<open>Types shared by the API groups\<close>

text \<open>
  Model of \<^verbatim>\<open>crates/banlieue-api/src/common.rs\<close>: one record per struct (fields prefixed with the
  struct's initials), one datatype per enum, and the functions the file defines on them.  The
  attributes that drive (de)serialisation are not part of the model.  The lemmas are the round trips
  between \<^verbatim>\<open>as_str\<close> and \<^verbatim>\<open>FromStr\<close> and the exactly-one rule of the source selectors.
\<close>

subsection \<open>Kubernetes metadata and conditions\<close>

text \<open>
  The part of \<^verbatim>\<open>ObjectMeta\<close> and \<^verbatim>\<open>Condition\<close> (\<^verbatim>\<open>k8s_openapi\<close>) the code reads and writes.  A
  timestamp is a number of nanoseconds.
\<close>

record owner_reference =
  or_api_version :: string
  or_kind :: string
  or_name :: string
  or_uid :: string
  or_controller :: "bool option"
  or_block_owner_deletion :: "bool option"

record object_meta =
  om_name :: "string option"
  om_generate_name :: "string option"
  om_namespace :: "string option"
  om_uid :: "string option"
  om_resource_version :: "string option"
  om_generation :: "int option"
  om_creation_timestamp :: "timestamp option"
  om_deletion_timestamp :: "timestamp option"
  om_labels :: "btmap option"
  om_annotations :: "btmap option"
  om_finalizers :: "string list option"
  om_owner_references :: "owner_reference list option"

record condition =
  c_type :: string
  c_status :: string
  c_observed_generation :: "int option"
  c_last_transition_time :: timestamp
  c_reason :: string
  c_message :: string

text \<open>\<^verbatim>\<open>ResourceExt\<close> of the \<^verbatim>\<open>kube\<close> crate: the accessors used, with their defaults.\<close>

definition name_any :: "object_meta \<Rightarrow> string" where
  "name_any m = (case om_name m of Some n \<Rightarrow> n
     | None \<Rightarrow> (case om_generate_name m of Some g \<Rightarrow> g | None \<Rightarrow> ''''))"

definition meta_labels :: "object_meta \<Rightarrow> btmap" where
  "meta_labels m = (case om_labels m of Some l \<Rightarrow> l | None \<Rightarrow> [])"

definition meta_annotations :: "object_meta \<Rightarrow> btmap" where
  "meta_annotations m = (case om_annotations m of Some l \<Rightarrow> l | None \<Rightarrow> [])"

definition meta_finalizers :: "object_meta \<Rightarrow> string list" where
  "meta_finalizers m = (case om_finalizers m of Some l \<Rightarrow> l | None \<Rightarrow> [])"

definition empty_meta :: object_meta where
  "empty_meta = \<lparr>om_name = None, om_generate_name = None, om_namespace = None, om_uid = None,
     om_resource_version = None, om_generation = None, om_creation_timestamp = None,
     om_deletion_timestamp = None, om_labels = None, om_annotations = None, om_finalizers = None,
     om_owner_references = None\<rparr>"

subsection \<open>Data\<close>

record initialization_status =
  is_provisioned :: "bool option"

record api_endpoint =
  ae_host :: string
  ae_port :: int

record cluster_failure_domain =
  cfd_name :: string
  cfd_control_plane :: "bool option"
  cfd_attributes :: btmap

datatype machine_address_type = Hostname | ExternalIP | InternalIP | ExternalDNS | InternalDNS

record machine_address =
  ma_type :: machine_address_type
  ma_address :: string

record local_object_reference =
  lor_name :: string

record typed_object_reference =
  tor_api_group :: string
  tor_kind :: string
  tor_name :: string
  tor_namespace :: "string option"

record key_selector =
  ks_name :: string
  ks_key :: "string option"

record ca_bundle_source =
  cbs_inline :: "string option"
  cbs_config_map_ref :: "key_selector option"
  cbs_secret_ref :: "key_selector option"

record cloud_config_source =
  ccs_secret_ref :: "key_selector option"

record first_boot_sealing =
  fbs_partitions :: "string list"
  fbs_timeout_seconds :: nat

datatype label_selector_operator = In | NotIn | Exists | DoesNotExist

record label_selector_requirement =
  lsr_key :: string
  lsr_operator :: label_selector_operator
  lsr_values :: "string list"

record label_selector =
  ls_match_labels :: btmap
  ls_match_expressions :: "label_selector_requirement list"

datatype disk_provisioning = Thin | Thick | EagerZeroed

datatype firmware = Bios | Efi | EfiSecure

datatype power_state = PoweredOn | PoweredOff | Suspended

record static_ipam_config =
  sic_address :: string
  sic_prefix :: nat
  sic_gateway :: "string option"
  sic_nameservers :: "string list"
  sic_domain :: "string option"

record static_network_shape =
  sns_prefix :: "nat option"
  sns_gateway :: "string option"
  sns_nameservers :: "string list"
  sns_domain :: "string option"

record pool_ipam_config =
  pic_pool_ref :: typed_object_reference

datatype ipam_source = Dhcp | Static | Pool

record ipam_spec =
  is_static :: "static_ipam_config option"
  is_pool :: "pool_ipam_config option"

record ipam_shape =
  ish_static :: "static_network_shape option"
  ish_pool :: "pool_ipam_config option"

subsection \<open>Operations\<close>

definition key_or :: "key_selector \<Rightarrow> string \<Rightarrow> string" where
  "key_or s dflt = (case ks_key s of Some k \<Rightarrow> k | None \<Rightarrow> dflt)"

definition usize_from :: "bool \<Rightarrow> nat" where
  "usize_from b = (if b then 1 else 0)"

definition is_some :: "'a option \<Rightarrow> bool" where
  "is_some x = (case x of Some _ \<Rightarrow> True | None \<Rightarrow> False)"

lemma is_some_iff [simp]: "is_some x \<longleftrightarrow> x \<noteq> None"
  by (cases x) (simp_all add: is_some_def)

definition ca_source_count :: "ca_bundle_source \<Rightarrow> nat" where
  "ca_source_count s = usize_from (is_some (cbs_inline s)) + usize_from (is_some (cbs_config_map_ref s))
     + usize_from (is_some (cbs_secret_ref s))"

definition ca_validate :: "ca_bundle_source \<Rightarrow> (string, unit) result" where
  "ca_validate s =
     (if ca_source_count s = 1 then Inr ()
      else if ca_source_count s = 0
      then Inl ''caBundle: exactly one of inline, configMapRef, secretRef must be set (none were)''
      else Inl ''caBundle: exactly one of inline, configMapRef, secretRef must be set (more than one was)'')"

definition cloud_source_count :: "cloud_config_source \<Rightarrow> nat" where
  "cloud_source_count s = usize_from (is_some (ccs_secret_ref s))"

definition cloud_validate :: "cloud_config_source \<Rightarrow> (string, unit) result" where
  "cloud_validate s =
     (if cloud_source_count s = 1 then Inr ()
      else if cloud_source_count s = 0 then Inl ''cloudConfig: secretRef must be set (none was)''
      else Inl ''cloudConfig: exactly one source must be set (more than one was)'')"

definition default_first_boot_sealing :: first_boot_sealing where
  "default_first_boot_sealing = \<lparr>fbs_partitions = [''COS_PERSISTENT''], fbs_timeout_seconds = 600\<rparr>"

definition ascii_lower :: "char \<Rightarrow> char" where
  "ascii_lower c = (if 65 \<le> (of_char c :: nat) \<and> (of_char c :: nat) \<le> 90 then char_of ((of_char c :: nat) + 32) else c)"

definition to_ascii_lowercase :: "string \<Rightarrow> string" where
  "to_ascii_lowercase s = map ascii_lower s"

text \<open>A failed \<^verbatim>\<open>FromStr\<close> carries the lowered input its message quotes.\<close>

datatype parse_error = UnknownDiskType string | UnknownFirmware string | UnknownInstallMode string
  | UnknownDiskController string | UnknownNicAdapter string

fun disk_provisioning_as_str :: "disk_provisioning \<Rightarrow> string" where
  "disk_provisioning_as_str Thin = ''thin''"
| "disk_provisioning_as_str Thick = ''thick''"
| "disk_provisioning_as_str EagerZeroed = ''eagerZeroed''"

definition disk_provisioning_from_str :: "string \<Rightarrow> (parse_error, disk_provisioning) result" where
  "disk_provisioning_from_str s =
     (if to_ascii_lowercase s = ''thin'' then Inr Thin
      else if to_ascii_lowercase s = ''thick'' then Inr Thick
      else if to_ascii_lowercase s = ''eagerzeroed'' then Inr EagerZeroed
      else Inl (UnknownDiskType (to_ascii_lowercase s)))"

fun firmware_as_str :: "firmware \<Rightarrow> string" where
  "firmware_as_str Bios = ''bios''"
| "firmware_as_str Efi = ''efi''"
| "firmware_as_str EfiSecure = ''efi-secure''"

definition firmware_from_str :: "string \<Rightarrow> (parse_error, firmware) result" where
  "firmware_from_str s =
     (if to_ascii_lowercase s = ''bios'' then Inr Bios
      else if to_ascii_lowercase s = ''efi'' then Inr Efi
      else if to_ascii_lowercase s = ''efi-secure'' \<or> to_ascii_lowercase s = ''efisecure'' then Inr EfiSecure
      else Inl (UnknownFirmware (to_ascii_lowercase s)))"

definition ipam_spec_source :: "ipam_spec \<Rightarrow> ipam_source" where
  "ipam_spec_source s = (if is_some (is_static s) then Static else if is_some (is_pool s) then Pool else Dhcp)"

definition ipam_shape_source :: "ipam_shape \<Rightarrow> ipam_source" where
  "ipam_shape_source s = (if is_some (ish_static s) then Static else if is_some (ish_pool s) then Pool else Dhcp)"

subsection \<open>Lemmas\<close>

lemma ascii_lower_idem: "ascii_lower (ascii_lower c) = ascii_lower c"
proof (cases "65 \<le> (of_char c :: nat) \<and> (of_char c :: nat) \<le> 90")
  case True
  then have "(of_char (char_of ((of_char c :: nat) + 32)) :: nat) = of_char c + 32"
    by (subst of_char_of) simp
  with True show ?thesis by (simp add: ascii_lower_def)
qed (auto simp: ascii_lower_def)

lemma to_ascii_lowercase_idem: "to_ascii_lowercase (to_ascii_lowercase s) = to_ascii_lowercase s"
  by (simp add: to_ascii_lowercase_def ascii_lower_idem)

lemma disk_provisioning_roundtrip: "disk_provisioning_from_str (disk_provisioning_as_str d) = Inr d"
  by (cases d; hypsubst; code_simp)

lemma firmware_roundtrip: "firmware_from_str (firmware_as_str f) = Inr f"
  by (cases f; hypsubst; code_simp)

lemma firmware_case_insensitive: "firmware_from_str (to_ascii_lowercase s) = firmware_from_str s"
  by (simp add: firmware_from_str_def to_ascii_lowercase_idem)

lemma ca_validate_ok:
  "ca_validate s = Inr () \<longleftrightarrow>
     length (filter id [is_some (cbs_inline s), is_some (cbs_config_map_ref s), is_some (cbs_secret_ref s)]) = 1"
  by (simp add: ca_validate_def ca_source_count_def usize_from_def)

end
