(* ===== verification/Api_Types.thy ===== *)
theory Api_Types
  imports Api_Common
begin

section \<open>The banlieue.io API types\<close>

text \<open>
  Model of \<^verbatim>\<open>crates/banlieue-api/src/banlieue\<close>: the specs and statuses of \<^verbatim>\<open>VirtualMachine\<close>,
  \<^verbatim>\<open>VMClass\<close>, \<^verbatim>\<open>Provider\<close>, \<^verbatim>\<open>VirtualMachinePool\<close>, \<^verbatim>\<open>VirtualMachineClaim\<close> and \<^verbatim>\<open>VMImage\<close>, and the
  methods defined on them.  An object is its metadata, its spec and its status, as the
  \<^verbatim>\<open>CustomResource\<close> derive generates it.
\<close>

subsection \<open>VirtualMachine\<close>

record disk_override =
  do_name :: string
  do_size_gib :: nat

record hardware_override =
  ho_cpus :: "nat option"
  ho_memory_mib :: "nat option"
  ho_disk_overrides :: "disk_override list"

record network_interface_override =
  nio_name :: string
  nio_static :: static_ipam_config

datatype affinity_mode = Required | Preferred

record anti_affinity_rule =
  aar_topology_key :: string
  aar_label_selector :: label_selector
  aar_mode :: affinity_mode

record placement_spec =
  ps_provider_selector :: "label_selector option"
  ps_failure_domain_selector :: "label_selector option"
  ps_anti_affinity :: "anti_affinity_rule list"

record user_data_spec =
  uds_secret_ref :: "key_selector option"
  uds_config_map_ref :: "key_selector option"

datatype migration_policy = Automatic | Manual | Never

record virtual_machine_spec =
  vs_class_ref :: local_object_reference
  vs_image_ref :: local_object_reference
  vs_placement :: placement_spec
  vs_desired_power_state :: power_state
  vs_user_data :: "user_data_spec option"
  vs_migration_policy :: migration_policy
  vs_paused :: bool
  vs_network_overrides :: "network_interface_override list"
  vs_hardware_override :: "hardware_override option"
  vs_folder :: "string option"

record resolved_resource =
  rr_class_name :: string
  rr_backend_id :: string

record scheduled_placement =
  sp_provider_name :: string
  sp_provider_class :: string
  sp_failure_domain :: string
  sp_resolved_storage :: "resolved_resource list"
  sp_resolved_networks :: "resolved_resource list"
  sp_scheduled_at :: "timestamp option"

record held_address =
  ha_interface :: string
  ha_network_class :: string
  ha_address :: string

record virtual_machine_status =
  vst_scheduled :: "scheduled_placement option"
  vst_infrastructure_ref :: "typed_object_reference option"
  vst_initialization :: initialization_status
  vst_addresses :: "machine_address list"
  vst_observed_power_state :: "power_state option"
  vst_tpm_endorsement_certificates :: "string list"
  vst_held_addresses :: "held_address list"
  vst_conditions :: "condition list"
  vst_observed_generation :: "int option"

record virtual_machine =
  vm_meta :: object_meta
  vm_spec :: virtual_machine_spec
  vm_status :: "virtual_machine_status option"

definition default_vm_status :: virtual_machine_status where
  "default_vm_status = \<lparr>vst_scheduled = None, vst_infrastructure_ref = None,
     vst_initialization = \<lparr>is_provisioned = None\<rparr>, vst_addresses = [], vst_observed_power_state = None,
     vst_tpm_endorsement_certificates = [], vst_held_addresses = [], vst_conditions = [],
     vst_observed_generation = None\<rparr>"

definition user_data_source_count :: "user_data_spec \<Rightarrow> nat" where
  "user_data_source_count s = usize_from (is_some (uds_secret_ref s)) + usize_from (is_some (uds_config_map_ref s))"

definition user_data_validate :: "user_data_spec \<Rightarrow> (string, unit) result" where
  "user_data_validate s =
     (if user_data_source_count s = 1 then Inr ()
      else if user_data_source_count s = 0
      then Inl ''userData: exactly one of secretRef, configMapRef must be set (none were)''
      else Inl ''userData: exactly one of secretRef, configMapRef must be set (more than one was)'')"

subsection \<open>VMClass\<close>

record disk_spec =
  ds_name :: string
  ds_size_gib :: nat
  ds_storage_class :: string
  ds_provisioning :: disk_provisioning

record hardware_spec =
  hs_cpus :: nat
  hs_memory_mib :: nat
  hs_disks :: "disk_spec list"

record network_interface_spec =
  nis_name :: string
  nis_network_class :: string
  nis_ipam :: ipam_shape
  nis_mtu :: "nat option"

record network_spec =
  ns_interfaces :: "network_interface_spec list"

record vm_class_spec =
  vcs_hardware :: hardware_spec
  vcs_network :: network_spec
  vcs_firmware :: firmware
  vcs_features :: "string list"
  vcs_tpm_enabled :: bool

record vm_class =
  vc_meta :: object_meta
  vc_spec :: vm_class_spec

subsection \<open>Provider\<close>

record provider_scheduling =
  psch_cpu_overcommit_ratio :: "nat option"

record provider_attestation =
  pa_ek_trust_bundle :: ca_bundle_source

record failure_domain_name_override =
  fdno_datacenter :: string
  fdno_cluster :: string
  fdno_name :: string

record provider_connection =
  pc_endpoint :: string
  pc_credentials_ref :: "local_object_reference option"
  pc_insecure_skip_tls_verify :: bool
  pc_ca_bundle :: "ca_bundle_source option"

record scoped_target =
  st_datacenter :: string
  st_cluster :: string
  st_target :: btmap

record storage_class_mapping =
  scm_name :: string
  scm_target :: "btmap option"
  scm_per_zone :: "scoped_target list"

record subnet_shape =
  ss_gateway :: "string option"
  ss_nameservers :: "string list"
  ss_domain :: "string option"

record scoped_subnet =
  ssn_datacenter :: string
  ssn_cluster :: string
  ssn_subnet :: subnet_shape

record network_class_mapping =
  ncm_name :: string
  ncm_target :: "btmap option"
  ncm_per_zone :: "scoped_target list"
  ncm_subnet :: "subnet_shape option"
  ncm_per_zone_subnet :: "scoped_subnet list"

record provider_capabilities =
  pcap_storage_classes :: "storage_class_mapping list"
  pcap_network_classes :: "network_class_mapping list"
  pcap_features :: "string list"

record provider_spec =
  prs_provider_class_ref :: local_object_reference
  prs_connection :: provider_connection
  prs_capabilities :: provider_capabilities
  prs_paused :: bool
  prs_use_content_library :: bool
  prs_failure_domain_name_overrides :: "failure_domain_name_override list"
  prs_attestation :: "provider_attestation option"
  prs_scheduling :: "provider_scheduling option"

datatype heartbeat = Alive | Stale | Absent

datatype workload_mode = Managed | External

record provider_workload_status =
  pws_mode :: workload_mode
  pws_deployment_name :: "string option"
  pws_namespace :: string
  pws_ready_replicas :: "int option"
  pws_observed_generation :: "int option"
  pws_heartbeat :: "heartbeat option"
  pws_last_heartbeat_time :: "timestamp option"

record failure_domain_capacity =
  fdc_cpus :: "nat option"
  fdc_memory_mib :: "nat option"
  fdc_memory_overhead_mib_per_vm :: "nat option"

record failure_domain_attributes =
  fda_available_storage_classes :: "string list"
  fda_available_network_classes :: "string list"
  fda_features :: "string list"
  fda_raw :: btmap
  fda_capacity :: "failure_domain_capacity option"

record failure_domain =
  fd_name :: string
  fd_labels :: btmap
  fd_attributes :: failure_domain_attributes

record provider_status =
  pst_failure_domains :: "failure_domain list"
  pst_conditions :: "condition list"
  pst_workload :: "provider_workload_status option"
  pst_ek_ca_certificates :: "string list"
  pst_observed_generation :: "int option"

record provider =
  p_meta :: object_meta
  p_spec :: provider_spec
  p_status :: "provider_status option"

definition cpu_overcommit_ratio :: "provider_scheduling \<Rightarrow> nat" where
  "cpu_overcommit_ratio s = (case psch_cpu_overcommit_ratio s of Some r \<Rightarrow> r | None \<Rightarrow> 4)"

definition capabilities_is_empty :: "provider_capabilities \<Rightarrow> bool" where
  "capabilities_is_empty c = (pcap_storage_classes c = [] \<and> pcap_network_classes c = [] \<and> pcap_features c = [])"

text \<open>\<^verbatim>\<open>Option::or\<close>.\<close>

definition option_or :: "'a option \<Rightarrow> 'a option \<Rightarrow> 'a option" where
  "option_or x y = (case x of Some v \<Rightarrow> Some v | None \<Rightarrow> y)"

definition storage_target_for :: "storage_class_mapping \<Rightarrow> string \<Rightarrow> string \<Rightarrow> btmap option" where
  "storage_target_for s datacenter cluster =
     option_or (map_option st_target
         (find (\<lambda>z. st_datacenter z = datacenter \<and> st_cluster z = cluster) (scm_per_zone s)))
       (scm_target s)"

definition network_target_for :: "network_class_mapping \<Rightarrow> string \<Rightarrow> string \<Rightarrow> btmap option" where
  "network_target_for s datacenter cluster =
     option_or (map_option st_target
         (find (\<lambda>z. st_datacenter z = datacenter \<and> st_cluster z = cluster) (ncm_per_zone s)))
       (ncm_target s)"

definition subnet_for :: "network_class_mapping \<Rightarrow> string \<Rightarrow> string \<Rightarrow> subnet_shape option" where
  "subnet_for s datacenter cluster =
     option_or (map_option ssn_subnet
         (find (\<lambda>z. ssn_datacenter z = datacenter \<and> ssn_cluster z = cluster) (ncm_per_zone_subnet s)))
       (ncm_subnet s)"

definition credentials_secret :: "provider_connection \<Rightarrow> string option" where
  "credentials_secret c = map_option lor_name (pc_credentials_ref c)"

subsection \<open>VirtualMachinePool\<close>

datatype pool_readiness = GuestReady | InfrastructureReady

record virtual_machine_template =
  vmt_labels :: btmap
  vmt_annotations :: btmap
  vmt_spec :: virtual_machine_spec

record pool_addressing =
  pad_interface :: string
  pad_pool :: "string list"
  pad_prefix :: nat
  pad_gateway :: "string option"
  pad_nameservers :: "string list"
  pad_domain :: "string option"

record virtual_machine_pool_spec =
  vps_warm_replicas :: nat
  vps_max_replicas :: nat
  vps_max_surge :: nat
  vps_template :: virtual_machine_template
  vps_addressing :: "pool_addressing option"
  vps_readiness :: pool_readiness
  vps_provisioning_timeout_seconds :: nat
  vps_max_idle_seconds :: "nat option"
  vps_recycle_on_image_change :: bool

record virtual_machine_pool_status =
  vpst_replicas :: nat
  vpst_available :: nat
  vpst_provisioning :: nat
  vpst_claimed :: nat
  vpst_image_revision :: "string option"
  vpst_conditions :: "condition list"
  vpst_observed_generation :: "int option"

record virtual_machine_pool =
  vp_meta :: object_meta
  vp_spec :: virtual_machine_pool_spec
  vp_status :: "virtual_machine_pool_status option"

definition LABEL_POOL :: string where "LABEL_POOL = ''banlieue.io/pool''"
definition LABEL_POOL_IMAGE_REVISION :: string where
  "LABEL_POOL_IMAGE_REVISION = ''banlieue.io/pool-image-revision''"
definition LABEL_CLAIM :: string where "LABEL_CLAIM = ''banlieue.io/claim''"

subsection \<open>VirtualMachineClaim\<close>

record claim_subject =
  csu_issuer :: string
  csu_id :: string

record virtual_machine_claim_spec =
  vcls_pool_ref :: local_object_reference
  vcls_subject :: claim_subject
  vcls_ttl_seconds :: nat

datatype claim_phase = Pending | Bound | Releasing | Failed

record virtual_machine_claim_status =
  vclst_phase :: claim_phase
  vclst_virtual_machine_ref :: "local_object_reference option"
  vclst_addresses :: "machine_address list"
  vclst_tpm_endorsement_certificates :: "string list"
  vclst_nonce :: "string option"
  vclst_bound_at :: "timestamp option"
  vclst_expires_at :: "timestamp option"
  vclst_conditions :: "condition list"
  vclst_observed_generation :: "int option"

record virtual_machine_claim =
  vcl_meta :: object_meta
  vcl_spec :: virtual_machine_claim_spec
  vcl_status :: "virtual_machine_claim_status option"

definition CLAIM_FINALIZER :: string where "CLAIM_FINALIZER = ''banlieue.io/claim-protection''"
definition ANNOTATION_SUBJECT_ISSUER :: string where
  "ANNOTATION_SUBJECT_ISSUER = ''banlieue.io/claim-subject-issuer''"
definition ANNOTATION_SUBJECT_ID :: string where
  "ANNOTATION_SUBJECT_ID = ''banlieue.io/claim-subject-id''"

end
