(* ===== verification/Claim_Plan.thy ===== *)
theory Claim_Plan
  imports Pool_Plan Api_Types
begin

section \<open>The claim planner\<close>

text \<open>
  Model of \<^verbatim>\<open>crates/banlieue-controller/src/reconciler/claim_plan.rs\<close>: the pure decisions behind a
  \<^verbatim>\<open>VirtualMachineClaim\<close>.  The timestamp type belongs to the \<^verbatim>\<open>jiff\<close> crate; the operations used
  are the parameter \<open>jiff\<close>, and \<open>jiff_laws\<close> states what its documentation promises of them.  The
  lemmas show that a chosen member is claimable and that the choice does not depend on the order of the
  listing, that a deadline is never before the bind, and which step each situation takes.
\<close>

subsection \<open>Data\<close>

record bound_member =
  bm_name :: string
  bm_exists :: bool

record claim_inputs =
  ci_deleting :: bool
  ci_expired :: bool
  ci_bound :: "bound_member option"

datatype claim_step =
    Release "string option" bool
  | Hold string
  | Fail string
  | Bind string
  | Wait

record pool_wait_state =
  pw_pool_name :: string
  pw_pool_exists :: bool
  pw_warm :: "(string \<times> string) option"

record mirrored_member_state =
  mms_addresses :: "machine_address list"
  mms_tpm_endorsement_certificates :: "string list"

record jiff =
  jf_as_second :: "timestamp \<Rightarrow> int"
  jf_from_second :: "int \<Rightarrow> timestamp option"
  jf_max :: timestamp

subsection \<open>Decisions\<close>

definition next_step :: "claim_inputs \<Rightarrow> string option \<Rightarrow> claim_step" where
  "next_step i candidate =
     (if ci_deleting i \<or> ci_expired i then Release (map_option bm_name (ci_bound i)) (ci_deleting i)
      else case ci_bound i of
        Some b \<Rightarrow> if \<not> bm_exists b then Fail (bm_name b) else Hold (bm_name b)
      | None \<Rightarrow> (case candidate of Some m \<Rightarrow> Bind m | None \<Rightarrow> Wait))"

definition member_bound_to :: "(string \<times> string option) list \<Rightarrow> string \<Rightarrow> string option" where
  "member_bound_to members claim = map_option fst (find (\<lambda>(_, label). label = Some claim) members)"

text \<open>\<open>pick_le\<close> is the comparator of \<^verbatim>\<open>pick_member\<close>: \<^verbatim>\<open>false < true\<close> on staleness, then longest Ready, then name.\<close>

definition pick_le :: "string \<Rightarrow> member_view \<Rightarrow> member_view \<Rightarrow> bool" where
  "pick_le current a b =
     (let a_stale = (mv_image_revision a \<noteq> current); b_stale = (mv_image_revision b \<noteq> current)
      in if a_stale \<noteq> b_stale then b_stale
         else if mv_ready_for_secs a \<noteq> mv_ready_for_secs b then mv_ready_for_secs b < mv_ready_for_secs a
         else mv_name a \<le> mv_name b)"

definition pick_member :: "member_view list \<Rightarrow> string \<Rightarrow> string option" where
  "pick_member views current =
     map_option mv_name (min_by (pick_le current) (filter (\<lambda>m. mv_phase m = Ready) views))"

definition i64_max :: int where
  "i64_max = 9223372036854775807"

definition expiry :: "jiff \<Rightarrow> timestamp \<Rightarrow> nat \<Rightarrow> timestamp \<times> timestamp" where
  "expiry j now ttl_seconds =
     (let ttl = (if int ttl_seconds \<le> i64_max then int ttl_seconds else i64_max);
          secs = min (jf_as_second j now + ttl) i64_max
      in (now, case jf_from_second j secs of Some t \<Rightarrow> t | None \<Rightarrow> jf_max j))"

definition wait_reason :: "pool_wait_state \<Rightarrow> string \<times> string" where
  "wait_reason s =
     (if \<not> pw_pool_exists s
      then (''PoolNotFound'', ''pool '' @ pw_pool_name s @ '' does not exist'')
      else (''NoMemberAvailable'',
        ''no Ready, unclaimed member in pool '' @ pw_pool_name s @
          (case pw_warm s of
             Some (reason, message) \<Rightarrow> '' (pool: '' @ reason @ '': '' @ message @ '')''
           | None \<Rightarrow> '' (pool has not published a Warm condition yet)'')))"

definition is_expired :: "timestamp \<Rightarrow> timestamp \<Rightarrow> bool" where
  "is_expired expires_at now = (now \<ge> expires_at)"

definition mirrored_member_state_of :: "virtual_machine \<Rightarrow> mirrored_member_state" where
  "mirrored_member_state_of vm =
     (case vm_status vm of
        None \<Rightarrow> \<lparr>mms_addresses = [], mms_tpm_endorsement_certificates = []\<rparr>
      | Some s \<Rightarrow> \<lparr>mms_addresses = vst_addresses s,
                   mms_tpm_endorsement_certificates = vst_tpm_endorsement_certificates s\<rparr>)"

subsection \<open>Which member is picked\<close>

interpretation pick: comparator_le "pick_le current"
  for current :: string
proof unfold_locales
  fix x y z :: member_view
  show "pick_le current x y \<or> pick_le current y x"
    by (auto simp: pick_le_def Let_def)
  show "pick_le current x z" if "pick_le current x y" "pick_le current y z"
    using that by (auto simp: pick_le_def Let_def split: if_splits)
qed

lemma pick_le_antisym: "pick_le current a b \<Longrightarrow> pick_le current b a \<Longrightarrow> mv_name a = mv_name b"
  by (auto simp: pick_le_def Let_def split: if_splits)

lemma pick_member_Some:
  assumes "pick_member views current = Some n"
  obtains m where "m \<in> set views" "mv_phase m = Ready" "mv_name m = n"
    "\<And>v. v \<in> set views \<Longrightarrow> mv_phase v = Ready \<Longrightarrow> pick_le current m v"
proof -
  from assms obtain m where m: "min_by (pick_le current) (filter (\<lambda>m. mv_phase m = Ready) views) = Some m"
    and n: "mv_name m = n"
    by (auto simp: pick_member_def)
  from min_by_in [OF m] have "m \<in> set views" "mv_phase m = Ready" by auto
  moreover have "pick_le current m v" if "v \<in> set views" "mv_phase v = Ready" for v
    by (rule pick.min_by_least [OF m]) (use that in simp)
  ultimately show ?thesis using that n by blast
qed

lemma pick_member_None: "pick_member views current = None \<longleftrightarrow> (\<forall>v \<in> set views. mv_phase v \<noteq> Ready)"
  by (simp add: pick_member_def filter_empty_conv)

text \<open>
  (C37) The member handed to a claim is Ready (so never one already claimed or being deleted); it runs
  the current image if any Ready member does; and among the Ready members of the same freshness none
  has been Ready longer.
\<close>

theorem pick_member_best:
  assumes "pick_member views current = Some n"
  shows "\<exists>m \<in> set views. mv_name m = n \<and> mv_phase m = Ready
    \<and> (\<forall>v \<in> set views. mv_phase v = Ready \<longrightarrow>
         (mv_image_revision v = current \<longrightarrow> mv_image_revision m = current)
       \<and> ((mv_image_revision v = current) = (mv_image_revision m = current) \<longrightarrow>
            mv_ready_for_secs v \<le> mv_ready_for_secs m))"
proof -
  obtain m where m: "m \<in> set views" "mv_phase m = Ready" "mv_name m = n"
    and least: "\<And>v. v \<in> set views \<Longrightarrow> mv_phase v = Ready \<Longrightarrow> pick_le current m v"
    using pick_member_Some [OF assms] by blast
  have "(mv_image_revision v = current \<longrightarrow> mv_image_revision m = current)
       \<and> ((mv_image_revision v = current) = (mv_image_revision m = current) \<longrightarrow>
            mv_ready_for_secs v \<le> mv_ready_for_secs m)"
    if "v \<in> set views" "mv_phase v = Ready" for v
    using least [OF that] by (auto simp: pick_le_def Let_def split: if_splits)
  with m show ?thesis by blast
qed

text \<open>
  Two controllers that list the same members in any order pick the same one.
\<close>

theorem pick_member_order_independent:
  assumes "mset views = mset views'"
  shows "pick_member views current = pick_member views' current"
proof (cases "pick_member views current")
  case None
  then show ?thesis
    using assms by (metis mset_eq_setD pick_member_None)
next
  case (Some n)
  have set: "set views = set views'"
    using assms by (rule mset_eq_setD)
  obtain m where m: "m \<in> set views" "mv_phase m = Ready" "mv_name m = n"
    and least: "\<And>v. v \<in> set views \<Longrightarrow> mv_phase v = Ready \<Longrightarrow> pick_le current m v"
    using pick_member_Some [OF Some] by blast
  obtain n' where n': "pick_member views' current = Some n'"
    using m set by (metis not_Some_eq pick_member_None)
  obtain m' where m': "m' \<in> set views'" "mv_phase m' = Ready" "mv_name m' = n'"
    and least': "\<And>v. v \<in> set views' \<Longrightarrow> mv_phase v = Ready \<Longrightarrow> pick_le current m' v"
    using pick_member_Some [OF n'] by blast
  have "n = n'"
    using pick_le_antisym [of current m m'] least [of m'] least' [of m] m m' set by simp
  with Some n' show ?thesis by simp
qed

subsection \<open>Deadlines\<close>

text \<open>
  What \<^verbatim>\<open>jiff\<close> documents of \<^verbatim>\<open>Timestamp\<close>: \<^verbatim>\<open>from_second\<close> is defined exactly on the whole seconds
  between those of \<^verbatim>\<open>MIN\<close> and \<^verbatim>\<open>MAX\<close>, \<^verbatim>\<open>as_second\<close> reads them back, and it is monotone.
\<close>

definition jiff_laws :: "jiff \<Rightarrow> timestamp \<Rightarrow> bool" where
  "jiff_laws j lowest \<longleftrightarrow>
     (\<forall>s t. jf_from_second j s = Some t \<longrightarrow> jf_as_second j t = s)
   \<and> (\<forall>s. (jf_from_second j s \<noteq> None) = (jf_as_second j lowest \<le> s \<and> s \<le> jf_as_second j (jf_max j)))
   \<and> (\<forall>t u. t \<le> u \<longrightarrow> jf_as_second j t \<le> jf_as_second j u)
   \<and> jf_as_second j (jf_max j) < i64_max"

text \<open>
  A claim's deadline never lands before its bind, whatever the TTL: the sum saturates, and a sum
  beyond the last timestamp becomes that timestamp.  Short of that, the deadline is exactly the TTL
  after the second of the bind (for a bind after 1970).
\<close>

theorem expiry_not_before_bind:
  assumes "jiff_laws j lowest" and "lowest \<le> now" and "now \<le> jf_max j"
  shows "fst (expiry j now ttl) = now
    \<and> jf_as_second j now \<le> jf_as_second j (snd (expiry j now ttl))
    \<and> (0 \<le> jf_as_second j now \<and> jf_as_second j now + int ttl \<le> jf_as_second j (jf_max j) \<longrightarrow>
         jf_as_second j (snd (expiry j now ttl)) = jf_as_second j now + int ttl)"
proof -
  define secs where "secs = min (jf_as_second j now + min (int ttl) i64_max) i64_max"
  have exp: "snd (expiry j now ttl) = (case jf_from_second j secs of Some t \<Rightarrow> t | None \<Rightarrow> jf_max j)"
    by (simp add: expiry_def secs_def Let_def min_def)
  have lows: "jf_as_second j lowest \<le> jf_as_second j now" "jf_as_second j now \<le> jf_as_second j (jf_max j)"
    using assms by (auto simp: jiff_laws_def)
  have maxs: "jf_as_second j (jf_max j) < i64_max"
    using assms(1) by (simp add: jiff_laws_def)
  have ge: "jf_as_second j now \<le> secs"
    using lows maxs unfolding secs_def i64_max_def by (simp add: min_def)
  show ?thesis
  proof (cases "jf_from_second j secs")
    case None
    then have "\<not> (jf_as_second j lowest \<le> secs \<and> secs \<le> jf_as_second j (jf_max j))"
      using assms(1) unfolding jiff_laws_def by (metis (no_types))
    then have "jf_as_second j (jf_max j) < secs"
      using ge lows by linarith
    then have "jf_as_second j (jf_max j) < jf_as_second j now + int ttl"
      unfolding secs_def by (simp add: min_def split: if_splits)
    with None exp lows show ?thesis by (simp add: expiry_def Let_def)
  next
    case (Some t)
    then have t: "jf_as_second j t = secs"
      using assms(1) by (simp add: jiff_laws_def)
    have "secs = jf_as_second j now + int ttl"
      if "0 \<le> jf_as_second j now" "jf_as_second j now + int ttl \<le> jf_as_second j (jf_max j)"
      using that maxs unfolding secs_def by (simp add: min_def)
    with Some exp t ge show ?thesis by (simp add: expiry_def Let_def)
  qed
qed

subsection \<open>Steps\<close>

text \<open>
  The step of a claim, by situation: a claim that is being deleted or has expired only releases,
  and releases exactly the member it holds; a claim that holds a member never binds another one, and
  fails if that member is gone; only an unbound, live claim binds, and only the candidate it was given.
\<close>

theorem next_step_cases:
  "case next_step i candidate of
     Release m d \<Rightarrow> (ci_deleting i \<or> ci_expired i) \<and> m = map_option bm_name (ci_bound i) \<and> d = ci_deleting i
   | Hold m \<Rightarrow> \<not> ci_deleting i \<and> \<not> ci_expired i \<and> ci_bound i = Some \<lparr>bm_name = m, bm_exists = True\<rparr>
   | Fail m \<Rightarrow> \<not> ci_deleting i \<and> \<not> ci_expired i \<and> ci_bound i = Some \<lparr>bm_name = m, bm_exists = False\<rparr>
   | Bind m \<Rightarrow> \<not> ci_deleting i \<and> \<not> ci_expired i \<and> ci_bound i = None \<and> candidate = Some m
   | Wait \<Rightarrow> \<not> ci_deleting i \<and> \<not> ci_expired i \<and> ci_bound i = None \<and> candidate = None"
  by (auto simp: next_step_def split: option.splits if_splits)

lemma member_bound_to_Some:
  "member_bound_to members claim = Some n \<Longrightarrow> (n, Some claim) \<in> set members"
  by (auto simp: member_bound_to_def find_Some_iff in_set_conv_nth)

lemma member_bound_to_None:
  "member_bound_to members claim = None \<longleftrightarrow> (\<forall>(n, l) \<in> set members. l \<noteq> Some claim)"
  by (auto simp: member_bound_to_def find_None_iff)

subsection \<open>Concrete instances\<close>

text \<open>Timestamps as nanoseconds, with the range \<^verbatim>\<open>jiff\<close> documents.\<close>

definition demo_jiff :: jiff where
  "demo_jiff = \<lparr>jf_as_second = (\<lambda>t. t div 1000000000),
     jf_from_second = (\<lambda>s. if -377705023201 \<le> s \<and> s \<le> 253402207200 then Some (s * 1000000000) else None),
     jf_max = 253402207200999999999\<rparr>"

definition demo_jiff_min :: timestamp where
  "demo_jiff_min = -377705023201000000000"

lemma demo_jiff_laws: "jiff_laws demo_jiff demo_jiff_min"
  unfolding jiff_laws_def
  by (auto simp: demo_jiff_def demo_jiff_min_def i64_max_def zdiv_mono1 split: if_splits)

theorem expiry_not_before_bind_witness:
  "jf_as_second demo_jiff (snd (expiry demo_jiff 1700000000500000000 3600)) = 1700003600"
  using expiry_not_before_bind [OF demo_jiff_laws, of 1700000000500000000 3600]
  by (simp add: demo_jiff_def demo_jiff_min_def)

theorem pick_member_best_witness:
  "\<exists>m \<in> set demo_members. mv_name m = ''a'' \<and> mv_phase m = Ready"
proof -
  have "pick_member demo_members ''r1'' = Some ''a''"
    by code_simp
  from pick_member_best [OF this] show ?thesis by blast
qed

theorem pick_member_order_independent_witness:
  "pick_member demo_members ''r1'' = pick_member (rev demo_members) ''r1''"
  by (rule pick_member_order_independent) simp

end
