(* ===== verification/Xdr.thy ===== *)
theory Xdr
  imports Banlieue_Prelude
begin

section \<open>The XDR codec\<close>

text \<open>
  Model of \<^verbatim>\<open>crates/banlieue-libvirt/src/xdr.rs\<close>.  An encoder is the bytes written so far; a decoder
  is the buffer and the cursor, and every read returns its result together with the decoder it leaves,
  on errors too.  Integers are words, \<^verbatim>\<open>to_be_bytes\<close> and \<^verbatim>\<open>from_be_bytes\<close> are base 256 digits, and
  \<^verbatim>\<open>str::from_utf8\<close> is the validity table of the UTF-8 standard.  The lemmas: every read inverts its
  write at any place in a stream (locale \<open>xdr_codec\<close>), a read accepts nothing but an encoding, the cursor
  stays inside the buffer, and what is written is a multiple of four bytes.
\<close>

subsection \<open>Bytes of an integer\<close>

fun be_nat :: "nat \<Rightarrow> nat \<Rightarrow> u8 list" where
  "be_nat 0 n = []"
| "be_nat (Suc k) n = be_nat k (n div 256) @ [word_of_nat (n mod 256)]"

definition nat_be :: "u8 list \<Rightarrow> nat" where
  "nat_be bs = foldl (\<lambda>a b. a * 256 + unat b) 0 bs"

text \<open>The bytes of a string, and \<^verbatim>\<open>str::from_utf8\<close>.\<close>

definition as_bytes :: "string \<Rightarrow> u8 list" where
  "as_bytes s = map (\<lambda>c. word_of_nat (of_char c)) s"

definition of_bytes :: "u8 list \<Rightarrow> string" where
  "of_bytes bs = map (\<lambda>b. char_of (unat b)) bs"

definition cont_byte :: "u8 \<Rightarrow> bool" where
  "cont_byte b = (0x80 \<le> b \<and> b \<le> 0xBF)"

fun valid_utf8 :: "u8 list \<Rightarrow> bool" where
  "valid_utf8 [] = True"
| "valid_utf8 (a # bs) =
     (if a < 0x80 then valid_utf8 bs
      else if 0xC2 \<le> a \<and> a \<le> 0xDF
      then (case bs of b # r \<Rightarrow> cont_byte b \<and> valid_utf8 r | _ \<Rightarrow> False)
      else if 0xE0 \<le> a \<and> a \<le> 0xEF
      then (case bs of b # c # r \<Rightarrow>
                (if a = 0xE0 then 0xA0 \<le> b \<and> b \<le> 0xBF
                 else if a = 0xED then 0x80 \<le> b \<and> b \<le> 0x9F else cont_byte b)
                \<and> cont_byte c \<and> valid_utf8 r
            | _ \<Rightarrow> False)
      else if 0xF0 \<le> a \<and> a \<le> 0xF4
      then (case bs of b # c # d # r \<Rightarrow>
                (if a = 0xF0 then 0x90 \<le> b \<and> b \<le> 0xBF
                 else if a = 0xF4 then 0x80 \<le> b \<and> b \<le> 0x8F else cont_byte b)
                \<and> cont_byte c \<and> cont_byte d \<and> valid_utf8 r
            | _ \<Rightarrow> False)
      else False)"

definition from_utf8 :: "u8 list \<Rightarrow> string option" where
  "from_utf8 bs = (if valid_utf8 bs then Some (of_bytes bs) else None)"

subsection \<open>Encoder\<close>

type_synonym encoder = "u8 list"

datatype xdr_error = UnexpectedEof | NonZeroPadding | InvalidBool "32 word" | InvalidUtf8

definition padding_for :: "nat \<Rightarrow> nat" where
  "padding_for len = (4 - len mod 4) mod 4"

definition encoder_new :: encoder where
  "encoder_new = []"

definition write_u32 :: "32 word \<Rightarrow> encoder \<Rightarrow> encoder" where
  "write_u32 v buf = buf @ be_nat 4 (unat v)"

text \<open>An \<^verbatim>\<open>i32\<close> or \<^verbatim>\<open>i64\<close> is the word of its two's complement; its bytes are those of that word.\<close>

definition write_i32 :: "32 word \<Rightarrow> encoder \<Rightarrow> encoder" where
  "write_i32 v buf = buf @ be_nat 4 (unat v)"

definition write_u64 :: "64 word \<Rightarrow> encoder \<Rightarrow> encoder" where
  "write_u64 v buf = buf @ be_nat 8 (unat v)"

definition write_i64 :: "64 word \<Rightarrow> encoder \<Rightarrow> encoder" where
  "write_i64 v buf = buf @ be_nat 8 (unat v)"

definition write_bool :: "bool \<Rightarrow> encoder \<Rightarrow> encoder" where
  "write_bool v buf = write_u32 (if v then 1 else 0) buf"

definition pad_to_alignment :: "nat \<Rightarrow> encoder \<Rightarrow> encoder" where
  "pad_to_alignment written buf = buf @ replicate (padding_for written) 0"

definition write_opaque_fixed :: "u8 list \<Rightarrow> encoder \<Rightarrow> encoder" where
  "write_opaque_fixed bytes buf = pad_to_alignment (length bytes) (buf @ bytes)"

definition write_opaque_var :: "u8 list \<Rightarrow> encoder \<Rightarrow> encoder" where
  "write_opaque_var bytes buf = write_opaque_fixed bytes (write_u32 (word_of_nat (length bytes)) buf)"

definition write_string :: "string \<Rightarrow> encoder \<Rightarrow> encoder" where
  "write_string s buf = write_opaque_var (as_bytes s) buf"

subsection \<open>Decoder\<close>

record decoder =
  dec_buf :: "u8 list"
  dec_pos :: nat

definition decoder_new :: "u8 list \<Rightarrow> decoder" where
  "decoder_new buf = \<lparr>dec_buf = buf, dec_pos = 0\<rparr>"

definition remaining :: "decoder \<Rightarrow> nat" where
  "remaining d = length (dec_buf d) - dec_pos d"

definition decoder_is_empty :: "decoder \<Rightarrow> bool" where
  "decoder_is_empty d = (remaining d = 0)"

definition take_array :: "nat \<Rightarrow> decoder \<Rightarrow> (xdr_error, u8 list) result \<times> decoder" where
  "take_array n d =
     (if remaining d < n then (Inl UnexpectedEof, d)
      else (Inr (take n (drop (dec_pos d) (dec_buf d))), d\<lparr>dec_pos := dec_pos d + n\<rparr>))"

definition read_u32 :: "decoder \<Rightarrow> (xdr_error, 32 word) result \<times> decoder" where
  "read_u32 d = (case take_array 4 d of
     (Inl e, d') \<Rightarrow> (Inl e, d') | (Inr bs, d') \<Rightarrow> (Inr (word_of_nat (nat_be bs)), d'))"

definition read_i32 :: "decoder \<Rightarrow> (xdr_error, 32 word) result \<times> decoder" where
  "read_i32 d = (case take_array 4 d of
     (Inl e, d') \<Rightarrow> (Inl e, d') | (Inr bs, d') \<Rightarrow> (Inr (word_of_nat (nat_be bs)), d'))"

definition read_u64 :: "decoder \<Rightarrow> (xdr_error, 64 word) result \<times> decoder" where
  "read_u64 d = (case take_array 8 d of
     (Inl e, d') \<Rightarrow> (Inl e, d') | (Inr bs, d') \<Rightarrow> (Inr (word_of_nat (nat_be bs)), d'))"

definition read_i64 :: "decoder \<Rightarrow> (xdr_error, 64 word) result \<times> decoder" where
  "read_i64 d = (case take_array 8 d of
     (Inl e, d') \<Rightarrow> (Inl e, d') | (Inr bs, d') \<Rightarrow> (Inr (word_of_nat (nat_be bs)), d'))"

definition read_bool :: "decoder \<Rightarrow> (xdr_error, bool) result \<times> decoder" where
  "read_bool d = (case read_u32 d of
     (Inl e, d') \<Rightarrow> (Inl e, d')
   | (Inr v, d') \<Rightarrow> (if v = 0 then Inr False else if v = 1 then Inr True else Inl (InvalidBool v), d'))"

text \<open>The loop over the padding bytes: the number left to check, then the decoder.\<close>

fun skip_padding :: "nat \<Rightarrow> decoder \<Rightarrow> (xdr_error, unit) result \<times> decoder" where
  "skip_padding 0 d = (Inr (), d)"
| "skip_padding (Suc k) d =
     (if dec_buf d ! dec_pos d \<noteq> 0 then (Inl NonZeroPadding, d)
      else skip_padding k (d\<lparr>dec_pos := dec_pos d + 1\<rparr>))"

definition read_opaque_fixed :: "nat \<Rightarrow> decoder \<Rightarrow> (xdr_error, u8 list) result \<times> decoder" where
  "read_opaque_fixed len d =
     (if len + padding_for len > u64_max then (Inl UnexpectedEof, d)
      else if remaining d < len + padding_for len then (Inl UnexpectedEof, d)
      else case skip_padding (padding_for len) (d\<lparr>dec_pos := dec_pos d + len\<rparr>) of
          (Inl e, d') \<Rightarrow> (Inl e, d')
        | (Inr _, d') \<Rightarrow> (Inr (take len (drop (dec_pos d) (dec_buf d))), d'))"

definition read_opaque_var :: "decoder \<Rightarrow> (xdr_error, u8 list) result \<times> decoder" where
  "read_opaque_var d = (case read_u32 d of
     (Inl e, d') \<Rightarrow> (Inl e, d')
   | (Inr v, d') \<Rightarrow> if unat v > remaining d' then (Inl UnexpectedEof, d') else read_opaque_fixed (unat v) d')"

definition read_string :: "decoder \<Rightarrow> (xdr_error, string) result \<times> decoder" where
  "read_string d = (case read_opaque_var d of
     (Inl e, d') \<Rightarrow> (Inl e, d')
   | (Inr bs, d') \<Rightarrow> (case from_utf8 bs of Some s \<Rightarrow> Inr s | None \<Rightarrow> Inl InvalidUtf8, d'))"

text \<open>\<open>read_seq\<close> repeats a read: the loop every array decoder of the protocol runs.\<close>

fun read_seq :: "(decoder \<Rightarrow> ('e, 'a) result \<times> decoder) \<Rightarrow> nat \<Rightarrow> decoder \<Rightarrow> ('e, 'a list) result \<times> decoder" where
  "read_seq rd 0 d = (Inr [], d)"
| "read_seq rd (Suc n) d = (case rd d of
     (Inl e, d') \<Rightarrow> (Inl e, d')
   | (Inr x, d') \<Rightarrow> (case read_seq rd n d' of
        (Inl e, d'') \<Rightarrow> (Inl e, d'') | (Inr xs, d'') \<Rightarrow> (Inr (x # xs), d'')))"

subsection \<open>Digits and UTF-8\<close>

lemma length_be_nat [simp]: "length (be_nat k n) = k"
  by (induction k n rule: be_nat.induct) auto

lemma nat_be_append [simp]: "nat_be (xs @ [b]) = nat_be xs * 256 + unat b"
  by (simp add: nat_be_def)

lemma unat_byte [simp]: "unat (word_of_nat n :: u8) = n mod 256"
  by (simp add: unat_of_nat)

lemma nat_be_be_nat: "nat_be (be_nat k n) = n mod 256 ^ k"
proof (induction k n rule: be_nat.induct)
  case (2 k n)
  have "n mod 256 ^ Suc k = (n div 256 mod 256 ^ k) * 256 + n mod 256"
    by (metis add.commute mod_mult2_eq mult.commute power_Suc)
  with 2 show ?case by simp
qed (simp add: nat_be_def)

lemma nat_be_bound: "nat_be bs < 256 ^ length bs"
proof (induction bs rule: rev_induct)
  case (snoc b bs)
  have "unat b < 256"
    using unsigned_less [of b, where ?'a = nat] by simp
  with snoc show ?case by simp
qed (simp add: nat_be_def)

lemma be_nat_nat_be: "be_nat (length bs) (nat_be bs) = bs"
proof (induction bs rule: rev_induct)
  case (snoc b bs)
  have b: "unat b < 256"
    using unsigned_less [of b, where ?'a = nat] by simp
  have "(nat_be bs * 256 + unat b) div 256 = nat_be bs" "(nat_be bs * 256 + unat b) mod 256 = unat b"
    using b by simp_all
  with snoc show ?case by simp
qed (simp add: nat_be_def)

lemma of_bytes_as_bytes [simp]: "of_bytes (as_bytes s) = s"
proof -
  have c: "char_of (unat (word_of_nat (of_char c) :: u8)) = c" for c :: char
  proof -
    have "unat (word_of_nat (of_char c) :: u8) = of_char c"
      by (simp only: unat_byte of_char_mod_256)
    then show ?thesis by (simp only: char_of_char)
  qed
  show ?thesis
    unfolding of_bytes_def as_bytes_def map_map comp_def c by simp
qed

lemma as_bytes_of_bytes [simp]: "as_bytes (of_bytes bs) = bs"
proof -
  have b: "(word_of_nat (of_char (char_of (unat b) :: char)) :: u8) = b" for b :: u8
  proof -
    have "unat b mod 256 = unat b"
      using unsigned_less [of b, where ?'a = nat] by simp
    then show ?thesis by (simp only: of_char_of) simp
  qed
  show ?thesis
    unfolding of_bytes_def as_bytes_def map_map comp_def b by simp
qed

lemma padding_aligned: "4 dvd n + padding_for n"
proof -
  have "n mod 4 = 0 \<or> n mod 4 = 1 \<or> n mod 4 = 2 \<or> n mod 4 = 3"
    by linarith
  then have "(n mod 4 + (4 - n mod 4) mod 4) mod 4 = 0"
    by (elim disjE) simp_all
  then show ?thesis
    unfolding padding_for_def dvd_eq_mod_eq_0 by (simp only: mod_add_left_eq)
qed

lemma padding_small: "padding_for n < 4"
  by (simp add: padding_for_def)

subsection \<open>Reading at a place in a stream\<close>

text \<open>A decoder whose cursor stands between the bytes read and the bytes to come.\<close>

definition dec_at :: "u8 list \<Rightarrow> u8 list \<Rightarrow> decoder" where
  "dec_at pre rest = \<lparr>dec_buf = pre @ rest, dec_pos = length pre\<rparr>"

definition dec_wf :: "decoder \<Rightarrow> bool" where
  "dec_wf d = (dec_pos d \<le> length (dec_buf d))"

lemma remaining_at [simp]: "remaining (dec_at pre rest) = length rest"
  by (simp add: remaining_def dec_at_def)

lemma dec_wf_at: "dec_wf d \<longleftrightarrow> (\<exists>pre rest. d = dec_at pre rest)"
proof
  assume "dec_wf d"
  then have "d = dec_at (take (dec_pos d) (dec_buf d)) (drop (dec_pos d) (dec_buf d))"
    by (simp add: dec_wf_def dec_at_def)
  then show "\<exists>pre rest. d = dec_at pre rest" by blast
qed (auto simp: dec_wf_def dec_at_def)

lemma advance_at: "n \<le> length rest \<Longrightarrow>
    (dec_at pre rest)\<lparr>dec_pos := dec_pos (dec_at pre rest) + n\<rparr> = dec_at (pre @ take n rest) (drop n rest)"
  by (simp add: dec_at_def)

lemma take_array_at:
  "take_array n (dec_at pre rest) =
     (if length rest < n then (Inl UnexpectedEof, dec_at pre rest)
      else (Inr (take n rest), dec_at (pre @ take n rest) (drop n rest)))"
  by (simp add: take_array_def advance_at) (simp add: dec_at_def)

lemma skip_padding_at:
  "k \<le> length rest \<Longrightarrow> skip_padding k (dec_at pre rest) =
     (let zs = takeWhile (\<lambda>b. b = 0) (take k rest) in
      if length zs = k then (Inr (), dec_at (pre @ zs) (drop k rest))
      else (Inl NonZeroPadding, dec_at (pre @ zs) (drop (length zs) rest)))"
proof (induction k arbitrary: pre rest)
  case 0
  then show ?case by simp
next
  case (Suc k)
  then obtain b r where rest: "rest = b # r" and k: "k \<le> length r"
    by (cases rest) auto
  have hd: "dec_buf (dec_at pre rest) ! dec_pos (dec_at pre rest) = b"
    by (simp add: dec_at_def rest)
  have step: "(dec_at pre rest)\<lparr>dec_pos := dec_pos (dec_at pre rest) + 1\<rparr> = dec_at (pre @ [b]) r"
    by (simp add: dec_at_def rest)
  show ?case
  proof (cases "b = 0")
    case True
    with Suc.IH [OF k, of "pre @ [b]"] show ?thesis
      unfolding skip_padding.simps hd step by (simp add: rest Let_def)
  next
    case False
    then show ?thesis
      unfolding skip_padding.simps hd step by (simp add: rest)
  qed
qed

subsection \<open>Every read inverts its write\<close>

text \<open>
  The contract of a write/read pair, with \<open>ok\<close> the values the wire can carry: reading at an encoding
  gives the value back and stops right after it; a successful read has read an encoding of its result
  and nothing else; and an encoding is a whole number of four-byte units.
\<close>

locale xdr_codec =
  fixes enc :: "'a \<Rightarrow> u8 list"
    and rd :: "decoder \<Rightarrow> ('e, 'a) result \<times> decoder"
    and ok :: "'a \<Rightarrow> bool"
  assumes roundtrip: "ok x \<Longrightarrow> rd (dec_at pre (enc x @ post)) = (Inr x, dec_at (pre @ enc x) post)"
    and canonical: "rd (dec_at pre rest) = (Inr x, d) \<Longrightarrow> ok x \<and> (\<exists>post. rest = enc x @ post \<and> d = dec_at (pre @ enc x) post)"
    and aligned: "4 dvd length (enc x)"
begin

lemma seq_roundtrip:
  "list_all ok xs \<Longrightarrow> read_seq rd (length xs) (dec_at pre (concat (map enc xs) @ post)) =
     (Inr xs, dec_at (pre @ concat (map enc xs)) post)"
proof (induction xs arbitrary: pre)
  case (Cons x xs)
  then have "rd (dec_at pre (enc x @ concat (map enc xs) @ post)) = (Inr x, dec_at (pre @ enc x) (concat (map enc xs) @ post))"
    by (intro roundtrip) simp
  with Cons.IH [of "pre @ enc x"] Cons.prems show ?case by simp
qed simp

lemma seq_canonical:
  "read_seq rd n (dec_at pre rest) = (Inr xs, d) \<Longrightarrow>
     length xs = n \<and> list_all ok xs \<and> (\<exists>post. rest = concat (map enc xs) @ post \<and> d = dec_at (pre @ concat (map enc xs)) post)"
proof (induction n arbitrary: pre rest xs)
  case (Suc n)
  from Suc.prems obtain x ys d' where x: "rd (dec_at pre rest) = (Inr x, d')"
    and ys: "read_seq rd n d' = (Inr ys, d)" and xs: "xs = x # ys"
    by (auto split: prod.splits sum.splits)
  from canonical [OF x] obtain post where "ok x" and rest: "rest = enc x @ post" and d': "d' = dec_at (pre @ enc x) post"
    by blast
  from Suc.IH [OF ys [unfolded d']] \<open>ok x\<close> rest xs show ?case by auto
qed auto

lemma seq_aligned: "4 dvd length (concat (map enc xs))"
  by (induction xs) (simp_all add: aligned)

lemma whole_stream: "ok x \<Longrightarrow> rd (decoder_new (enc x)) = (Inr x, dec_at (enc x) [])"
  using roundtrip [of x "[]" "[]"] by (simp add: dec_at_def decoder_new_def)

lemma prefix_free:
  assumes "ok x" "ok y" "enc x @ r = enc y @ s"
  shows "x = y \<and> r = s"
  using roundtrip [OF assms(1), of "[]" r] roundtrip [OF assms(2), of "[]" s] assms(3)
  by (auto simp: dec_at_def)

end

lemma read_int_at:
  "read_u32 (dec_at pre rest) =
     (if length rest < 4 then (Inl UnexpectedEof, dec_at pre rest)
      else (Inr (word_of_nat (nat_be (take 4 rest))), dec_at (pre @ take 4 rest) (drop 4 rest)))"
  "read_i32 (dec_at pre rest) =
     (if length rest < 4 then (Inl UnexpectedEof, dec_at pre rest)
      else (Inr (word_of_nat (nat_be (take 4 rest))), dec_at (pre @ take 4 rest) (drop 4 rest)))"
  "read_u64 (dec_at pre rest) =
     (if length rest < 8 then (Inl UnexpectedEof, dec_at pre rest)
      else (Inr (word_of_nat (nat_be (take 8 rest))), dec_at (pre @ take 8 rest) (drop 8 rest)))"
  "read_i64 (dec_at pre rest) =
     (if length rest < 8 then (Inl UnexpectedEof, dec_at pre rest)
      else (Inr (word_of_nat (nat_be (take 8 rest))), dec_at (pre @ take 8 rest) (drop 8 rest)))"
  by (simp_all add: read_u32_def read_i32_def read_u64_def read_i64_def take_array_at)

lemma word32_roundtrip: "word_of_nat (nat_be (be_nat 4 (unat (v :: 32 word)))) = v"
proof -
  have "unat v mod 256 ^ 4 = unat v"
    using unsigned_less [of v, where ?'a = nat] by simp
  then show ?thesis by (simp only: nat_be_be_nat) simp
qed

lemma word64_roundtrip: "word_of_nat (nat_be (be_nat 8 (unat (v :: 64 word)))) = v"
proof -
  have "unat v mod 256 ^ 8 = unat v"
    using unsigned_less [of v, where ?'a = nat] by simp
  then show ?thesis by (simp only: nat_be_be_nat) simp
qed

lemma bytes32: "length bs = 4 \<Longrightarrow> be_nat 4 (unat (word_of_nat (nat_be bs) :: 32 word)) = bs"
  using nat_be_bound [of bs] be_nat_nat_be [of bs] by (simp add: unat_of_nat)

lemma bytes64: "length bs = 8 \<Longrightarrow> be_nat 8 (unat (word_of_nat (nat_be bs) :: 64 word)) = bs"
  using nat_be_bound [of bs] be_nat_nat_be [of bs] by (simp add: unat_of_nat)

lemma split_at_prefix: "n \<le> length rest \<Longrightarrow> take n rest = e \<Longrightarrow> rest = e @ drop n rest"
  by (metis append_take_drop_id)

interpretation xdr_u32: xdr_codec "\<lambda>v. write_u32 v []" read_u32 "\<lambda>_. True"
proof unfold_locales
  show "read_u32 (dec_at pre rest) = (Inr x, d) \<Longrightarrow> True \<and> (\<exists>post. rest = write_u32 x [] @ post \<and> d = dec_at (pre @ write_u32 x []) post)"
    for pre rest x d
    by (auto simp: read_int_at write_u32_def bytes32 split: if_splits intro!: exI [of _ "drop 4 rest"])
qed (simp_all add: read_int_at write_u32_def word32_roundtrip)

interpretation xdr_i32: xdr_codec "\<lambda>v. write_i32 v []" read_i32 "\<lambda>_. True"
proof unfold_locales
  show "read_i32 (dec_at pre rest) = (Inr x, d) \<Longrightarrow> True \<and> (\<exists>post. rest = write_i32 x [] @ post \<and> d = dec_at (pre @ write_i32 x []) post)"
    for pre rest x d
    by (auto simp: read_int_at write_i32_def bytes32 split: if_splits intro!: exI [of _ "drop 4 rest"])
qed (simp_all add: read_int_at write_i32_def word32_roundtrip)

interpretation xdr_u64: xdr_codec "\<lambda>v. write_u64 v []" read_u64 "\<lambda>_. True"
proof unfold_locales
  show "read_u64 (dec_at pre rest) = (Inr x, d) \<Longrightarrow> True \<and> (\<exists>post. rest = write_u64 x [] @ post \<and> d = dec_at (pre @ write_u64 x []) post)"
    for pre rest x d
    by (auto simp: read_int_at write_u64_def bytes64 split: if_splits intro!: exI [of _ "drop 8 rest"])
qed (simp_all add: read_int_at write_u64_def word64_roundtrip)

interpretation xdr_i64: xdr_codec "\<lambda>v. write_i64 v []" read_i64 "\<lambda>_. True"
proof unfold_locales
  show "read_i64 (dec_at pre rest) = (Inr x, d) \<Longrightarrow> True \<and> (\<exists>post. rest = write_i64 x [] @ post \<and> d = dec_at (pre @ write_i64 x []) post)"
    for pre rest x d
    by (auto simp: read_int_at write_i64_def bytes64 split: if_splits intro!: exI [of _ "drop 8 rest"])
qed (simp_all add: read_int_at write_i64_def word64_roundtrip)

interpretation xdr_bool: xdr_codec "\<lambda>v. write_bool v []" read_bool "\<lambda>_. True"
proof unfold_locales
  show "read_bool (dec_at pre (write_bool x [] @ post)) = (Inr x, dec_at (pre @ write_bool x []) post)" for pre x post
    using xdr_u32.roundtrip [where x = "if x then 1 else 0" and pre = pre and post = post]
    by (simp add: read_bool_def write_bool_def)
  show "True \<and> (\<exists>post. rest = write_bool x [] @ post \<and> d = dec_at (pre @ write_bool x []) post)"
    if "read_bool (dec_at pre rest) = (Inr x, d)" for pre rest x d
  proof -
    from that obtain v where "read_u32 (dec_at pre rest) = (Inr v, d)" and "v = (if x then 1 else 0)"
      by (auto simp: read_bool_def split: prod.splits sum.splits if_splits)
    with xdr_u32.canonical [where pre = pre and rest = rest and x = v and d = d] show ?thesis
      by (simp add: write_bool_def)
  qed
qed (simp add: write_bool_def xdr_u32.aligned)

text \<open>Opaque data: the bytes, then zeros up to the next multiple of four.\<close>

lemma takeWhile_zeros:
  "length (takeWhile (\<lambda>b. b = 0) zs) = length zs \<Longrightarrow>
     takeWhile (\<lambda>b. b = 0) zs = replicate (length zs) (0 :: u8) \<and> zs = replicate (length zs) 0"
  by (induction zs) (auto split: if_splits)

lemma read_opaque_fixed_enc:
  assumes "length bs + padding_for (length bs) \<le> u64_max"
  shows "read_opaque_fixed (length bs) (dec_at pre (write_opaque_fixed bs [] @ post)) =
    (Inr bs, dec_at (pre @ write_opaque_fixed bs []) post)"
proof -
  let ?p = "padding_for (length bs)"
  have step: "(dec_at pre (bs @ replicate ?p 0 @ post))\<lparr>dec_pos := dec_pos (dec_at pre (bs @ replicate ?p 0 @ post)) + length bs\<rparr>
      = dec_at (pre @ bs) (replicate ?p 0 @ post)"
    by (simp add: dec_at_def)
  have "takeWhile (\<lambda>b. b = 0) (replicate ?p (0 :: u8)) = replicate ?p 0"
    by (simp add: takeWhile_replicate)
  then have "skip_padding ?p (dec_at (pre @ bs) (replicate ?p 0 @ post)) = (Inr (), dec_at (pre @ bs @ replicate ?p 0) post)"
    using skip_padding_at [of ?p "replicate ?p 0 @ post" "pre @ bs"] by (simp add: Let_def)
  moreover have "take (length bs) (drop (dec_pos (dec_at pre (bs @ replicate ?p 0 @ post))) (dec_buf (dec_at pre (bs @ replicate ?p 0 @ post)))) = bs"
    by (simp add: dec_at_def)
  ultimately show ?thesis
    using assms by (simp add: read_opaque_fixed_def write_opaque_fixed_def pad_to_alignment_def step)
qed

lemma read_opaque_fixed_canonical:
  assumes "read_opaque_fixed len (dec_at pre rest) = (Inr bs, d)"
  shows "length bs = len \<and> (\<exists>post. rest = write_opaque_fixed bs [] @ post \<and> d = dec_at (pre @ write_opaque_fixed bs []) post)"
proof -
  let ?p = "padding_for len"
  let ?r = "drop len rest"
  let ?z = "takeWhile (\<lambda>b. b = 0) (take ?p ?r)"
  have long: "len + ?p \<le> length rest"
    using assms by (auto simp: read_opaque_fixed_def split: if_splits)
  have step: "(dec_at pre rest)\<lparr>dec_pos := dec_pos (dec_at pre rest) + len\<rparr> = dec_at (pre @ take len rest) ?r"
    using long by (simp add: advance_at)
  have here: "take len (drop (dec_pos (dec_at pre rest)) (dec_buf (dec_at pre rest))) = take len rest"
    by (simp add: dec_at_def)
  from assms have sk: "skip_padding ?p (dec_at (pre @ take len rest) ?r) = (Inr (), d)" and bs: "bs = take len rest"
    unfolding read_opaque_fixed_def step here by (auto split: if_splits prod.splits sum.splits)
  have "length ?z = ?p" and d: "d = dec_at (pre @ take len rest @ ?z) (drop (len + ?p) rest)"
    using sk skip_padding_at [of ?p ?r "pre @ take len rest"] long
    by (auto simp: Let_def add.commute split: if_splits)
  then have z: "?z = replicate ?p 0" "take ?p ?r = replicate ?p 0"
    using takeWhile_zeros [of "take ?p ?r"] long by simp_all
  have enc: "write_opaque_fixed bs [] = take len rest @ replicate ?p 0"
  proof -
    have "length (take len rest) = len"
      using long by simp
    then show ?thesis
      by (simp only: bs write_opaque_fixed_def pad_to_alignment_def append_Nil)
  qed
  have "rest = take len rest @ take ?p ?r @ drop ?p ?r"
    by (metis append_take_drop_id)
  moreover have "drop ?p ?r = drop (len + ?p) rest"
    by (simp add: add.commute)
  ultimately have "rest = write_opaque_fixed bs [] @ drop (len + ?p) rest"
    unfolding enc z(2) by simp
  moreover have "d = dec_at (pre @ write_opaque_fixed bs []) (drop (len + ?p) rest)"
    unfolding enc d z(1) by simp
  moreover have "length bs = len"
    using long bs by simp
  ultimately show ?thesis by blast
qed

interpretation xdr_opaque: xdr_codec "\<lambda>bs. write_opaque_var bs []" read_opaque_var "\<lambda>bs. length bs \<le> u32_max"
proof unfold_locales
  fix pre post rest :: "u8 list" and x :: "u8 list" and d
  have enc: "write_opaque_var x [] = write_u32 (word_of_nat (length x)) [] @ write_opaque_fixed x []"
    by (simp add: write_opaque_var_def write_opaque_fixed_def pad_to_alignment_def)
  show "4 dvd length (write_opaque_var x [])"
    using xdr_u32.aligned [of "word_of_nat (length x)"] padding_aligned [of "length x"]
    by (simp add: enc write_opaque_fixed_def pad_to_alignment_def add.assoc)
  show "read_opaque_var (dec_at pre (write_opaque_var x [] @ post)) = (Inr x, dec_at (pre @ write_opaque_var x []) post)"
    if "length x \<le> u32_max"
  proof -
    have len: "unat (word_of_nat (length x) :: 32 word) = length x"
      using that by (simp add: unat_of_nat u32_max_def)
    have "length x + padding_for (length x) \<le> u64_max"
      using that padding_small [of "length x"] by (simp add: u32_max_def u64_max_def)
    from read_opaque_fixed_enc [OF this, of "pre @ write_u32 (word_of_nat (length x)) []" post] show ?thesis
      using xdr_u32.roundtrip [where x = "word_of_nat (length x)" and pre = pre and post = "write_opaque_fixed x [] @ post"]
      by (simp add: read_opaque_var_def enc len) (simp add: write_opaque_fixed_def pad_to_alignment_def)
  qed
  show "length x \<le> u32_max \<and> (\<exists>post. rest = write_opaque_var x [] @ post \<and> d = dec_at (pre @ write_opaque_var x []) post)"
    if "read_opaque_var (dec_at pre rest) = (Inr x, d)"
  proof -
    from that obtain v d' where v: "read_u32 (dec_at pre rest) = (Inr v, d')" and x: "read_opaque_fixed (unat v) d' = (Inr x, d)"
      by (auto simp: read_opaque_var_def split: prod.splits sum.splits if_splits)
    from xdr_u32.canonical [OF v] obtain q where q: "rest = write_u32 v [] @ q" "d' = dec_at (pre @ write_u32 v []) q"
      by blast
    from read_opaque_fixed_canonical [OF x [unfolded q(2)]] obtain p where p: "length x = unat v"
        "q = write_opaque_fixed x [] @ p" "d = dec_at ((pre @ write_u32 v []) @ write_opaque_fixed x []) p"
      by blast
    have "word_of_nat (length x) = v" "length x \<le> u32_max"
      using p(1) unat32_less [of v] by (simp_all add: u32_max_def)
    with p q show ?thesis by (simp add: enc)
  qed
qed

interpretation xdr_string: xdr_codec "\<lambda>s. write_string s []" read_string "\<lambda>s. length s \<le> u32_max \<and> valid_utf8 (as_bytes s)"
proof unfold_locales
  fix pre post rest :: "u8 list" and x :: string and d
  have len: "length (as_bytes x) = length x"
    by (simp add: as_bytes_def)
  show "4 dvd length (write_string x [])"
    by (simp add: write_string_def xdr_opaque.aligned)
  show "read_string (dec_at pre (write_string x [] @ post)) = (Inr x, dec_at (pre @ write_string x []) post)"
    if "length x \<le> u32_max \<and> valid_utf8 (as_bytes x)"
    using that xdr_opaque.roundtrip [of "as_bytes x" pre post]
    by (simp add: read_string_def write_string_def from_utf8_def len)
  show "(length x \<le> u32_max \<and> valid_utf8 (as_bytes x)) \<and> (\<exists>post. rest = write_string x [] @ post \<and> d = dec_at (pre @ write_string x []) post)"
    if "read_string (dec_at pre rest) = (Inr x, d)"
  proof -
    from that obtain bs where bs: "read_opaque_var (dec_at pre rest) = (Inr bs, d)" and x: "valid_utf8 bs" "x = of_bytes bs"
      by (auto simp: read_string_def from_utf8_def split: prod.splits sum.splits option.splits if_splits)
    have "as_bytes x = bs"
      using x(2) by simp
    with xdr_opaque.canonical [OF bs] x(1) show ?thesis
      by (simp add: write_string_def flip: len)
  qed
qed

subsection \<open>The cursor stays in the buffer\<close>

definition dec_adv :: "decoder \<Rightarrow> decoder \<Rightarrow> bool" where
  "dec_adv d d' = (dec_buf d' = dec_buf d \<and> dec_pos d \<le> dec_pos d' \<and> dec_wf d')"

lemma dec_adv_trans: "dec_adv d d' \<Longrightarrow> dec_adv d' d'' \<Longrightarrow> dec_adv d d''"
  by (auto simp: dec_adv_def)

lemma take_array_adv: "dec_wf d \<Longrightarrow> dec_adv d (snd (take_array n d))"
  by (auto simp: take_array_def dec_adv_def dec_wf_def remaining_def)

lemma read_int_adv:
  assumes "dec_wf d"
  shows "dec_adv d (snd (read_u32 d))" "dec_adv d (snd (read_i32 d))"
    "dec_adv d (snd (read_u64 d))" "dec_adv d (snd (read_i64 d))"
  using take_array_adv [OF assms, of 4] take_array_adv [OF assms, of 8]
  by (auto simp: read_u32_def read_i32_def read_u64_def read_i64_def split: prod.splits sum.splits)

lemma read_bool_adv: "dec_wf d \<Longrightarrow> dec_adv d (snd (read_bool d))"
  using read_int_adv(1) [of d] by (auto simp: read_bool_def split: prod.splits sum.splits)

lemma skip_padding_adv: "dec_pos d + k \<le> length (dec_buf d) \<Longrightarrow> dec_adv d (snd (skip_padding k d))"
proof (induction k arbitrary: d)
  case (Suc k)
  have "dec_adv d (d\<lparr>dec_pos := dec_pos d + 1\<rparr>)"
    using Suc.prems by (simp add: dec_adv_def dec_wf_def)
  moreover have "dec_adv (d\<lparr>dec_pos := dec_pos d + 1\<rparr>) (snd (skip_padding k (d\<lparr>dec_pos := dec_pos d + 1\<rparr>)))"
    by (rule Suc.IH) (use Suc.prems in simp)
  moreover have "dec_adv d d"
    using Suc.prems by (simp add: dec_adv_def dec_wf_def)
  ultimately show ?case by (auto intro: dec_adv_trans)
qed (simp add: dec_adv_def dec_wf_def)

lemma read_opaque_fixed_adv:
  assumes "dec_wf d"
  shows "dec_adv d (snd (read_opaque_fixed len d))"
proof (cases "len + padding_for len > u64_max \<or> remaining d < len + padding_for len")
  case True
  with assms show ?thesis by (auto simp: read_opaque_fixed_def dec_adv_def)
next
  case False
  let ?d = "d\<lparr>dec_pos := dec_pos d + len\<rparr>"
  have room: "dec_pos d + len + padding_for len \<le> length (dec_buf d)"
  proof -
    have "len + padding_for len \<le> length (dec_buf d) - dec_pos d"
      using False by (simp add: remaining_def)
    then show ?thesis
      using assms unfolding dec_wf_def by linarith
  qed
  then have "dec_pos ?d + padding_for len \<le> length (dec_buf ?d)"
    by simp
  from skip_padding_adv [OF this] have "dec_adv ?d (snd (skip_padding (padding_for len) ?d))" .
  moreover have "dec_adv d ?d"
    using room by (simp add: dec_adv_def dec_wf_def)
  ultimately have "dec_adv d (snd (skip_padding (padding_for len) ?d))"
    by (rule dec_adv_trans [rotated])
  with False show ?thesis
    by (auto simp: read_opaque_fixed_def split: prod.splits sum.splits)
qed

lemma read_opaque_var_adv:
  assumes "dec_wf d"
  shows "dec_adv d (snd (read_opaque_var d))"
proof -
  obtain r d' where rd: "read_u32 d = (r, d')" by fastforce
  with read_int_adv(1) [OF assms] have d': "dec_adv d d'" by simp
  then have "dec_wf d'" by (simp add: dec_adv_def)
  with dec_adv_trans [OF d' read_opaque_fixed_adv] d' show ?thesis
    by (simp add: read_opaque_var_def rd split: sum.splits)
qed

lemma read_string_adv: "dec_wf d \<Longrightarrow> dec_adv d (snd (read_string d))"
  using read_opaque_var_adv [of d] by (auto simp: read_string_def split: prod.splits sum.splits)

subsection \<open>Properties of the codec\<close>

text \<open>
  Round trip: whatever was written before and whatever follows, each read returns the value its
  write put at the cursor and leaves the cursor right after it.  Opaque data and strings need a length
  the 32-bit prefix can carry, and a string is valid UTF-8, as every Rust string is.
\<close>

theorem xdr_roundtrips:
  assumes "length bs \<le> u32_max" and "length s \<le> u32_max" and "valid_utf8 (as_bytes s)"
  shows "read_u32 (dec_at pre (write_u32 a [] @ post)) = (Inr a, dec_at (pre @ write_u32 a []) post)
    \<and> read_i32 (dec_at pre (write_i32 a [] @ post)) = (Inr a, dec_at (pre @ write_i32 a []) post)
    \<and> read_u64 (dec_at pre (write_u64 b [] @ post)) = (Inr b, dec_at (pre @ write_u64 b []) post)
    \<and> read_i64 (dec_at pre (write_i64 b [] @ post)) = (Inr b, dec_at (pre @ write_i64 b []) post)
    \<and> read_bool (dec_at pre (write_bool t [] @ post)) = (Inr t, dec_at (pre @ write_bool t []) post)
    \<and> read_opaque_var (dec_at pre (write_opaque_var bs [] @ post)) = (Inr bs, dec_at (pre @ write_opaque_var bs []) post)
    \<and> read_string (dec_at pre (write_string s [] @ post)) = (Inr s, dec_at (pre @ write_string s []) post)"
  using xdr_opaque.roundtrip [OF assms(1)] xdr_string.roundtrip [OF conjI [OF assms(2,3)]]
  by (simp add: xdr_u32.roundtrip xdr_i32.roundtrip xdr_u64.roundtrip xdr_i64.roundtrip xdr_bool.roundtrip)

text \<open>
  The decoder accepts only encodings: if a string is read, the bytes consumed are exactly what
  writing that string produces (length, bytes, zero padding), and the string is valid UTF-8.
\<close>

theorem read_string_canonical:
  assumes "read_string (dec_at pre rest) = (Inr s, d)"
  shows "valid_utf8 (as_bytes s) \<and> (\<exists>post. rest = write_string s [] @ post \<and> d = dec_at (pre @ write_string s []) post)"
  using xdr_string.canonical [OF assms] by blast

text \<open>
  No input moves the cursor out of the buffer or backwards: after any read, successful or not, the
  buffer is the same and the cursor is between where it was and the end.
\<close>

theorem reads_stay_in_buffer:
  assumes "dec_wf d"
  shows "dec_adv d (snd (read_u32 d)) \<and> dec_adv d (snd (read_u64 d)) \<and> dec_adv d (snd (read_bool d))
    \<and> dec_adv d (snd (read_opaque_fixed len d)) \<and> dec_adv d (snd (read_opaque_var d)) \<and> dec_adv d (snd (read_string d))"
  by (simp add: read_int_adv read_bool_adv read_opaque_fixed_adv read_opaque_var_adv read_string_adv assms)

text \<open>
  A length prefix is never trusted: if it announces more bytes than the buffer holds after it, the
  read fails without consuming anything but the prefix.
\<close>

theorem hostile_length_rejected:
  assumes "length rest < unat v"
  shows "read_opaque_var (dec_at pre (write_u32 v [] @ rest)) = (Inl UnexpectedEof, dec_at (pre @ write_u32 v []) rest)"
  using assms xdr_u32.roundtrip [where x = v and pre = pre and post = rest]
  by (simp add: read_opaque_var_def)

theorem xdr_roundtrips_witness:
  "read_string (dec_at [7] (write_string ''vm'' [] @ [9])) = (Inr ''vm'', dec_at ([7] @ write_string ''vm'' []) [9])"
proof -
  have "length ([] :: u8 list) \<le> u32_max" "length ''vm'' \<le> u32_max" "valid_utf8 (as_bytes ''vm'')"
    by (simp_all add: u32_max_def) code_simp
  from xdr_roundtrips [OF this] show ?thesis by blast
qed

theorem read_string_canonical_witness:
  "valid_utf8 (as_bytes ''vm'')
    \<and> (\<exists>post. [0, 0, 0, 2, 118, 109, 0, 0, 5] = write_string ''vm'' [] @ post
         \<and> dec_at [0, 0, 0, 2, 118, 109, 0, 0] [5] = dec_at ([] @ write_string ''vm'' []) post)"
proof -
  have "read_string (dec_at [] [0, 0, 0, 2, 118, 109, 0, 0, 5]) =
      (Inr ''vm'', dec_at [0, 0, 0, 2, 118, 109, 0, 0] [5])"
    by code_simp
  from read_string_canonical [OF this] show ?thesis .
qed

theorem reads_stay_in_buffer_witness:
  "dec_adv (decoder_new [0, 0, 0, 1, 65]) (snd (read_string (decoder_new [0, 0, 0, 1, 65])))"
  using reads_stay_in_buffer [of "decoder_new [0, 0, 0, 1, 65]" 0] by (simp add: dec_wf_def decoder_new_def)

theorem hostile_length_rejected_witness:
  "read_opaque_var (dec_at [] (write_u32 0xFFFFFFFF [] @ [1, 2, 3])) =
     (Inl UnexpectedEof, dec_at ([] @ write_u32 0xFFFFFFFF []) [1, 2, 3])"
  by (rule hostile_length_rejected) simp

end
