(* ===== verification/Rpc.thy ===== *)
theory Rpc
  imports Xdr
begin

section \<open>libvirt RPC framing\<close>

text \<open>
  Model of \<^verbatim>\<open>crates/banlieue-libvirt/src/rpc.rs\<close>: the message header and the framing around it.  The
  lemmas show that a framed message decodes to itself and that a decoded message was framed, that no
  prefix makes the decoder accept a length outside libvirtd's bounds, and the exact payload sizes that
  can be framed.
\<close>

subsection \<open>Definitions\<close>

definition REMOTE_PROGRAM :: "32 word" where "REMOTE_PROGRAM = 0x20008086"
definition QEMU_PROGRAM :: "32 word" where "QEMU_PROGRAM = 0x20008087"
definition QEMU_PROTOCOL_VERSION :: "32 word" where "QEMU_PROTOCOL_VERSION = 1"
definition REMOTE_PROTOCOL_VERSION :: "32 word" where "REMOTE_PROTOCOL_VERSION = 1"
definition MESSAGE_HEADER_LEN :: nat where "MESSAGE_HEADER_LEN = 24"
definition MESSAGE_LEN_PREFIX_LEN :: nat where "MESSAGE_LEN_PREFIX_LEN = 4"
definition MESSAGE_MAX :: nat where "MESSAGE_MAX = 33554432"
definition PAYLOAD_MAX :: nat where "PAYLOAD_MAX = MESSAGE_MAX - MESSAGE_HEADER_LEN"
definition STREAM_CHUNK_MAX :: nat where "STREAM_CHUNK_MAX = 262120"
definition MESSAGE_MIN :: nat where "MESSAGE_MIN = MESSAGE_LEN_PREFIX_LEN + MESSAGE_HEADER_LEN"

lemmas rpc_sizes [simp] = MESSAGE_HEADER_LEN_def MESSAGE_LEN_PREFIX_LEN_def MESSAGE_MAX_def PAYLOAD_MAX_def
  MESSAGE_MIN_def STREAM_CHUNK_MAX_def

datatype rpc_error =
    RpcXdr xdr_error
  | InvalidLength "32 word"
  | Truncated nat nat
  | InvalidMessageType "32 word"
  | InvalidMessageStatus "32 word"

datatype message_type = Call | Reply | Message | Stream | CallWithFds | ReplyWithFds | StreamHole

datatype message_status = StatusOk | StatusError | StatusContinue

fun message_type_wire :: "message_type \<Rightarrow> 32 word" where
  "message_type_wire Call = 0"
| "message_type_wire Reply = 1"
| "message_type_wire Message = 2"
| "message_type_wire Stream = 3"
| "message_type_wire CallWithFds = 4"
| "message_type_wire ReplyWithFds = 5"
| "message_type_wire StreamHole = 6"

definition message_type_from_wire :: "32 word \<Rightarrow> (rpc_error, message_type) result" where
  "message_type_from_wire v =
     (if v = 0 then Inr Call else if v = 1 then Inr Reply else if v = 2 then Inr Message
      else if v = 3 then Inr Stream else if v = 4 then Inr CallWithFds else if v = 5 then Inr ReplyWithFds
      else if v = 6 then Inr StreamHole else Inl (InvalidMessageType v))"

fun message_status_wire :: "message_status \<Rightarrow> 32 word" where
  "message_status_wire StatusOk = 0"
| "message_status_wire StatusError = 1"
| "message_status_wire StatusContinue = 2"

definition message_status_from_wire :: "32 word \<Rightarrow> (rpc_error, message_status) result" where
  "message_status_from_wire v =
     (if v = 0 then Inr StatusOk else if v = 1 then Inr StatusError else if v = 2 then Inr StatusContinue
      else Inl (InvalidMessageStatus v))"

record message_header =
  mh_program :: "32 word"
  mh_version :: "32 word"
  mh_procedure :: "32 word"
  mh_message_type :: message_type
  mh_serial :: "32 word"
  mh_status :: message_status

definition header_encode :: "message_header \<Rightarrow> u8 list" where
  "header_encode h =
     write_i32 (message_status_wire (mh_status h))
       (write_u32 (mh_serial h)
         (write_i32 (message_type_wire (mh_message_type h))
           (write_i32 (mh_procedure h)
             (write_u32 (mh_version h)
               (write_u32 (mh_program h) encoder_new)))))"

text \<open>The \<^verbatim>\<open>?\<close> operator on a read: an XDR error is wrapped and returned, a value is passed on.\<close>

definition and_then ::
  "(xdr_error, 'a) result \<times> decoder \<Rightarrow> ('a \<Rightarrow> decoder \<Rightarrow> (rpc_error, 'b) result \<times> decoder)
     \<Rightarrow> (rpc_error, 'b) result \<times> decoder" where
  "and_then r k = (case r of (Inl e, d) \<Rightarrow> (Inl (RpcXdr e), d) | (Inr x, d) \<Rightarrow> k x d)"

definition header_decode :: "decoder \<Rightarrow> (rpc_error, message_header) result \<times> decoder" where
  "header_decode d =
     and_then (read_u32 d) (\<lambda>program d.
     and_then (read_u32 d) (\<lambda>version d.
     and_then (read_i32 d) (\<lambda>procedure d.
     and_then (read_i32 d) (\<lambda>ty d.
       case message_type_from_wire ty of Inl e \<Rightarrow> (Inl e, d) | Inr message_type \<Rightarrow>
     and_then (read_u32 d) (\<lambda>serial d.
     and_then (read_i32 d) (\<lambda>st d.
       case message_status_from_wire st of Inl e \<Rightarrow> (Inl e, d) | Inr status \<Rightarrow>
         (Inr \<lparr>mh_program = program, mh_version = version, mh_procedure = procedure,
            mh_message_type = message_type, mh_serial = serial, mh_status = status\<rparr>, d)))))))"

definition parse_length_prefix :: "u8 list \<Rightarrow> (rpc_error, nat) result" where
  "parse_length_prefix bytes =
     (let len = word_of_nat (nat_be bytes) :: 32 word
      in if \<not> (MESSAGE_MIN \<le> unat len \<and> unat len \<le> MESSAGE_MAX) then Inl (InvalidLength len)
         else Inr (unat len))"

definition encode_message :: "message_header \<Rightarrow> u8 list \<Rightarrow> u8 list" where
  "encode_message header payload =
     be_nat 4 (unat (word_of_nat (MESSAGE_LEN_PREFIX_LEN + MESSAGE_HEADER_LEN + length payload) :: 32 word))
       @ header_encode header @ payload"

definition decode_message :: "u8 list \<Rightarrow> (rpc_error, message_header \<times> u8 list) result" where
  "decode_message buf =
     (if length buf < MESSAGE_LEN_PREFIX_LEN then Inl (Truncated MESSAGE_LEN_PREFIX_LEN (length buf))
      else case parse_length_prefix (take MESSAGE_LEN_PREFIX_LEN buf) of
          Inl e \<Rightarrow> Inl e
        | Inr tot \<Rightarrow>
            if length buf < tot then Inl (Truncated tot (length buf))
            else (case header_decode (decoder_new (drop MESSAGE_LEN_PREFIX_LEN (take tot buf))) of
                (Inl e, _) \<Rightarrow> Inl e
              | (Inr header, _) \<Rightarrow>
                  Inr (header, drop (MESSAGE_LEN_PREFIX_LEN + MESSAGE_HEADER_LEN) (take tot buf))))"

subsection \<open>The header is a codec\<close>

lemma message_type_roundtrip [simp]: "message_type_from_wire (message_type_wire t) = Inr t"
  by (cases t) (simp_all add: message_type_from_wire_def)

lemma message_type_from_wire_Inr: "message_type_from_wire v = Inr t \<Longrightarrow> v = message_type_wire t"
  by (auto simp: message_type_from_wire_def split: if_splits)

lemma message_status_roundtrip [simp]: "message_status_from_wire (message_status_wire s) = Inr s"
  by (cases s) (simp_all add: message_status_from_wire_def)

lemma message_status_from_wire_Inr: "message_status_from_wire v = Inr s \<Longrightarrow> v = message_status_wire s"
  by (auto simp: message_status_from_wire_def split: if_splits)

lemma header_encode_append:
  "header_encode h = write_u32 (mh_program h) [] @ write_u32 (mh_version h) [] @ write_i32 (mh_procedure h) []
     @ write_i32 (message_type_wire (mh_message_type h)) [] @ write_u32 (mh_serial h) []
     @ write_i32 (message_status_wire (mh_status h)) []"
  by (simp add: header_encode_def write_u32_def write_i32_def encoder_new_def)

lemma length_header_encode [simp]: "length (header_encode h) = 24"
  by (simp add: header_encode_append write_u32_def write_i32_def)

lemma and_then_Inr:
  assumes "and_then r k = (Inr y, d')"
  obtains x d where "r = (Inr x, d)" "k x d = (Inr y, d')"
  using assms by (auto simp: and_then_def split: prod.splits sum.splits)

lemma header_decode_Inr:
  assumes "header_decode (dec_at pre rest) = (Inr h, d)"
  shows "\<exists>post. rest = header_encode h @ post \<and> d = dec_at (pre @ header_encode h) post"
proof -
  from assms obtain p v pr ty t s st z d1 d2 d3 d4 d5 where
    reads: "read_u32 (dec_at pre rest) = (Inr p, d1)" "read_u32 d1 = (Inr v, d2)" "read_i32 d2 = (Inr pr, d3)"
      "read_i32 d3 = (Inr ty, d4)" "read_u32 d4 = (Inr s, d5)" "read_i32 d5 = (Inr st, d)"
    and ty: "message_type_from_wire ty = Inr t" and st: "message_status_from_wire st = Inr z"
    and h: "h = \<lparr>mh_program = p, mh_version = v, mh_procedure = pr, mh_message_type = t, mh_serial = s, mh_status = z\<rparr>"
    unfolding header_decode_def by (auto elim!: and_then_Inr split: sum.splits)
  from xdr_u32.canonical [OF reads(1)] obtain q1 where q1: "rest = write_u32 p [] @ q1" "d1 = dec_at (pre @ write_u32 p []) q1"
    by blast
  from xdr_u32.canonical [OF reads(2) [unfolded q1]] obtain q2
    where q2: "q1 = write_u32 v [] @ q2" "d2 = dec_at ((pre @ write_u32 p []) @ write_u32 v []) q2" by blast
  from xdr_i32.canonical [OF reads(3) [unfolded q2]] obtain q3
    where q3: "q2 = write_i32 pr [] @ q3" "d3 = dec_at (((pre @ write_u32 p []) @ write_u32 v []) @ write_i32 pr []) q3" by blast
  from xdr_i32.canonical [OF reads(4) [unfolded q3]] obtain q4 where q4: "q3 = write_i32 ty [] @ q4"
      "d4 = dec_at ((((pre @ write_u32 p []) @ write_u32 v []) @ write_i32 pr []) @ write_i32 ty []) q4" by blast
  from xdr_u32.canonical [OF reads(5) [unfolded q4]] obtain q5 where q5: "q4 = write_u32 s [] @ q5"
      "d5 = dec_at (((((pre @ write_u32 p []) @ write_u32 v []) @ write_i32 pr []) @ write_i32 ty []) @ write_u32 s []) q5" by blast
  from xdr_i32.canonical [OF reads(6) [unfolded q5]] obtain q6 where "q5 = write_i32 st [] @ q6"
      "d = dec_at ((((((pre @ write_u32 p []) @ write_u32 v []) @ write_i32 pr []) @ write_i32 ty []) @ write_u32 s []) @ write_i32 st []) q6" by blast
  with q1 q2 q3 q4 q5 message_type_from_wire_Inr [OF ty] message_status_from_wire_Inr [OF st] show ?thesis
    by (simp add: h header_encode_append)
qed

interpretation header: xdr_codec header_encode header_decode "\<lambda>_. True"
proof unfold_locales
  show "header_decode (dec_at pre (header_encode x @ post)) = (Inr x, dec_at (pre @ header_encode x) post)" for pre x post
    by (simp add: header_encode_append header_decode_def and_then_def xdr_u32.roundtrip xdr_i32.roundtrip)
qed (auto simp: header_decode_Inr)

subsection \<open>Messages\<close>

lemma parse_length_prefix_Inr:
  assumes "length bytes = 4" and "parse_length_prefix bytes = Inr n"
  shows "28 \<le> n \<and> n \<le> 33554432 \<and> bytes = be_nat 4 (unat (word_of_nat n :: 32 word))"
proof -
  have n: "n = unat (word_of_nat (nat_be bytes) :: 32 word)" "28 \<le> n" "n \<le> 33554432"
    using assms(2) by (auto simp: parse_length_prefix_def Let_def split: if_splits)
  moreover have "unat (word_of_nat n :: 32 word) = n"
    using n(3) by (simp add: unat_of_nat)
  ultimately show ?thesis
    using bytes32 [OF assms(1)] by simp
qed

lemma parse_length_prefix_be:
  assumes "n < 4294967296"
  shows "parse_length_prefix (be_nat 4 n) =
     (if 28 \<le> n \<and> n \<le> 33554432 then Inr n else Inl (InvalidLength (word_of_nat n)))"
proof -
  have "unat (word_of_nat n :: 32 word) = n"
    using assms by (simp add: unat_of_nat)
  moreover have "nat_be (be_nat 4 n) = n"
    using assms by (simp add: nat_be_be_nat)
  ultimately show ?thesis
    by (simp add: parse_length_prefix_def)
qed

lemma encode_message_eq:
  assumes "28 + length payload < 4294967296"
  shows "encode_message h payload = be_nat 4 (28 + length payload) @ header_encode h @ payload"
proof -
  have "unat (word_of_nat (28 + length payload) :: 32 word) = 28 + length payload"
    using assms by (simp only: unat_of_nat) simp
  then show ?thesis
    by (simp add: encode_message_def del: of_nat_add)
qed

text \<open>
  (C38) Framing round trip: a message whose payload fits decodes to its own header and payload, whatever
  bytes follow it in the buffer.
\<close>

theorem decode_encode_message:
  assumes "MESSAGE_MIN + length payload \<le> MESSAGE_MAX"
  shows "decode_message (encode_message h payload @ rest) = Inr (h, payload)"
proof -
  have small: "28 + length payload < 4294967296"
    using assms by simp
  have "header_decode (decoder_new (header_encode h @ payload)) = (Inr h, dec_at (header_encode h) payload)"
    using header.roundtrip [where x = h and pre = "[]" and post = payload] by (simp add: dec_at_def decoder_new_def)
  with assms parse_length_prefix_be [OF small] show ?thesis
    by (simp add: decode_message_def encode_message_eq [OF small])
qed

text \<open>
  (C39) The decoder accepts only framed messages: a decoded header and payload, framed again, give back
  the first bytes of the buffer, and the announced length was within libvirtd's bounds.
\<close>

theorem decode_message_canonical:
  assumes "decode_message buf = Inr (h, payload)"
  shows "(\<exists>rest. buf = encode_message h payload @ rest) \<and> MESSAGE_MIN + length payload \<le> MESSAGE_MAX"
proof -
  from assms obtain len d where len4: "4 \<le> length buf" and prefix: "parse_length_prefix (take 4 buf) = Inr len"
    and tot: "len \<le> length buf" and hd: "header_decode (decoder_new (drop 4 (take len buf))) = (Inr h, d)"
    and payload: "payload = drop 28 (take len buf)"
    by (auto simp: decode_message_def split: if_splits sum.splits prod.splits)
  from len4 have "length (take 4 buf) = 4" by simp
  note n = parse_length_prefix_Inr [OF this prefix]
  have "decoder_new (drop 4 (take len buf)) = dec_at [] (drop 4 (take len buf))"
    by (simp add: decoder_new_def dec_at_def)
  from header_decode_Inr [OF hd [unfolded this]] obtain post where post: "drop 4 (take len buf) = header_encode h @ post"
    by blast
  have "payload = drop 24 (drop 4 (take len buf))"
    by (simp add: payload)
  then have pl: "post = payload"
    by (simp add: post)
  have size: "len = 28 + length payload"
    using n tot by (simp add: payload)
  have "buf = take 4 (take len buf) @ drop 4 (take len buf) @ drop len buf"
    by (metis append_assoc append_take_drop_id)
  moreover have "take 4 (take len buf) = be_nat 4 (28 + length payload)"
    using n size by (simp add: min_def unat_of_nat del: of_nat_add)
  moreover have "28 + length payload < 4294967296"
    using n size by simp
  ultimately have "buf = encode_message h payload @ drop len buf"
    by (simp add: encode_message_eq post pl)
  with n size show ?thesis by auto
qed

text \<open>
  \<^verbatim>\<open>PAYLOAD_MAX\<close> overstates what fits: a payload of exactly that size frames to a message whose
  own length prefix the decoder rejects, because the prefix counts its own four bytes.
\<close>

theorem payload_max_not_decodable:
  assumes "length payload = PAYLOAD_MAX"
  shows "decode_message (encode_message h payload) = Inl (InvalidLength 33554436)"
proof -
  have small: "28 + length payload < 4294967296"
    using assms by simp
  from assms parse_length_prefix_be [OF small] show ?thesis
    by (simp add: decode_message_def encode_message_eq [OF small])
qed

definition demo_header :: message_header where
  "demo_header = \<lparr>mh_program = REMOTE_PROGRAM, mh_version = 1, mh_procedure = 66, mh_message_type = Call,
     mh_serial = 7, mh_status = StatusOk\<rparr>"

theorem decode_encode_message_witness:
  "decode_message (encode_message demo_header [1, 2, 3, 4] @ [9]) = Inr (demo_header, [1, 2, 3, 4])"
  by (rule decode_encode_message) simp

theorem decode_message_canonical_witness:
  "\<exists>rest. encode_message demo_header [1, 2] @ [5] = encode_message demo_header [1, 2] @ rest"
proof -
  have "decode_message (encode_message demo_header [1, 2] @ [5]) = Inr (demo_header, [1, 2])"
    by code_simp
  from decode_message_canonical [OF this] show ?thesis by blast
qed

theorem payload_max_not_decodable_witness:
  "decode_message (encode_message demo_header (replicate PAYLOAD_MAX 0)) = Inl (InvalidLength 33554436)"
  by (rule payload_max_not_decodable) simp

end
