(* ===== verification/Image_Types.thy ===== *)
theory Image_Types
  imports Api_Types
begin

section \<open>The VMImage type\<close>

text \<open>
  Model of \<^verbatim>\<open>crates/banlieue-api/src/banlieue/vmimage.rs\<close>.  A constructor whose name another enum of
  the API already uses carries the enum's name.  The lemmas are the round trips of the enums that are
  parsed from the command line.
\<close>

subsection \<open>Data\<close>

record prelay_spec =
  pls_disk_size_gib :: nat

record trusted_boot_source =
  tbs_secret_ref :: local_object_reference

record iso_overlay_file =
  iof_key :: string
  iof_path :: string

record iso_overlay_source =
  ios_secret_ref :: local_object_reference
  ios_files :: "iso_overlay_file list"

datatype nic_adapter = Vmxnet3 | Vmxnet2 | E1000 | E1000e

datatype disk_controller = Pvscsi | LsiLogic | LsiLogicSas | BusLogic

datatype install_mode = Immediate | Deferred | ManualInstall

record vm_image_template_nic =
  vitn_network :: "string option"
  vitn_adapter :: "nic_adapter option"
  vitn_pci_slot :: "int option"

record vm_image_template_disk =
  vitd_size :: "int option"
  vitd_provisioning :: disk_provisioning
  vitd_controller :: disk_controller

record vm_image_template =
  vit_root_folder :: "string option"
  vit_network :: "vm_image_template_nic list"
  vit_disk :: "vm_image_template_disk option"
  vit_cpus :: "int option"
  vit_memory_mib :: "int option"
  vit_firmware :: "firmware option"
  vit_guest_id :: "string option"
  vit_force_upload :: bool
  vit_force_create :: bool
  vit_install_timeout_seconds :: "int option"
  vit_install_mode :: install_mode
  vit_retain_on_delete :: bool

datatype os_family = Linux | Windows | Bsd | Other

datatype architecture = Amd64 | Arm64

datatype guest_agent = CloudInit | Ignition | Sysprep | NoGuestAgent

datatype image_source_kind = Template | BackingFile | Url

record image_source =
  iso_provider_class :: string
  iso_kind :: image_source_kind
  iso_reference :: string
  iso_import_from :: "string option"
  iso_checksum :: "string option"

record vm_image_spec =
  vi_os_family :: os_family
  vi_os_distribution :: string
  vi_os_version :: string
  vi_architecture :: architecture
  vi_guest_agent :: guest_agent
  vi_sources :: "image_source list"
  vi_cloud_configs :: "cloud_config_source list"
  vi_template :: "vm_image_template option"
  vi_iso_overlay :: "iso_overlay_source option"
  vi_trusted_boot :: "trusted_boot_source option"
  vi_first_boot_sealing :: "first_boot_sealing option"
  vi_prelay :: "prelay_spec option"

datatype first_boot_sealing_provenance = Built | Asserted

datatype build_artifact_kind = CloudImage | Iso

datatype build_artifact_phase = BuildPending | BuildBuilding | BuildReady | BuildFailed

datatype oci_artifact_phase = OciPushing | OciReady | OciFailed

record oci_artifact_status =
  oas_phase :: oci_artifact_phase
  oas_reference :: "string option"
  oas_message :: "string option"

record build_artifact_status =
  bas_kind :: build_artifact_kind
  bas_phase :: build_artifact_phase
  bas_os_artifact_ref :: string
  bas_os_artifact_uid :: "string option"
  bas_pvc_ref :: "local_object_reference option"
  bas_file :: "string option"
  bas_reason :: "string option"
  bas_message :: "string option"
  bas_checksum :: "string option"
  bas_oci_artifact :: "oci_artifact_status option"
  bas_first_boot_sealing_layer :: bool
  bas_prelaid_disk_size_gib :: "nat option"

record zone_image_status =
  zis_name :: string
  zis_ready :: bool
  zis_resolved_ref :: "string option"
  zis_template_folder :: "string option"
  zis_reason :: "string option"
  zis_message :: "string option"

record image_per_provider_status =
  ipp_provider_name :: string
  ipp_provider_namespace :: string
  ipp_ready :: bool
  ipp_resolved_ref :: "string option"
  ipp_reason :: "string option"
  ipp_message :: "string option"
  ipp_zones :: "zone_image_status list"

record vm_image_status =
  vist_per_provider :: "image_per_provider_status list"
  vist_build_artifact :: "build_artifact_status option"
  vist_conditions :: "condition list"
  vist_observed_generation :: "int option"
  vist_first_boot_sealing :: "first_boot_sealing_provenance option"

record vm_image =
  vmi_meta :: object_meta
  vmi_spec :: vm_image_spec
  vmi_status :: "vm_image_status option"

subsection \<open>Parsing and printing\<close>

fun install_mode_as_str :: "install_mode \<Rightarrow> string" where
  "install_mode_as_str Immediate = ''immediate''"
| "install_mode_as_str Deferred = ''deferred''"
| "install_mode_as_str ManualInstall = ''manual''"

definition install_mode_from_str :: "string \<Rightarrow> (parse_error, install_mode) result" where
  "install_mode_from_str s =
     (if to_ascii_lowercase s = ''immediate'' then Inr Immediate
      else if to_ascii_lowercase s = ''deferred'' then Inr Deferred
      else if to_ascii_lowercase s = ''manual'' then Inr ManualInstall
      else Inl (UnknownInstallMode (to_ascii_lowercase s)))"

fun disk_controller_as_str :: "disk_controller \<Rightarrow> string" where
  "disk_controller_as_str Pvscsi = ''pvscsi''"
| "disk_controller_as_str LsiLogic = ''lsiLogic''"
| "disk_controller_as_str LsiLogicSas = ''lsiLogicSas''"
| "disk_controller_as_str BusLogic = ''busLogic''"

definition disk_controller_from_str :: "string \<Rightarrow> (parse_error, disk_controller) result" where
  "disk_controller_from_str s =
     (if to_ascii_lowercase s = ''pvscsi'' then Inr Pvscsi
      else if to_ascii_lowercase s = ''lsilogic'' then Inr LsiLogic
      else if to_ascii_lowercase s = ''lsilogicsas'' then Inr LsiLogicSas
      else if to_ascii_lowercase s = ''buslogic'' then Inr BusLogic
      else Inl (UnknownDiskController (to_ascii_lowercase s)))"

fun nic_adapter_as_str :: "nic_adapter \<Rightarrow> string" where
  "nic_adapter_as_str Vmxnet3 = ''vmxnet3''"
| "nic_adapter_as_str Vmxnet2 = ''vmxnet2''"
| "nic_adapter_as_str E1000 = ''e1000''"
| "nic_adapter_as_str E1000e = ''e1000e''"

definition nic_adapter_from_str :: "string \<Rightarrow> (parse_error, nic_adapter) result" where
  "nic_adapter_from_str s =
     (if to_ascii_lowercase s = ''vmxnet3'' then Inr Vmxnet3
      else if to_ascii_lowercase s = ''vmxnet2'' then Inr Vmxnet2
      else if to_ascii_lowercase s = ''e1000'' then Inr E1000
      else if to_ascii_lowercase s = ''e1000e'' then Inr E1000e
      else Inl (UnknownNicAdapter (to_ascii_lowercase s)))"

lemma install_mode_roundtrip: "install_mode_from_str (install_mode_as_str m) = Inr m"
  by (cases m; hypsubst; code_simp)

lemma disk_controller_roundtrip: "disk_controller_from_str (disk_controller_as_str c) = Inr c"
  by (cases c; hypsubst; code_simp)

lemma nic_adapter_roundtrip: "nic_adapter_from_str (nic_adapter_as_str a) = Inr a"
  by (cases a; hypsubst; code_simp)

text \<open>
  The enumerations an operator writes as text parse back from what they print, whatever the
  ASCII case of the input.
\<close>

theorem enum_text_roundtrips:
  "disk_provisioning_from_str (disk_provisioning_as_str d) = Inr d
    \<and> firmware_from_str (firmware_as_str f) = Inr f
    \<and> install_mode_from_str (install_mode_as_str m) = Inr m
    \<and> disk_controller_from_str (disk_controller_as_str c) = Inr c
    \<and> nic_adapter_from_str (nic_adapter_as_str a) = Inr a
    \<and> firmware_from_str (to_ascii_lowercase s) = firmware_from_str s"
  by (simp add: disk_provisioning_roundtrip firmware_roundtrip install_mode_roundtrip
      disk_controller_roundtrip nic_adapter_roundtrip firmware_case_insensitive)

end
