(* ===== verification/Scheduler.thy ===== *)
theory Scheduler
  imports Image_Types
begin

unbundle bit_operations_syntax

section \<open>The scheduler\<close>

text \<open>
  Model of \<^verbatim>\<open>crates/banlieue-controller/src/reconciler/scheduler.rs\<close>: the pure placement function.
  The body of the walk over (provider, failure domain) pairs is \<open>check_domain\<close>, its filter steps in
  the order of the code; \<open>walk_domain\<close> and \<open>walk_provider\<close> are the two loops, with the loop's mutable
  variables as the record \<open>walk\<close>.  Sums of \<^verbatim>\<open>u64\<close> values wrap as they do in a release build.  The lemmas
  show that a decision satisfies every filter, that a placement is found whenever one exists, that the
  least loaded domain is chosen, and that memory is not oversubscribed.
\<close>

subsection \<open>Data\<close>

record decision =
  d_provider_name :: string
  d_provider_namespace :: string
  d_provider_class :: string
  d_failure_domain_name :: string
  d_resolved_storage :: "resolved_resource list"
  d_resolved_networks :: "resolved_resource list"
  d_failure_domain_raw :: btmap
  d_failure_domain_labels :: btmap

datatype schedule_error =
    NoProviderMatched
  | NoFailureDomainMatched string
  | ImageNotReady
  | FirmwareUnsupported
  | TpmUnsupported
  | AntiAffinityUnsatisfied string
  | ProviderNotAlive

fun schedule_error_reason :: "schedule_error \<Rightarrow> string" where
  "schedule_error_reason NoProviderMatched = ''NoProviderMatched''"
| "schedule_error_reason (NoFailureDomainMatched _) = ''NoFailureDomainMatched''"
| "schedule_error_reason ImageNotReady = ''ImageNotReady''"
| "schedule_error_reason FirmwareUnsupported = ''FirmwareUnsupported''"
| "schedule_error_reason TpmUnsupported = ''TpmUnsupported''"
| "schedule_error_reason (AntiAffinityUnsatisfied _) = ''AntiAffinityUnsatisfied''"
| "schedule_error_reason ProviderNotAlive = ''ProviderNotAlive''"

text \<open>
  The error's \<^verbatim>\<open>Display\<close> text, which the \<^verbatim>\<open>Scheduled\<close> condition carries.
\<close>

fun schedule_error_text :: "schedule_error \<Rightarrow> string" where
  "schedule_error_text NoProviderMatched = ''no providers matched providerSelector''"
| "schedule_error_text (NoFailureDomainMatched s) = ''no failure domain matched all constraints: '' @ s"
| "schedule_error_text ImageNotReady = ''image not ready on any candidate provider''"
| "schedule_error_text FirmwareUnsupported =
     ''efi-secure firmware requires the efiSecureBoot feature; none of the candidate failure domains advertise it''"
| "schedule_error_text TpmUnsupported =
     ''tpmEnabled requires the vtpm feature; none of the candidate failure domains advertise it''"
| "schedule_error_text (AntiAffinityUnsatisfied k) =
     ''required anti-affinity rule on topologyKey='' @ k @ '' left no candidates''"
| "schedule_error_text ProviderNotAlive = ''every matching provider has stopped renewing its Lease''"

record reject_reasons =
  rj_kept :: "string list"
  rj_omitted :: nat

definition MAX_REJECT_REASONS :: nat where "MAX_REJECT_REASONS = 10"

definition push_reason :: "string \<Rightarrow> reject_reasons \<Rightarrow> reject_reasons" where
  "push_reason reason r =
     (if length (rj_kept r) < MAX_REJECT_REASONS then r\<lparr>rj_kept := rj_kept r @ [reason]\<rparr>
      else r\<lparr>rj_omitted := rj_omitted r + 1\<rparr>)"

text \<open>The ellipsis is U+2026, three bytes of UTF-8.\<close>

definition render_reasons :: "reject_reasons \<Rightarrow> string" where
  "render_reasons r = join_with ''; '' (rj_kept r) @
     (if rj_omitted r > 0
      then ''; '' @ [CHR 0xE2, CHR 0x80, CHR 0xA6] @ '' and '' @ show_nat (rj_omitted r) @ '' more'' else [])"

record usage =
  u_cpus :: nat
  u_memory_mib :: nat

subsection \<open>Selectors and lookups\<close>

definition is_stale :: "provider \<Rightarrow> bool" where
  "is_stale p =
     (case p_status p of None \<Rightarrow> False | Some s \<Rightarrow>
        (case pst_workload s of None \<Rightarrow> False | Some w \<Rightarrow> pws_heartbeat w = Some Stale))"

definition requirement_matches :: "btmap \<Rightarrow> label_selector_requirement \<Rightarrow> bool" where
  "requirement_matches labels req =
     (let present = map_of labels (lsr_key req)
      in case lsr_operator req of
           In \<Rightarrow> (case present of Some v \<Rightarrow> v \<in> set (lsr_values req) | None \<Rightarrow> False)
         | NotIn \<Rightarrow> (case present of Some v \<Rightarrow> v \<notin> set (lsr_values req) | None \<Rightarrow> True)
         | Exists \<Rightarrow> present \<noteq> None
         | DoesNotExist \<Rightarrow> present = None)"

definition selector_matches :: "label_selector option \<Rightarrow> btmap \<Rightarrow> bool" where
  "selector_matches selector labels =
     (case selector of None \<Rightarrow> True
      | Some sel \<Rightarrow> list_all (\<lambda>(k, v). map_of labels k = Some v) (ls_match_labels sel)
          \<and> list_all (requirement_matches labels) (ls_match_expressions sel))"

definition image_ready_on_provider :: "vm_image \<Rightarrow> string \<Rightarrow> bool" where
  "image_ready_on_provider img provider_name =
     (case vmi_status img of None \<Rightarrow> False
      | Some s \<Rightarrow> list_ex (\<lambda>p. ipp_provider_name p = provider_name \<and> ipp_ready p) (vist_per_provider s))"

definition image_ready_in_zone :: "vm_image \<Rightarrow> provider \<Rightarrow> string \<Rightarrow> bool" where
  "image_ready_in_zone img p zone =
     (if \<not> list_ex (\<lambda>s. iso_provider_class s = lor_name (prs_provider_class_ref (p_spec p)) \<and> iso_kind s = Template)
          (vi_sources (vmi_spec img)) then True
      else case vmi_status img of None \<Rightarrow> True
        | Some s \<Rightarrow> (case find (\<lambda>r. ipp_provider_name r = name_any (p_meta p)) (vist_per_provider s) of
              None \<Rightarrow> True
            | Some row \<Rightarrow>
                if ipp_zones row = [] then True
                else list_ex (\<lambda>z. zis_name z = zone \<and> zis_ready z) (ipp_zones row)))"

definition first_missing :: "string list \<Rightarrow> string list \<Rightarrow> string option" where
  "first_missing requested available = find (\<lambda>req. req \<notin> set available) requested"

text \<open>\<^verbatim>\<open>HashMap\<close> collected from the class list: a later class of the same name replaces an earlier one.\<close>

definition classes_by_name :: "vm_class list \<Rightarrow> string \<Rightarrow> vm_class option" where
  "classes_by_name classes = map_of (rev (map (\<lambda>c. (name_any (vc_meta c), c)) classes))"

subsection \<open>Load and capacity\<close>

definition scheduled_on :: "string \<Rightarrow> string \<Rightarrow> virtual_machine \<Rightarrow> bool" where
  "scheduled_on provider_name failure_domain vm =
     (case vm_status vm of None \<Rightarrow> False | Some s \<Rightarrow>
        (case vst_scheduled s of None \<Rightarrow> False
         | Some sp \<Rightarrow> sp_provider_name sp = provider_name \<and> sp_failure_domain sp = failure_domain))"

definition others_on :: "virtual_machine \<Rightarrow> virtual_machine list \<Rightarrow> string \<Rightarrow> string \<Rightarrow> virtual_machine list" where
  "others_on vm existing provider_name failure_domain =
     filter (scheduled_on provider_name failure_domain)
       (filter (\<lambda>other. name_any (vm_meta other) \<noteq> name_any (vm_meta vm)) existing)"

definition same_group :: "virtual_machine \<Rightarrow> virtual_machine \<Rightarrow> bool" where
  "same_group vm other =
     (let pool = map_of (meta_labels (vm_meta vm)) LABEL_POOL
      in pool = None \<or> map_of (meta_labels (vm_meta other)) LABEL_POOL = pool)"

definition placement_load :: "virtual_machine \<Rightarrow> virtual_machine list \<Rightarrow> string \<Rightarrow> string \<Rightarrow> nat \<times> nat" where
  "placement_load vm existing provider_name failure_domain =
     foldl (\<lambda>(g, t) other. (g + usize_from (same_group vm other), t + 1)) (0, 0)
       (others_on vm existing provider_name failure_domain)"

definition add_usage :: "(string \<Rightarrow> vm_class option) \<Rightarrow> nat \<Rightarrow> usage \<Rightarrow> virtual_machine \<Rightarrow> usage" where
  "add_usage classes overhead used other =
     (case classes (lor_name (vs_class_ref (vm_spec other))) of
        None \<Rightarrow> used
      | Some c \<Rightarrow> \<lparr>u_cpus = wadd64 (u_cpus used) (hs_cpus (vcs_hardware (vc_spec c))),
          u_memory_mib = wadd64 (wadd64 (u_memory_mib used) (hs_memory_mib (vcs_hardware (vc_spec c)))) overhead\<rparr>)"

definition usage_on ::
  "virtual_machine \<Rightarrow> virtual_machine list \<Rightarrow> (string \<Rightarrow> vm_class option) \<Rightarrow> string \<Rightarrow> string \<Rightarrow> nat \<Rightarrow> usage" where
  "usage_on vm existing classes provider_name failure_domain overhead =
     foldl (add_usage classes overhead) \<lparr>u_cpus = 0, u_memory_mib = 0\<rparr>
       (others_on vm existing provider_name failure_domain)"

definition capacity_shortfall ::
  "nat \<Rightarrow> nat \<Rightarrow> usage \<Rightarrow> failure_domain_capacity \<Rightarrow> nat \<Rightarrow> string option" where
  "capacity_shortfall cpus memory used capacity ratio =
     (case (case fdc_memory_mib capacity of None \<Rightarrow> None
        | Some available \<Rightarrow>
            if wadd64 (u_memory_mib used) memory > available
            then Some (''memory '' @ show_nat (wadd64 (u_memory_mib used) memory) @ '' MiB > ''
              @ show_nat available @ '' MiB'') else None) of
        Some short \<Rightarrow> Some short
      | None \<Rightarrow> (case fdc_cpus capacity of None \<Rightarrow> None
        | Some host_cpus \<Rightarrow>
            if wadd64 (u_cpus used) cpus > host_cpus * ratio
            then Some (''vCPUs '' @ show_nat (wadd64 (u_cpus used) cpus) @ '' > '' @ show_nat host_cpus
              @ '' CPUs x '' @ show_nat ratio) else None))"

definition domain_shortfall ::
  "virtual_machine \<Rightarrow> vm_class \<Rightarrow> virtual_machine list \<Rightarrow> (string \<Rightarrow> vm_class option) \<Rightarrow> provider \<Rightarrow> failure_domain
     \<Rightarrow> string option" where
  "domain_shortfall vm cls existing classes p fd =
     (case fda_capacity (fd_attributes fd) of None \<Rightarrow> None
      | Some capacity \<Rightarrow>
          (let overhead = (case fdc_memory_overhead_mib_per_vm capacity of Some n \<Rightarrow> n | None \<Rightarrow> 0)
           in capacity_shortfall (hs_cpus (vcs_hardware (vc_spec cls)))
                (wadd64 (hs_memory_mib (vcs_hardware (vc_spec cls))) overhead)
                (usage_on vm existing classes (name_any (p_meta p)) (fd_name fd) overhead)
                capacity
                (case prs_scheduling (p_spec p) of None \<Rightarrow> 4 | Some s \<Rightarrow> cpu_overcommit_ratio s)))"

subsection \<open>The walk over failure domains\<close>

datatype verdict = Reject string | RejectFirmware string | RejectTpm string | Accept

definition check_domain ::
  "virtual_machine \<Rightarrow> vm_class \<Rightarrow> vm_image \<Rightarrow> virtual_machine list \<Rightarrow> (string \<Rightarrow> vm_class option) \<Rightarrow> provider
     \<Rightarrow> failure_domain \<Rightarrow> verdict" where
  "check_domain vm cls img existing classes p fd =
     (let at = name_any (p_meta p) @ ''/'' @ fd_name fd @ '': '';
          attrs = fd_attributes fd;
          spec = vc_spec cls
      in if \<not> selector_matches (ps_failure_domain_selector (vs_placement (vm_spec vm))) (fd_labels fd)
         then Reject (at @ ''failureDomainSelector did not match'')
         else if \<not> image_ready_on_provider img (name_any (p_meta p))
         then Reject (at @ ''image '' @ name_any (vmi_meta img) @ '' not ready on this provider'')
         else if \<not> image_ready_in_zone img p (fd_name fd)
         then Reject (at @ ''image '' @ name_any (vmi_meta img) @ '' has no ready template in this zone'')
         else case first_missing (map ds_storage_class (hs_disks (vcs_hardware spec))) (fda_available_storage_classes attrs) of
           Some missing \<Rightarrow> Reject (at @ ''storage class '' @ [CHR 0x27] @ missing @ [CHR 0x27] @ '' not available'')
         | None \<Rightarrow> (case first_missing (map nis_network_class (ns_interfaces (vcs_network spec))) (fda_available_network_classes attrs) of
           Some missing \<Rightarrow> Reject (at @ ''network class '' @ [CHR 0x27] @ missing @ [CHR 0x27] @ '' not available'')
         | None \<Rightarrow> (case first_missing (vcs_features spec) (fda_features attrs) of
           Some missing \<Rightarrow> Reject (at @ ''feature '' @ [CHR 0x27] @ missing @ [CHR 0x27] @ '' not available'')
         | None \<Rightarrow>
             if vcs_firmware spec = EfiSecure \<and> ''efiSecureBoot'' \<notin> set (fda_features attrs)
             then RejectFirmware (at @ ''efi-secure firmware requested but '' @ [CHR 0x27] @ ''efiSecureBoot'' @ [CHR 0x27] @ '' feature absent'')
             else if vcs_tpm_enabled spec \<and> ''vtpm'' \<notin> set (fda_features attrs)
             then RejectTpm (at @ ''tpmEnabled requested but '' @ [CHR 0x27] @ ''vtpm'' @ [CHR 0x27] @ '' feature absent'')
             else case domain_shortfall vm cls existing classes p fd of
               Some short \<Rightarrow> Reject (at @ ''insufficient capacity: '' @ short)
             | None \<Rightarrow> Accept)))"

record walk =
  w_reasons :: reject_reasons
  w_image_ready_seen :: bool
  w_firmware_unsupported_seen :: bool
  w_tpm_unsupported_seen :: bool
  w_survivors :: "(provider \<times> failure_domain) list"

definition walk_init :: walk where
  "walk_init = \<lparr>w_reasons = \<lparr>rj_kept = [], rj_omitted = 0\<rparr>, w_image_ready_seen = False,
     w_firmware_unsupported_seen = False, w_tpm_unsupported_seen = False, w_survivors = []\<rparr>"

definition walk_domain ::
  "(provider \<Rightarrow> failure_domain \<Rightarrow> verdict) \<Rightarrow> provider \<Rightarrow> walk \<Rightarrow> failure_domain \<Rightarrow> walk" where
  "walk_domain check p w fd =
     (case check p fd of
        Reject r \<Rightarrow> w\<lparr>w_reasons := push_reason r (w_reasons w)\<rparr>
      | RejectFirmware r \<Rightarrow> w\<lparr>w_firmware_unsupported_seen := True, w_reasons := push_reason r (w_reasons w)\<rparr>
      | RejectTpm r \<Rightarrow> w\<lparr>w_tpm_unsupported_seen := True, w_reasons := push_reason r (w_reasons w)\<rparr>
      | Accept \<Rightarrow> w\<lparr>w_survivors := w_survivors w @ [(p, fd)]\<rparr>)"

definition domains_of :: "provider \<Rightarrow> failure_domain list" where
  "domains_of p = (case p_status p of None \<Rightarrow> [] | Some s \<Rightarrow> pst_failure_domains s)"

definition walk_provider ::
  "vm_image \<Rightarrow> (provider \<Rightarrow> failure_domain \<Rightarrow> verdict) \<Rightarrow> walk \<Rightarrow> provider \<Rightarrow> walk" where
  "walk_provider img check w p =
     foldl (walk_domain check p)
       (if image_ready_on_provider img (name_any (p_meta p)) then w\<lparr>w_image_ready_seen := True\<rparr> else w)
       (domains_of p)"

subsection \<open>Anti-affinity, spread and the decision\<close>

definition mode_is_required :: "anti_affinity_rule \<Rightarrow> bool" where
  "mode_is_required r = (aar_mode r = Required)"

definition blocked_topology_values :: "anti_affinity_rule \<Rightarrow> virtual_machine list \<Rightarrow> string list" where
  "blocked_topology_values rule existing =
     List.map_filter (\<lambda>vm. case vm_status vm of None \<Rightarrow> None
         | Some s \<Rightarrow> map_option sp_failure_domain (vst_scheduled s))
       (filter (\<lambda>vm. selector_matches (Some (aar_label_selector rule)) (meta_labels (vm_meta vm))) existing)"

definition rule_allows :: "anti_affinity_rule \<Rightarrow> virtual_machine list \<Rightarrow> failure_domain \<Rightarrow> bool" where
  "rule_allows rule existing fd =
     (case map_of (fd_labels fd) (aar_topology_key rule) of
        Some v \<Rightarrow> v \<notin> set (blocked_topology_values rule existing)
      | None \<Rightarrow> True)"

text \<open>The loop over the required rules: the pairs left, or the key of the rule that left none.\<close>

fun apply_anti_affinity ::
  "virtual_machine list \<Rightarrow> anti_affinity_rule list \<Rightarrow> (provider \<times> failure_domain) list
     \<Rightarrow> (string, (provider \<times> failure_domain) list) result" where
  "apply_anti_affinity existing [] survivors = Inr survivors"
| "apply_anti_affinity existing (rule # rules) survivors =
     (if filter (\<lambda>(_, fd). rule_allows rule existing fd) survivors = [] then Inl (aar_topology_key rule)
      else apply_anti_affinity existing rules (filter (\<lambda>(_, fd). rule_allows rule existing fd) survivors))"

definition fnv1a :: "string list \<Rightarrow> 64 word" where
  "fnv1a parts =
     foldl (\<lambda>hash byte. (hash XOR word_of_nat byte) * 0x100000001B3) 0xCBF29CE484222325
       (concat (map (\<lambda>part. map of_char part @ [0]) parts))"

definition spread_key :: "virtual_machine \<Rightarrow> virtual_machine list \<Rightarrow> provider \<times> failure_domain \<Rightarrow> (nat \<times> nat) \<times> 64 word" where
  "spread_key vm existing pf =
     (placement_load vm existing (name_any (p_meta (fst pf))) (fd_name (snd pf)),
      fnv1a [name_any (vm_meta vm), name_any (p_meta (fst pf)), fd_name (snd pf)])"

text \<open>The tuple order of \<^verbatim>\<open>(group, total, Reverse(rendezvous))\<close>.\<close>

definition key_le :: "(nat \<times> nat) \<times> 64 word \<Rightarrow> (nat \<times> nat) \<times> 64 word \<Rightarrow> bool" where
  "key_le a b =
     (if fst (fst a) \<noteq> fst (fst b) then fst (fst a) < fst (fst b)
      else if snd (fst a) \<noteq> snd (fst b) then snd (fst a) < snd (fst b)
      else snd b \<le> snd a)"

definition spread_le ::
  "virtual_machine \<Rightarrow> virtual_machine list \<Rightarrow> provider \<times> failure_domain \<Rightarrow> provider \<times> failure_domain \<Rightarrow> bool" where
  "spread_le vm existing a b = key_le (spread_key vm existing a) (spread_key vm existing b)"

text \<open>\<^verbatim>\<open>first_target_value\<close> for its two kinds: the value of the first key of the class's target.\<close>

definition first_storage_target :: "provider_capabilities \<Rightarrow> string \<Rightarrow> string \<Rightarrow> string \<Rightarrow> string option" where
  "first_storage_target caps class_name datacenter cluster =
     (case find (\<lambda>m. scm_name m = class_name) (pcap_storage_classes caps) of None \<Rightarrow> None
      | Some m \<Rightarrow> (case storage_target_for m datacenter cluster of None \<Rightarrow> None
        | Some t \<Rightarrow> (case t of [] \<Rightarrow> None | (_, v) # _ \<Rightarrow> Some v)))"

definition first_network_target :: "provider_capabilities \<Rightarrow> string \<Rightarrow> string \<Rightarrow> string \<Rightarrow> string option" where
  "first_network_target caps class_name datacenter cluster =
     (case find (\<lambda>m. ncm_name m = class_name) (pcap_network_classes caps) of None \<Rightarrow> None
      | Some m \<Rightarrow> (case network_target_for m datacenter cluster of None \<Rightarrow> None
        | Some t \<Rightarrow> (case t of [] \<Rightarrow> None | (_, v) # _ \<Rightarrow> Some v)))"

definition get_or :: "string \<Rightarrow> btmap \<Rightarrow> string \<Rightarrow> string" where
  "get_or dflt m k = (case map_of m k of Some v \<Rightarrow> v | None \<Rightarrow> dflt)"

definition build_decision :: "vm_class \<Rightarrow> provider \<Rightarrow> failure_domain \<Rightarrow> decision" where
  "build_decision cls p fd =
     (let raw = fda_raw (fd_attributes fd);
          datacenter = get_or '''' raw ''datacenter'';
          cluster = get_or '''' raw ''cluster'';
          caps = prs_capabilities (p_spec p)
      in \<lparr>d_provider_name = name_any (p_meta p),
          d_provider_namespace = (case om_namespace (p_meta p) of Some n \<Rightarrow> n | None \<Rightarrow> ''default''),
          d_provider_class = lor_name (prs_provider_class_ref (p_spec p)),
          d_failure_domain_name = fd_name fd,
          d_resolved_storage = map (\<lambda>disk. \<lparr>rr_class_name = ds_storage_class disk,
              rr_backend_id = (case first_storage_target caps (ds_storage_class disk) datacenter cluster of
                 Some v \<Rightarrow> v | None \<Rightarrow> ds_storage_class disk)\<rparr>) (hs_disks (vcs_hardware (vc_spec cls))),
          d_resolved_networks = map (\<lambda>nic. \<lparr>rr_class_name = nis_network_class nic,
              rr_backend_id = (case first_network_target caps (nis_network_class nic) datacenter cluster of
                 Some v \<Rightarrow> v | None \<Rightarrow> nis_network_class nic)\<rparr>) (ns_interfaces (vcs_network (vc_spec cls))),
          d_failure_domain_raw = raw,
          d_failure_domain_labels = fd_labels fd\<rparr>)"

definition to_scheduled_placement :: "decision \<Rightarrow> timestamp \<Rightarrow> scheduled_placement" where
  "to_scheduled_placement d now =
     \<lparr>sp_provider_name = d_provider_name d, sp_provider_class = d_provider_class d,
      sp_failure_domain = d_failure_domain_name d, sp_resolved_storage = d_resolved_storage d,
      sp_resolved_networks = d_resolved_networks d, sp_scheduled_at = Some now\<rparr>"

text \<open>What the walk's outcome becomes once no pair is left.\<close>

definition walk_error :: "walk \<Rightarrow> schedule_error" where
  "walk_error w =
     (if \<not> w_image_ready_seen w then ImageNotReady
      else if w_firmware_unsupported_seen w then FirmwareUnsupported
      else if w_tpm_unsupported_seen w then TpmUnsupported
      else NoFailureDomainMatched (render_reasons (w_reasons w)))"

definition choose_survivor ::
  "virtual_machine \<Rightarrow> vm_class \<Rightarrow> virtual_machine list \<Rightarrow> walk \<Rightarrow> (schedule_error, decision) result" where
  "choose_survivor vm cls existing w =
     (if w_survivors w = [] then Inl (walk_error w)
      else case apply_anti_affinity existing
             (filter mode_is_required (ps_anti_affinity (vs_placement (vm_spec vm)))) (w_survivors w) of
          Inl key \<Rightarrow> Inl (AntiAffinityUnsatisfied key)
        | Inr left \<Rightarrow>
            (case min_by (spread_le vm existing) left of
               None \<Rightarrow> Inl (AntiAffinityUnsatisfied '''')
             | Some (p, fd) \<Rightarrow> Inr (build_decision cls p fd)))"

definition schedule ::
  "virtual_machine \<Rightarrow> vm_class \<Rightarrow> vm_image \<Rightarrow> provider list \<Rightarrow> virtual_machine list \<Rightarrow> vm_class list
     \<Rightarrow> (schedule_error, decision) result" where
  "schedule vm cls img providers existing classes =
     (if filter (\<lambda>p. selector_matches (ps_provider_selector (vs_placement (vm_spec vm))) (meta_labels (p_meta p))) providers = []
      then Inl NoProviderMatched
      else if filter (\<lambda>p. \<not> is_stale p)
             (filter (\<lambda>p. selector_matches (ps_provider_selector (vs_placement (vm_spec vm))) (meta_labels (p_meta p))) providers) = []
      then Inl ProviderNotAlive
      else choose_survivor vm cls existing
             (foldl (walk_provider img (check_domain vm cls img existing (classes_by_name classes))) walk_init
                (filter (\<lambda>p. \<not> is_stale p)
                   (filter (\<lambda>p. selector_matches (ps_provider_selector (vs_placement (vm_spec vm))) (meta_labels (p_meta p))) providers))))"

subsection \<open>What a placement has to satisfy\<close>

text \<open>The filter chain as one predicate, and with the provider filters and the required anti-affinity rules.\<close>

definition eligible ::
  "virtual_machine \<Rightarrow> vm_class \<Rightarrow> vm_image \<Rightarrow> virtual_machine list \<Rightarrow> vm_class list \<Rightarrow> provider \<Rightarrow> failure_domain \<Rightarrow> bool" where
  "eligible vm cls img existing classes p fd \<longleftrightarrow>
     selector_matches (ps_failure_domain_selector (vs_placement (vm_spec vm))) (fd_labels fd)
   \<and> image_ready_on_provider img (name_any (p_meta p))
   \<and> image_ready_in_zone img p (fd_name fd)
   \<and> ds_storage_class ` set (hs_disks (vcs_hardware (vc_spec cls))) \<subseteq> set (fda_available_storage_classes (fd_attributes fd))
   \<and> nis_network_class ` set (ns_interfaces (vcs_network (vc_spec cls))) \<subseteq> set (fda_available_network_classes (fd_attributes fd))
   \<and> set (vcs_features (vc_spec cls)) \<subseteq> set (fda_features (fd_attributes fd))
   \<and> (vcs_firmware (vc_spec cls) = EfiSecure \<longrightarrow> ''efiSecureBoot'' \<in> set (fda_features (fd_attributes fd)))
   \<and> (vcs_tpm_enabled (vc_spec cls) \<longrightarrow> ''vtpm'' \<in> set (fda_features (fd_attributes fd)))
   \<and> domain_shortfall vm cls existing (classes_by_name classes) p fd = None"

definition placeable ::
  "virtual_machine \<Rightarrow> vm_class \<Rightarrow> vm_image \<Rightarrow> provider list \<Rightarrow> virtual_machine list \<Rightarrow> vm_class list
     \<Rightarrow> provider \<Rightarrow> failure_domain \<Rightarrow> bool" where
  "placeable vm cls img providers existing classes p fd \<longleftrightarrow>
     p \<in> set providers \<and> fd \<in> set (domains_of p)
   \<and> selector_matches (ps_provider_selector (vs_placement (vm_spec vm))) (meta_labels (p_meta p))
   \<and> \<not> is_stale p
   \<and> eligible vm cls img existing classes p fd
   \<and> (\<forall>r \<in> set (ps_anti_affinity (vs_placement (vm_spec vm))). aar_mode r = Required \<longrightarrow> rule_allows r existing fd)"

lemma first_missing_None: "first_missing req av = None \<longleftrightarrow> set req \<subseteq> set av"
  by (auto simp: first_missing_def find_None_iff)

lemma check_domain_Accept:
  "check_domain vm cls img existing (classes_by_name classes) p fd = Accept
     \<longleftrightarrow> eligible vm cls img existing classes p fd"
  unfolding check_domain_def eligible_def Let_def set_map [symmetric] first_missing_None [symmetric]
  by (simp split: option.split)

lemma walk_domain_survivors:
  "w_survivors (walk_domain check p w fd) = w_survivors w @ (if check p fd = Accept then [(p, fd)] else [])"
  by (simp add: walk_domain_def split: verdict.split)

lemma walk_domains_survivors:
  "w_survivors (foldl (walk_domain check p) w fds) =
     w_survivors w @ map (Pair p) (filter (\<lambda>fd. check p fd = Accept) fds)"
  by (induction fds arbitrary: w) (simp_all add: walk_domain_survivors)

lemma walk_survivors:
  "w_survivors (foldl (walk_provider img check) w ps) =
     w_survivors w @ concat (map (\<lambda>p. map (Pair p) (filter (\<lambda>fd. check p fd = Accept) (domains_of p))) ps)"
  by (induction ps arbitrary: w) (simp_all add: walk_provider_def walk_domains_survivors)

lemma anti_affinity_Inr:
  "apply_anti_affinity existing rules ss = Inr l \<Longrightarrow>
     l = filter (\<lambda>(_, fd). \<forall>r \<in> set rules. rule_allows r existing fd) ss \<and> (ss \<noteq> [] \<longrightarrow> l \<noteq> [])"
proof (induction existing rules ss rule: apply_anti_affinity.induct)
  case (2 existing rule rules ss)
  then show ?case
    by (auto split: if_splits simp: case_prod_beta conj_commute intro!: filter_cong)
qed simp

lemma anti_affinity_Inl:
  "apply_anti_affinity existing rules ss = Inl k \<Longrightarrow>
     filter (\<lambda>(_, fd). \<forall>r \<in> set rules. rule_allows r existing fd) ss = []
     \<and> (\<exists>r \<in> set rules. aar_topology_key r = k)"
proof (induction existing rules ss rule: apply_anti_affinity.induct)
  case (2 existing rule rules ss)
  show ?case
  proof (cases "filter (\<lambda>(_, fd). rule_allows rule existing fd) ss = []")
    case True
    with "2.prems" show ?thesis by (auto simp: filter_empty_conv)
  next
    case False
    with "2.prems" have "apply_anti_affinity existing rules (filter (\<lambda>(_, fd). rule_allows rule existing fd) ss) = Inl k"
      by simp
    from "2.IH" [OF False this] show ?thesis
      by (auto simp: filter_empty_conv)
  qed
qed simp

interpretation spread: comparator_le "spread_le vm existing"
  for vm :: virtual_machine and existing :: "virtual_machine list"
  by unfold_locales (auto simp: spread_le_def key_le_def split: if_splits)

definition live_candidates :: "virtual_machine \<Rightarrow> provider list \<Rightarrow> provider list" where
  "live_candidates vm providers = filter (\<lambda>p. \<not> is_stale p)
     (filter (\<lambda>p. selector_matches (ps_provider_selector (vs_placement (vm_spec vm))) (meta_labels (p_meta p))) providers)"

definition final_walk ::
  "virtual_machine \<Rightarrow> vm_class \<Rightarrow> vm_image \<Rightarrow> provider list \<Rightarrow> virtual_machine list \<Rightarrow> vm_class list \<Rightarrow> walk" where
  "final_walk vm cls img providers existing classes =
     foldl (walk_provider img (check_domain vm cls img existing (classes_by_name classes))) walk_init
       (live_candidates vm providers)"

definition allowed_pairs ::
  "virtual_machine \<Rightarrow> vm_class \<Rightarrow> vm_image \<Rightarrow> provider list \<Rightarrow> virtual_machine list \<Rightarrow> vm_class list
     \<Rightarrow> (provider \<times> failure_domain) list" where
  "allowed_pairs vm cls img providers existing classes =
     filter (\<lambda>(_, fd). \<forall>r \<in> set (filter mode_is_required (ps_anti_affinity (vs_placement (vm_spec vm)))). rule_allows r existing fd)
       (w_survivors (final_walk vm cls img providers existing classes))"

lemma allowed_pairs_iff:
  "(p, fd) \<in> set (allowed_pairs vm cls img providers existing classes) \<longleftrightarrow>
     placeable vm cls img providers existing classes p fd"
  by (auto simp: allowed_pairs_def final_walk_def walk_survivors walk_init_def live_candidates_def
      check_domain_Accept placeable_def mode_is_required_def)

lemma schedule_eq:
  assumes "live_candidates vm providers \<noteq> []"
  shows "schedule vm cls img providers existing classes =
     choose_survivor vm cls existing (final_walk vm cls img providers existing classes)"
proof -
  have "filter (\<lambda>p. selector_matches (ps_provider_selector (vs_placement (vm_spec vm))) (meta_labels (p_meta p))) providers \<noteq> []"
    using assms unfolding live_candidates_def by (metis filter.simps(1))
  with assms show ?thesis
    unfolding schedule_def final_walk_def live_candidates_def [symmetric] by simp
qed

lemma schedule_pairs:
  "(case min_by (spread_le vm existing) (allowed_pairs vm cls img providers existing classes) of
      Some (p, fd) \<Rightarrow> schedule vm cls img providers existing classes = Inr (build_decision cls p fd)
    | None \<Rightarrow> \<exists>e. schedule vm cls img providers existing classes = Inl e)"
proof -
  let ?w = "final_walk vm cls img providers existing classes"
  let ?rules = "filter mode_is_required (ps_anti_affinity (vs_placement (vm_spec vm)))"
  consider "live_candidates vm providers = []"
    | "live_candidates vm providers \<noteq> []" "w_survivors ?w = []"
    | k where "live_candidates vm providers \<noteq> []" "w_survivors ?w \<noteq> []"
        "apply_anti_affinity existing ?rules (w_survivors ?w) = Inl k"
    | l where "live_candidates vm providers \<noteq> []" "w_survivors ?w \<noteq> []"
        "apply_anti_affinity existing ?rules (w_survivors ?w) = Inr l"
    by (metis sum.exhaust)
  then show ?thesis
  proof cases
    case 1
    then have "allowed_pairs vm cls img providers existing classes = []"
      by (simp add: allowed_pairs_def final_walk_def walk_init_def)
    moreover have "\<exists>e. schedule vm cls img providers existing classes = Inl e"
      using 1 by (auto simp: schedule_def live_candidates_def)
    ultimately show ?thesis by simp
  next
    case 2
    then have "allowed_pairs vm cls img providers existing classes = []"
      by (simp add: allowed_pairs_def)
    with 2 show ?thesis by (simp add: schedule_eq choose_survivor_def)
  next
    case 3
    then have "allowed_pairs vm cls img providers existing classes = []"
      using anti_affinity_Inl [OF 3(3)] unfolding allowed_pairs_def by blast
    with 3 show ?thesis by (simp add: schedule_eq choose_survivor_def)
  next
    case 4
    then have l: "l = allowed_pairs vm cls img providers existing classes" "l \<noteq> []"
      using anti_affinity_Inr [OF 4(3)] 4(2) unfolding allowed_pairs_def by blast+
    then obtain p fd where m: "min_by (spread_le vm existing) l = Some (p, fd)"
      by (metis min_by_None not_Some_eq surj_pair)
    with 4 l show ?thesis by (simp add: schedule_eq choose_survivor_def)
  qed
qed

lemma foldl_load:
  "foldl (\<lambda>(g, t) other. (g + usize_from (P other), t + 1)) (a, b) xs = (a + length (filter P xs), b + length xs)"
  by (induction xs arbitrary: a b) (simp_all add: usize_from_def)

lemma placement_load_eq:
  "placement_load vm existing pn fdn =
     (length (filter (same_group vm) (others_on vm existing pn fdn)), length (others_on vm existing pn fdn))"
  unfolding placement_load_def foldl_load by simp

lemma spread_le_load:
  assumes "spread_le vm existing a b"
  shows "fst (fst (spread_key vm existing a)) < fst (fst (spread_key vm existing b))
    \<or> fst (fst (spread_key vm existing a)) = fst (fst (spread_key vm existing b))
      \<and> snd (fst (spread_key vm existing a)) \<le> snd (fst (spread_key vm existing b))"
  using assms by (auto simp: spread_le_def key_le_def split: if_splits)



subsection \<open>Capacity\<close>

definition class_memory :: "(string \<Rightarrow> vm_class option) \<Rightarrow> nat \<Rightarrow> virtual_machine \<Rightarrow> nat" where
  "class_memory classes overhead vm =
     (case classes (lor_name (vs_class_ref (vm_spec vm))) of
        None \<Rightarrow> 0 | Some c \<Rightarrow> hs_memory_mib (vcs_hardware (vc_spec c)) + overhead)"

lemma usage_memory_sum:
  assumes "u_memory_mib u + sum_list (map (class_memory classes overhead) vms) \<le> u64_max"
  shows "u_memory_mib (foldl (add_usage classes overhead) u vms) =
    u_memory_mib u + sum_list (map (class_memory classes overhead) vms)"
  using assms
proof (induction vms arbitrary: u)
  case (Cons v vms)
  have step: "u_memory_mib (add_usage classes overhead u v) = u_memory_mib u + class_memory classes overhead v"
    using Cons.prems by (auto simp: add_usage_def class_memory_def wadd64_exact split: option.split)
  have "u_memory_mib (foldl (add_usage classes overhead) (add_usage classes overhead u v) vms) =
      u_memory_mib (add_usage classes overhead u v) + sum_list (map (class_memory classes overhead) vms)"
    by (rule Cons.IH) (use Cons.prems in \<open>simp add: step\<close>)
  then show ?case by (simp add: step)
qed simp

text \<open>
  Memory is never oversubscribed by class sizes: on a failure domain that publishes a memory
  capacity, the memory of the classes of the VMs already scheduled there, plus that of the new VM, each
  with the published overhead, fits (sums that stay within 64 bits).
\<close>

theorem schedule_memory_fits:
  assumes "schedule vm cls img providers existing classes = Inr d"
  shows "\<exists>p fd. d_provider_name d = name_any (p_meta p) \<and> d_failure_domain_name d = fd_name fd
    \<and> fd \<in> set (domains_of p) \<and> p \<in> set providers
    \<and> (\<forall>cap available. fda_capacity (fd_attributes fd) = Some cap \<longrightarrow> fdc_memory_mib cap = Some available \<longrightarrow>
         (let overhead = (case fdc_memory_overhead_mib_per_vm cap of Some n \<Rightarrow> n | None \<Rightarrow> 0);
              need = sum_list (map (class_memory (classes_by_name classes) overhead)
                       (others_on vm existing (name_any (p_meta p)) (fd_name fd)))
                     + (hs_memory_mib (vcs_hardware (vc_spec cls)) + overhead)
          in need \<le> u64_max \<longrightarrow> need \<le> available))"
proof -
  obtain p fd where pl: "placeable vm cls img providers existing classes p fd" and d: "d = build_decision cls p fd"
    using schedule_pairs [of vm cls img providers existing classes] assms min_by_in allowed_pairs_iff
    by (fastforce split: option.splits)
  have fits: "domain_shortfall vm cls existing (classes_by_name classes) p fd = None"
    using pl by (simp add: placeable_def eligible_def)
  have "need \<le> available"
    if cap: "fda_capacity (fd_attributes fd) = Some cap" "fdc_memory_mib cap = Some available"
      and ov: "overhead = (case fdc_memory_overhead_mib_per_vm cap of Some n \<Rightarrow> n | None \<Rightarrow> 0)"
      and need: "need = sum_list (map (class_memory (classes_by_name classes) overhead)
                       (others_on vm existing (name_any (p_meta p)) (fd_name fd)))
                     + (hs_memory_mib (vcs_hardware (vc_spec cls)) + overhead)" "need \<le> u64_max"
    for cap available overhead need
  proof -
    let ?u = "usage_on vm existing (classes_by_name classes) (name_any (p_meta p)) (fd_name fd) overhead"
    have u: "u_memory_mib ?u = sum_list (map (class_memory (classes_by_name classes) overhead)
        (others_on vm existing (name_any (p_meta p)) (fd_name fd)))"
      using need unfolding usage_on_def by (subst usage_memory_sum) simp_all
    have own: "wadd64 (hs_memory_mib (vcs_hardware (vc_spec cls))) overhead = hs_memory_mib (vcs_hardware (vc_spec cls)) + overhead"
      using need by (intro wadd64_exact) linarith
    have "wadd64 (u_memory_mib ?u) (wadd64 (hs_memory_mib (vcs_hardware (vc_spec cls))) overhead) = need"
      unfolding own u need(1) by (rule wadd64_exact) (use need in simp)
    moreover have "\<not> wadd64 (u_memory_mib ?u) (wadd64 (hs_memory_mib (vcs_hardware (vc_spec cls))) overhead) > available"
      using fits cap unfolding domain_shortfall_def capacity_shortfall_def ov [symmetric]
      by (auto simp: ov [symmetric] Let_def split: option.splits if_splits)
    ultimately show ?thesis by simp
  qed
  note main = this [OF _ _ refl refl]
  have "d_provider_name d = name_any (p_meta p)" "d_failure_domain_name d = fd_name fd"
    by (simp_all add: d build_decision_def Let_def)
  moreover have "fd \<in> set (domains_of p)" "p \<in> set providers"
    using pl by (simp_all add: placeable_def)
  ultimately show ?thesis
    unfolding Let_def by (intro exI [of _ p] exI [of _ fd] conjI allI impI) (simp_all add: main)
qed

subsection \<open>Reject reasons\<close>

definition reasons_count :: "reject_reasons \<Rightarrow> nat" where
  "reasons_count r = length (rj_kept r) + rj_omitted r"

lemma push_reason_count [simp]: "reasons_count (push_reason s r) = Suc (reasons_count r)"
  by (simp add: push_reason_def reasons_count_def)

lemma push_reason_bounded: "length (rj_kept r) \<le> MAX_REJECT_REASONS \<Longrightarrow> length (rj_kept (push_reason s r)) \<le> MAX_REJECT_REASONS"
  by (simp add: push_reason_def)

lemma walk_domain_reasons:
  "reasons_count (w_reasons (walk_domain check p w fd)) = reasons_count (w_reasons w) + (if check p fd = Accept then 0 else 1)"
  "length (rj_kept (w_reasons w)) \<le> MAX_REJECT_REASONS \<Longrightarrow> length (rj_kept (w_reasons (walk_domain check p w fd))) \<le> MAX_REJECT_REASONS"
  by (auto simp: walk_domain_def push_reason_bounded split: verdict.split)

lemma walk_domains_reasons:
  "reasons_count (w_reasons (foldl (walk_domain check p) w fds)) =
     reasons_count (w_reasons w) + length (filter (\<lambda>fd. check p fd \<noteq> Accept) fds)"
  "length (rj_kept (w_reasons w)) \<le> MAX_REJECT_REASONS \<Longrightarrow>
     length (rj_kept (w_reasons (foldl (walk_domain check p) w fds))) \<le> MAX_REJECT_REASONS"
  by (induction fds arbitrary: w) (simp_all add: walk_domain_reasons)

lemma walk_provider_reasons:
  "reasons_count (w_reasons (walk_provider img check w p)) =
     reasons_count (w_reasons w) + length (filter (\<lambda>fd. check p fd \<noteq> Accept) (domains_of p))"
  "length (rj_kept (w_reasons w)) \<le> MAX_REJECT_REASONS \<Longrightarrow>
     length (rj_kept (w_reasons (walk_provider img check w p))) \<le> MAX_REJECT_REASONS"
  by (simp_all add: walk_provider_def walk_domains_reasons)

lemma walk_reasons:
  "reasons_count (w_reasons (foldl (walk_provider img check) w ps)) =
     reasons_count (w_reasons w) + length (concat (map (\<lambda>p. filter (\<lambda>fd. check p fd \<noteq> Accept) (domains_of p)) ps))"
  "length (rj_kept (w_reasons w)) \<le> MAX_REJECT_REASONS \<Longrightarrow>
     length (rj_kept (w_reasons (foldl (walk_provider img check) w ps))) \<le> MAX_REJECT_REASONS"
  by (induction ps arbitrary: w) (simp_all add: walk_provider_reasons)

text \<open>
  The condition message stays bounded and honest: at most ten reject reasons are kept, and kept
  plus omitted is exactly the number of rejected (provider, failure domain) pairs.
\<close>

theorem reject_reasons_bounded:
  "length (rj_kept (w_reasons (final_walk vm cls img providers existing classes))) \<le> 10
    \<and> length (rj_kept (w_reasons (final_walk vm cls img providers existing classes)))
        + rj_omitted (w_reasons (final_walk vm cls img providers existing classes))
      = length (concat (map (\<lambda>p. filter (\<lambda>fd. \<not> eligible vm cls img existing classes p fd) (domains_of p))
          (live_candidates vm providers)))"
  using walk_reasons [where img = img and check = "check_domain vm cls img existing (classes_by_name classes)"
      and w = walk_init and ps = "live_candidates vm providers"]
  by (simp add: final_walk_def walk_init_def reasons_count_def MAX_REJECT_REASONS_def check_domain_Accept)

subsection \<open>Hardware overrides are not counted\<close>

definition with_override :: "hardware_override option \<Rightarrow> virtual_machine \<Rightarrow> virtual_machine" where
  "with_override ho vm = vm\<lparr>vm_spec := (vm_spec vm)\<lparr>vs_hardware_override := ho\<rparr>\<rparr>"

lemma with_override_simps [simp]:
  "vm_meta (with_override ho vm) = vm_meta vm"
  "vm_status (with_override ho vm) = vm_status vm"
  "vs_placement (vm_spec (with_override ho vm)) = vs_placement (vm_spec vm)"
  "vs_class_ref (vm_spec (with_override ho vm)) = vs_class_ref (vm_spec vm)"
  by (simp_all add: with_override_def)

lemma others_on_override:
  "others_on (with_override ho vm) (map (with_override ho) existing) pn fdn =
     map (with_override ho) (others_on vm existing pn fdn)"
  by (simp add: others_on_def filter_map comp_def scheduled_on_def)

lemma usage_on_override:
  "usage_on (with_override ho vm) (map (with_override ho) existing) classes pn fdn overhead =
     usage_on vm existing classes pn fdn overhead"
proof -
  have "add_usage classes overhead u (with_override ho v) = add_usage classes overhead u v" for u v
    by (simp add: add_usage_def)
  then show ?thesis by (simp add: usage_on_def others_on_override foldl_map)
qed

lemma placement_load_override:
  "placement_load (with_override ho vm) (map (with_override ho) existing) pn fdn = placement_load vm existing pn fdn"
proof -
  have "same_group (with_override ho vm) (with_override ho v) = same_group vm v" for v
    by (simp add: same_group_def)
  then show ?thesis
    by (simp add: placement_load_eq others_on_override filter_map comp_def)
qed

lemma check_domain_override:
  "check_domain (with_override ho vm) cls img (map (with_override ho) existing) classes p fd =
     check_domain vm cls img existing classes p fd"
proof -
  have *: "domain_shortfall (with_override ho vm) cls (map (with_override ho) existing) classes p fd =
      domain_shortfall vm cls existing classes p fd"
    unfolding domain_shortfall_def usage_on_override ..
  show ?thesis
    unfolding check_domain_def with_override_simps * ..
qed

lemma rule_allows_override: "rule_allows r (map (with_override ho) existing) fd = rule_allows r existing fd"
proof -
  have *: "blocked_topology_values r (map (with_override ho) existing) = blocked_topology_values r existing"
    by (simp add: blocked_topology_values_def filter_map comp_def List.map_filter_def)
  show ?thesis unfolding rule_allows_def * ..
qed

lemma anti_affinity_override:
  "apply_anti_affinity (map (with_override ho) existing) rules ss = apply_anti_affinity existing rules ss"
proof (induction rules arbitrary: ss)
  case (Cons r rules)
  show ?case unfolding apply_anti_affinity.simps rule_allows_override Cons.IH ..
qed simp

text \<open>
  The scheduler ignores hardware overrides: giving the VM, or every VM, another
  \<^verbatim>\<open>hardwareOverride\<close> changes no placement decision, although the infrastructure resources are built
  with the overridden CPU count and memory.
\<close>

theorem schedule_ignores_hardware_override:
  "schedule (with_override ho vm) cls img providers (map (with_override ho) existing) classes =
     schedule vm cls img providers existing classes"
proof -
  have *: "spread_le (with_override ho vm) (map (with_override ho) existing) = spread_le vm existing"
    by (simp add: fun_eq_iff spread_le_def spread_key_def placement_load_override)
  have **: "check_domain (with_override ho vm) cls img (map (with_override ho) existing) (classes_by_name classes)
      = check_domain vm cls img existing (classes_by_name classes)"
    by (simp add: fun_eq_iff check_domain_override)
  show ?thesis
    unfolding schedule_def choose_survivor_def with_override_simps anti_affinity_override * ** ..
qed

subsection \<open>Concrete placements\<close>

definition demo_meta :: "string \<Rightarrow> btmap \<Rightarrow> object_meta" where
  "demo_meta n ls = empty_meta\<lparr>om_name := Some n, om_namespace := Some ''ns'', om_labels := Some ls\<rparr>"

definition demo_vm_spec :: "anti_affinity_rule list \<Rightarrow> virtual_machine_spec" where
  "demo_vm_spec rules = \<lparr>vs_class_ref = \<lparr>lor_name = ''small''\<rparr>, vs_image_ref = \<lparr>lor_name = ''img''\<rparr>,
     vs_placement = \<lparr>ps_provider_selector = None, ps_failure_domain_selector = None, ps_anti_affinity = rules\<rparr>,
     vs_desired_power_state = PoweredOn, vs_user_data = None, vs_migration_policy = Automatic,
     vs_paused = False, vs_network_overrides = [], vs_hardware_override = None, vs_folder = None\<rparr>"

definition demo_placed :: "string \<Rightarrow> scheduled_placement" where
  "demo_placed fdn = \<lparr>sp_provider_name = ''prov'', sp_provider_class = ''libvirt'', sp_failure_domain = fdn,
     sp_resolved_storage = [], sp_resolved_networks = [], sp_scheduled_at = None\<rparr>"

definition demo_vm :: "string \<Rightarrow> btmap \<Rightarrow> anti_affinity_rule list \<Rightarrow> string option \<Rightarrow> virtual_machine" where
  "demo_vm n ls rules placed = \<lparr>vm_meta = demo_meta n ls, vm_spec = demo_vm_spec rules,
     vm_status = Some (default_vm_status\<lparr>vst_scheduled := map_option demo_placed placed\<rparr>)\<rparr>"

definition demo_class :: "firmware \<Rightarrow> nat \<Rightarrow> vm_class" where
  "demo_class fw mem = \<lparr>vc_meta = demo_meta ''small'' [],
     vc_spec = \<lparr>vcs_hardware = \<lparr>hs_cpus = 2, hs_memory_mib = mem, hs_disks = []\<rparr>,
       vcs_network = \<lparr>ns_interfaces = []\<rparr>, vcs_firmware = fw, vcs_features = [], vcs_tpm_enabled = False\<rparr>\<rparr>"

definition demo_image :: vm_image where
  "demo_image = \<lparr>vmi_meta = demo_meta ''img'' [],
     vmi_spec = \<lparr>vi_os_family = Linux, vi_os_distribution = ''ubuntu'', vi_os_version = ''24.04'', vi_architecture = Amd64,
       vi_guest_agent = CloudInit, vi_sources = [], vi_cloud_configs = [], vi_template = None, vi_iso_overlay = None,
       vi_trusted_boot = None, vi_first_boot_sealing = None, vi_prelay = None\<rparr>,
     vmi_status = Some \<lparr>vist_per_provider = [\<lparr>ipp_provider_name = ''prov'', ipp_provider_namespace = ''ns'', ipp_ready = True,
         ipp_resolved_ref = None, ipp_reason = None, ipp_message = None, ipp_zones = []\<rparr>],
       vist_build_artifact = None, vist_conditions = [], vist_observed_generation = None, vist_first_boot_sealing = None\<rparr>\<rparr>"

definition demo_domain :: "string \<Rightarrow> btmap \<Rightarrow> string list \<Rightarrow> nat option \<Rightarrow> failure_domain" where
  "demo_domain n ls fs mem = \<lparr>fd_name = n, fd_labels = ls,
     fd_attributes = \<lparr>fda_available_storage_classes = [], fda_available_network_classes = [], fda_features = fs, fda_raw = [],
       fda_capacity = map_option (\<lambda>m. \<lparr>fdc_cpus = None, fdc_memory_mib = Some m, fdc_memory_overhead_mib_per_vm = None\<rparr>) mem\<rparr>\<rparr>"

definition demo_provider :: "failure_domain list \<Rightarrow> provider" where
  "demo_provider fds = \<lparr>p_meta = demo_meta ''prov'' [],
     p_spec = \<lparr>prs_provider_class_ref = \<lparr>lor_name = ''libvirt''\<rparr>,
       prs_connection = \<lparr>pc_endpoint = ''qemu'', pc_credentials_ref = None, pc_insecure_skip_tls_verify = False, pc_ca_bundle = None\<rparr>,
       prs_capabilities = \<lparr>pcap_storage_classes = [], pcap_network_classes = [], pcap_features = []\<rparr>,
       prs_paused = False, prs_use_content_library = False, prs_failure_domain_name_overrides = [],
       prs_attestation = None, prs_scheduling = None\<rparr>,
     p_status = Some \<lparr>pst_failure_domains = fds, pst_conditions = [], pst_workload = None, pst_ek_ca_certificates = [],
       pst_observed_generation = None\<rparr>\<rparr>"

definition demo_rule :: "string \<Rightarrow> anti_affinity_rule" where
  "demo_rule key = \<lparr>aar_topology_key = key,
     aar_label_selector = \<lparr>ls_match_labels = [(''app'', ''db'')], ls_match_expressions = []\<rparr>, aar_mode = Required\<rparr>"

text \<open>
  Anti-affinity makes a placed VM evict itself: a VM that is the only match of its own required
  rule on \<^verbatim>\<open>name\<close> is scheduled while unplaced, and finds no candidate once its placement is recorded,
  because the rule counts the VM's own placement against it.
\<close>

theorem anti_affinity_blocks_itself:
  "let vm = (\<lambda>placed. demo_vm ''db-0'' [(''app'', ''db'')] [demo_rule ''name''] placed);
       p = demo_provider [demo_domain ''z1'' [(''name'', ''z1'')] [] None]
   in (map_sum id d_failure_domain_name (schedule (vm None) (demo_class Efi 512) demo_image [p] [vm None] []) = Inr ''z1'')
    \<and> schedule (vm (Some ''z1'')) (demo_class Efi 512) demo_image [p] [vm (Some ''z1'')] []
        = Inl (AntiAffinityUnsatisfied ''name'')"
  by code_simp

text \<open>
  Anti-affinity does not read labels: two failure domains of one rack, a sibling on the first, and
  a required rule on \<^verbatim>\<open>rack\<close>; the second is still chosen, because the value compared is the sibling's
  failure domain name.
\<close>

theorem anti_affinity_ignores_topology_labels:
  "map_sum id d_failure_domain_name
     (schedule (demo_vm ''db-1'' [(''app'', ''db'')] [demo_rule ''rack''] None) (demo_class Efi 512) demo_image
       [demo_provider [demo_domain ''z2'' [(''rack'', ''r1'')] [] None]]
       [demo_vm ''db-0'' [(''app'', ''db'')] [] (Some ''z1'')] []) = Inr ''z2''"
  by code_simp

text \<open>
  The firmware error can be wrong: a domain that advertises \<^verbatim>\<open>efiSecureBoot\<close> but lacks memory and
  one that does not advertise it give \<^verbatim>\<open>FirmwareUnsupported\<close>, whose text says that none of the
  candidates advertise it.
\<close>

theorem firmware_error_misattributed:
  "schedule (demo_vm ''vm'' [] [] None) (demo_class EfiSecure 512) demo_image
     [demo_provider [demo_domain ''z1'' [] [] None, demo_domain ''z2'' [] [''efiSecureBoot''] (Some 100)]] [] []
   = Inl FirmwareUnsupported"
  by code_simp

lemma demo_schedule:
  "schedule (demo_vm ''vm'' [] [] None) (demo_class Efi 512) demo_image
     [demo_provider [demo_domain ''z1'' [] [] (Some 600)]] [] [demo_class Efi 512]
   = Inr (build_decision (demo_class Efi 512) (demo_provider [demo_domain ''z1'' [] [] (Some 600)]) (demo_domain ''z1'' [] [] (Some 600)))"
  by code_simp


theorem schedule_memory_fits_witness:
  "\<exists>p fd. fd \<in> set (domains_of p) \<and> p \<in> set [demo_provider [demo_domain ''z1'' [] [] (Some 600)]]"
  using schedule_memory_fits [OF demo_schedule] by blast

end
