(* ===== verification/Migration.thy ===== *)
theory Migration
  imports Scheduler
begin

section \<open>Placement drift\<close>

text \<open>
  Model of \<^verbatim>\<open>crates/banlieue-controller/src/reconciler/migration.rs\<close>: what to do when the scheduler's
  decision differs from the recorded placement.  The lemmas characterise drift and the action by policy.
\<close>

definition ANNOTATION_MIGRATE :: string where "ANNOTATION_MIGRATE = ''banlieue.io/migrate''"
definition ANNOTATION_MIGRATE_TRUE :: string where "ANNOTATION_MIGRATE_TRUE = ''true''"

datatype placement_drift_reason =
    ProviderChanged string string
  | FailureDomainChanged string string string
  | StorageChanged
  | NetworkChanged

datatype migration_action =
    InPlace
  | StickToOld
  | SurfaceOnly placement_drift_reason
  | Recreate placement_drift_reason

fun drift_reason :: "placement_drift_reason \<Rightarrow> string" where
  "drift_reason (ProviderChanged _ _) = ''ProviderChanged''"
| "drift_reason (FailureDomainChanged _ _ _) = ''FailureDomainChanged''"
| "drift_reason StorageChanged = ''StorageMappingChanged''"
| "drift_reason NetworkChanged = ''NetworkMappingChanged''"

text \<open>The byte 39 is the apostrophe.\<close>

definition quoted :: "string \<Rightarrow> string" where
  "quoted s = [char_of (39 :: nat)] @ s @ [char_of (39 :: nat)]"

fun drift_message :: "placement_drift_reason \<Rightarrow> string" where
  "drift_message (ProviderChanged from to) =
     ''scheduler now prefers provider '' @ quoted to @ '' over the previously scheduled '' @ quoted from"
| "drift_message (FailureDomainChanged provider from to) =
     ''scheduler now prefers failure domain '' @ quoted to @ '' on provider '' @ quoted provider
       @ '' (was '' @ quoted from @ '')''"
| "drift_message StorageChanged =
     ''scheduler resolved storage classes to different backends than the recorded placement''"
| "drift_message NetworkChanged =
     ''scheduler resolved network classes to different backends than the recorded placement''"

definition detect_drift :: "scheduled_placement \<Rightarrow> decision \<Rightarrow> placement_drift_reason option" where
  "detect_drift current d =
     (if sp_provider_name current \<noteq> d_provider_name d
      then Some (ProviderChanged (sp_provider_name current) (d_provider_name d))
      else if sp_failure_domain current \<noteq> d_failure_domain_name d
      then Some (FailureDomainChanged (sp_provider_name current) (sp_failure_domain current) (d_failure_domain_name d))
      else if sp_resolved_storage current \<noteq> d_resolved_storage d then Some StorageChanged
      else if sp_resolved_networks current \<noteq> d_resolved_networks d then Some NetworkChanged
      else None)"

definition migrate_annotation_set :: "virtual_machine \<Rightarrow> bool" where
  "migrate_annotation_set vm =
     (map_of (meta_annotations (vm_meta vm)) ANNOTATION_MIGRATE = Some ANNOTATION_MIGRATE_TRUE)"

definition evaluate :: "virtual_machine \<Rightarrow> decision \<Rightarrow> migration_action" where
  "evaluate vm d =
     (case Option.bind (vm_status vm) vst_scheduled of
        None \<Rightarrow> InPlace
      | Some current \<Rightarrow> (case detect_drift current d of
          None \<Rightarrow> InPlace
        | Some drift \<Rightarrow> (case vs_migration_policy (vm_spec vm) of
            Never \<Rightarrow> StickToOld
          | Manual \<Rightarrow> if migrate_annotation_set vm then Recreate drift else SurfaceOnly drift
          | Automatic \<Rightarrow> Recreate drift)))"

lemma detect_drift_None:
  "(detect_drift current d = None) =
     (sp_provider_name current = d_provider_name d \<and> sp_failure_domain current = d_failure_domain_name d
      \<and> sp_resolved_storage current = d_resolved_storage d \<and> sp_resolved_networks current = d_resolved_networks d)"
  by (simp add: detect_drift_def)

text \<open>Recording a decision is stable: right after it is written, the same decision is no drift.\<close>

lemma detect_drift_recorded [simp]: "detect_drift (to_scheduled_placement d now) d = None"
  by (simp add: detect_drift_def to_scheduled_placement_def)

lemma evaluate_Recreate_iff:
  "(evaluate vm d = Recreate r) =
     (\<exists>s current. vm_status vm = Some s \<and> vst_scheduled s = Some current \<and> detect_drift current d = Some r
        \<and> (vs_migration_policy (vm_spec vm) = Automatic
           \<or> vs_migration_policy (vm_spec vm) = Manual \<and> migrate_annotation_set vm))"
  by (auto simp: evaluate_def bind_eq_Some_conv split: option.splits migration_policy.splits)

text \<open>The action depends on the status only through the recorded placement.\<close>

lemma evaluate_status_cong:
  assumes "Option.bind st' vst_scheduled = Option.bind (vm_status vm) vst_scheduled"
  shows "evaluate (vm\<lparr>vm_status := st'\<rparr>) d = evaluate vm d"
  using assms by (simp add: evaluate_def migrate_annotation_set_def split: option.split)

definition placement_matches :: "scheduled_placement \<Rightarrow> decision \<Rightarrow> bool" where
  "placement_matches current d =
     (sp_provider_name current = d_provider_name d \<and> sp_failure_domain current = d_failure_domain_name d
      \<and> sp_resolved_storage current = d_resolved_storage d \<and> sp_resolved_networks current = d_resolved_networks d)"

definition drifted :: "virtual_machine \<Rightarrow> decision \<Rightarrow> bool" where
  "drifted vm d = (\<exists>s current. vm_status vm = Some s \<and> vst_scheduled s = Some current \<and> \<not> placement_matches current d)"

lemma drifted_iff:
  "drifted vm d = (\<exists>s current r. vm_status vm = Some s \<and> vst_scheduled s = Some current \<and> detect_drift current d = Some r)"
  by (simp add: drifted_def placement_matches_def detect_drift_None [symmetric])

text \<open>
  Drift is acted on exactly as the policy allows: a recorded placement is replaced only when it
  differs from the decision in provider, failure domain, storage or network, and then only with
  \<^verbatim>\<open>Automatic\<close>, or with \<^verbatim>\<open>Manual\<close> and the annotation; with \<^verbatim>\<open>Manual\<close> alone it is reported and with
  \<^verbatim>\<open>Never\<close> kept; and a placement recorded from a decision is never drift for that decision.
\<close>

theorem evaluate_by_policy:
  "(\<exists>r. evaluate vm d = Recreate r) = (drifted vm d \<and> (vs_migration_policy (vm_spec vm) = Automatic
        \<or> vs_migration_policy (vm_spec vm) = Manual \<and> migrate_annotation_set vm))
    \<and> (\<exists>r. evaluate vm d = SurfaceOnly r) =
        (drifted vm d \<and> vs_migration_policy (vm_spec vm) = Manual \<and> \<not> migrate_annotation_set vm)
    \<and> (evaluate vm d = StickToOld) = (drifted vm d \<and> vs_migration_policy (vm_spec vm) = Never)
    \<and> \<not> drifted (vm\<lparr>vm_status := Some (s\<lparr>vst_scheduled := Some (to_scheduled_placement d now)\<rparr>)\<rparr>) d"
proof -
  have "(\<exists>r. evaluate vm d = SurfaceOnly r) =
        (drifted vm d \<and> vs_migration_policy (vm_spec vm) = Manual \<and> \<not> migrate_annotation_set vm)"
    and "(evaluate vm d = StickToOld) = (drifted vm d \<and> vs_migration_policy (vm_spec vm) = Never)"
    by (auto simp: evaluate_def drifted_iff bind_eq_Some_conv split: option.splits migration_policy.splits)
  moreover have "\<not> drifted (vm\<lparr>vm_status := Some (s\<lparr>vst_scheduled := Some (to_scheduled_placement d now)\<rparr>)\<rparr>) d"
    by (simp add: drifted_iff)
  ultimately show ?thesis
    unfolding evaluate_Recreate_iff drifted_iff by blast
qed

end
