(* ===== verification/Conditions.thy ===== *)
theory Conditions
  imports Api_Types
begin

section \<open>Conditions, finalizers and requeues\<close>

text \<open>
  Model of three files of \<^verbatim>\<open>crates/banlieue-provider-sdk/src\<close>: \<^verbatim>\<open>status.rs\<close> (the condition list
  every status carries), the list computations of \<^verbatim>\<open>finalizer.rs\<close>, and \<^verbatim>\<open>reconciler.rs\<close>.  The
  clock read of \<^verbatim>\<open>set_condition\<close> is the argument \<open>now\<close>.  The lemmas show that a condition list
  behaves as a map from types to conditions, that it stays sorted with one entry per type, and that a
  transition time moves exactly when a status changes.
\<close>

subsection \<open>Definitions\<close>

definition TRUE :: string where "TRUE = ''True''"
definition FALSE :: string where "FALSE = ''False''"
definition UNKNOWN :: string where "UNKNOWN = ''Unknown''"

definition type_le :: "condition \<Rightarrow> condition \<Rightarrow> bool" where
  "type_le a b = (c_type a \<le> c_type b)"

definition refresh_condition ::
  "string \<Rightarrow> string \<Rightarrow> string \<Rightarrow> int \<Rightarrow> timestamp \<Rightarrow> condition \<Rightarrow> condition" where
  "refresh_condition status reason message g now existing =
     (if c_status existing = status
      then existing\<lparr>c_reason := reason, c_message := message, c_observed_generation := Some g\<rparr>
      else existing\<lparr>c_status := status, c_reason := reason, c_message := message,
             c_observed_generation := Some g, c_last_transition_time := now\<rparr>)"

fun upsert_condition ::
  "condition list \<Rightarrow> string \<Rightarrow> string \<Rightarrow> string \<Rightarrow> string \<Rightarrow> int \<Rightarrow> timestamp \<Rightarrow> condition list" where
  "upsert_condition [] ty status reason message g now =
     [\<lparr>c_type = ty, c_status = status, c_observed_generation = Some g, c_last_transition_time = now,
       c_reason = reason, c_message = message\<rparr>]"
| "upsert_condition (c # cs) ty status reason message g now =
     (if c_type c = ty then refresh_condition status reason message g now c # cs
      else c # upsert_condition cs ty status reason message g now)"

definition set_condition ::
  "condition list \<Rightarrow> string \<Rightarrow> string \<Rightarrow> string \<Rightarrow> string \<Rightarrow> int \<Rightarrow> timestamp \<Rightarrow> condition list" where
  "set_condition cs ty status reason message g now =
     sort_by type_le (upsert_condition cs ty status reason message g now)"

definition is_condition_true :: "condition list \<Rightarrow> string \<Rightarrow> bool" where
  "is_condition_true cs ty = list_ex (\<lambda>c. c_type c = ty \<and> c_status c = TRUE) cs"

definition find_condition :: "condition list \<Rightarrow> string \<Rightarrow> condition option" where
  "find_condition cs ty = find (\<lambda>c. c_type c = ty) cs"

definition declared_addresses :: "ipam_spec list \<Rightarrow> machine_address list" where
  "declared_addresses ipams =
     map (\<lambda>cfg. \<lparr>ma_type = InternalIP, ma_address = sic_address cfg\<rparr>) (List.map_filter is_static ipams)"

definition finalizer_list_with :: "string list \<Rightarrow> string \<Rightarrow> string list option" where
  "finalizer_list_with current f = (if list_ex (\<lambda>x. x = f) current then None else Some (current @ [f]))"

definition finalizer_list_without :: "string list \<Rightarrow> string \<Rightarrow> string list option" where
  "finalizer_list_without current f =
     (let nxt = filter (\<lambda>x. x \<noteq> f) current in if length nxt = length current then None else Some nxt)"

text \<open>\<^verbatim>\<open>kube::runtime::controller::Action\<close> and the SDK's choices of interval, in seconds.\<close>

datatype action = Requeue nat | AwaitChange

definition requeue_default :: action where "requeue_default = Requeue 30"
definition requeue_on_error :: action where "requeue_on_error = Requeue 5"
definition requeue_long :: action where "requeue_long = Requeue 300"
definition no_requeue :: action where "no_requeue = AwaitChange"

definition serves :: "string option \<Rightarrow> string \<Rightarrow> bool" where
  "serves provider_name machine_provider =
     (case provider_name of None \<Rightarrow> True | Some mine \<Rightarrow> mine = machine_provider)"

definition providers_in_scope :: "provider list \<Rightarrow> string option \<Rightarrow> provider list" where
  "providers_in_scope providers provider_name =
     filter (\<lambda>p. serves provider_name (case om_name (p_meta p) of Some n \<Rightarrow> n | None \<Rightarrow> '''')) providers"

subsection \<open>A condition list is a map from types to conditions\<close>

interpretation by_type: comparator_le type_le
  by unfold_locales (auto simp: type_le_def)

lemma find_ins_by: "find (\<lambda>c. c_type c = ty) (ins_by type_le x xs) = find (\<lambda>c. c_type c = ty) (x # xs)"
proof (induction xs)
  case (Cons y ys)
  have "type_le x y" if "c_type x = c_type y"
    using that by (simp add: type_le_def)
  with Cons show ?case by auto
qed simp

lemma find_condition_sort [simp]: "find_condition (sort_by type_le xs) ty = find_condition xs ty"
  unfolding find_condition_def by (induction xs) (simp_all add: find_ins_by)

lemma find_condition_upsert_other:
  "ty' \<noteq> ty \<Longrightarrow> find_condition (upsert_condition cs ty st r m g now) ty' = find_condition cs ty'"
  unfolding find_condition_def by (induction cs) (auto simp: refresh_condition_def)

lemma find_condition_upsert_same:
  "find_condition (upsert_condition cs ty st r m g now) ty =
     Some \<lparr>c_type = ty, c_status = st, c_observed_generation = Some g,
       c_last_transition_time =
         (case find_condition cs ty of
            Some c \<Rightarrow> if c_status c = st then c_last_transition_time c else now
          | None \<Rightarrow> now),
       c_reason = r, c_message = m\<rparr>"
  unfolding find_condition_def by (induction cs) (auto simp: refresh_condition_def)

text \<open>
  What a status writer relies on: an upsert decides the lookup of its own type and of no other.
\<close>

locale condition_store =
  fixes upd :: "'cs \<Rightarrow> string \<Rightarrow> string \<Rightarrow> string \<Rightarrow> string \<Rightarrow> int \<Rightarrow> timestamp \<Rightarrow> 'cs"
    and lookup :: "'cs \<Rightarrow> string \<Rightarrow> condition option"
  assumes lookup_same: "\<exists>c. lookup (upd cs ty st r m g now) ty = Some c \<and> c_type c = ty \<and> c_status c = st
      \<and> c_reason c = r \<and> c_message c = m \<and> c_observed_generation c = Some g"
    and lookup_other: "ty' \<noteq> ty \<Longrightarrow> lookup (upd cs ty st r m g now) ty' = lookup cs ty'"
begin

lemma status_same: "map_option c_status (lookup (upd cs ty st r m g now) ty) = Some st"
  using lookup_same [of cs ty st r m g now] by auto

lemma reason_same: "map_option c_reason (lookup (upd cs ty st r m g now) ty) = Some r"
  using lookup_same [of cs ty st r m g now] by auto

lemma commute:
  assumes "ty \<noteq> ty'"
  shows "map_option c_status (lookup (upd (upd cs ty st r m g now) ty' st' r' m' g' now') t) =
    map_option c_status (lookup (upd (upd cs ty' st' r' m' g' now') ty st r m g now) t)"
  using assms by (cases "t = ty"; cases "t = ty'") (simp_all add: lookup_other status_same)

lemma last_wins: "map_option c_status (lookup (upd (upd cs ty st r m g now) ty st' r' m' g' now') ty) = Some st'"
  by (rule status_same)

end

interpretation conds: condition_store set_condition find_condition
  by unfold_locales (simp_all add: set_condition_def find_condition_upsert_same find_condition_upsert_other)

lemma find_condition_set_same:
  "find_condition (set_condition cs ty st r m g now) ty =
     Some \<lparr>c_type = ty, c_status = st, c_observed_generation = Some g,
       c_last_transition_time =
         (case find_condition cs ty of
            Some c \<Rightarrow> if c_status c = st then c_last_transition_time c else now
          | None \<Rightarrow> now),
       c_reason = r, c_message = m\<rparr>"
  by (simp add: set_condition_def find_condition_upsert_same)

definition conditions_wf :: "condition list \<Rightarrow> bool" where
  "conditions_wf cs = (sorted (map c_type cs) \<and> distinct (map c_type cs))"

lemma types_upsert:
  "map c_type (upsert_condition cs ty st r m g now) =
     (if ty \<in> set (map c_type cs) then map c_type cs else map c_type cs @ [ty])"
  by (induction cs) (auto simp: refresh_condition_def)

lemma sorted_types_sort: "sorted (map c_type (sort_by type_le xs))"
  using by_type.sorted_sort_by [of xs] unfolding sorted_map by (rule sorted_wrt_mono_rel [rotated]) (simp add: type_le_def)

lemma distinct_types_sort: "distinct (map c_type (sort_by type_le xs)) \<longleftrightarrow> distinct (map c_type xs)"
  by (metis mset_map mset_sort_by mset_eq_imp_distinct_iff)

lemma set_condition_wf: "distinct (map c_type cs) \<Longrightarrow> conditions_wf (set_condition cs ty st r m g now)"
  by (simp add: conditions_wf_def set_condition_def sorted_types_sort distinct_types_sort types_upsert)

lemma is_condition_true_iff:
  assumes "distinct (map c_type cs)"
  shows "is_condition_true cs ty \<longleftrightarrow> (\<exists>c. find_condition cs ty = Some c \<and> c_status c = TRUE)"
  using assms unfolding is_condition_true_def find_condition_def
  by (induction cs) (auto simp: list_ex_iff image_iff)

text \<open>
  \<^verbatim>\<open>set_condition\<close> is an upsert: afterwards the type has the given status, reason, message and
  generation; its transition time is kept exactly when the status was already the same, and is \<open>now\<close>
  otherwise; every other type reads as before; and the list is sorted by type with one entry per type
  whenever it had one entry per type.
\<close>

theorem set_condition_upserts:
  "find_condition (set_condition cs ty st r m g now) t =
     (if t = ty then Some \<lparr>c_type = ty, c_status = st, c_observed_generation = Some g,
        c_last_transition_time =
          (case find_condition cs ty of
             Some c \<Rightarrow> if c_status c = st then c_last_transition_time c else now
           | None \<Rightarrow> now),
        c_reason = r, c_message = m\<rparr>
      else find_condition cs t)
    \<and> sorted (map c_type (set_condition cs ty st r m g now))
    \<and> (conditions_wf (set_condition cs ty st r m g now) = distinct (map c_type cs))"
proof (intro conjI)
  show "conditions_wf (set_condition cs ty st r m g now) = distinct (map c_type cs)"
    by (simp add: conditions_wf_def set_condition_def sorted_types_sort distinct_types_sort types_upsert)
qed (simp_all add: find_condition_set_same conds.lookup_other set_condition_def sorted_types_sort find_condition_upsert_other
    find_condition_upsert_same)

subsection \<open>Finalizer lists\<close>

lemma finalizer_with_present:
  "f \<in> set (case finalizer_list_with fs f of Some gs \<Rightarrow> gs | None \<Rightarrow> fs)"
  by (auto simp: finalizer_list_with_def list_ex_iff)

lemma finalizer_without_absent:
  "f \<notin> set (case finalizer_list_without fs f of Some gs \<Rightarrow> gs | None \<Rightarrow> fs)"
proof (cases "f \<in> set fs")
  case True
  then have "length (filter (\<lambda>x. x \<noteq> f) fs) < length fs"
    by (metis (mono_tags, lifting) length_filter_less)
  then show ?thesis by (simp add: finalizer_list_without_def Let_def)
next
  case False
  then have "filter (\<lambda>x. x \<noteq> f) fs = fs"
    by (auto simp: filter_id_conv)
  with False show ?thesis by (simp add: finalizer_list_without_def Let_def)
qed

text \<open>
  Finalizers: adding leaves the finalizer present and every other one where it was; removing
  leaves it absent and keeps every other one in order; and each is a no-op (no patch is sent) exactly
  when there is nothing to do, so removing what was just added restores the list.
\<close>

theorem finalizer_lists_correct:
  "f \<in> set (case finalizer_list_with fs f of Some gs \<Rightarrow> gs | None \<Rightarrow> fs)
    \<and> f \<notin> set (case finalizer_list_without fs f of Some gs \<Rightarrow> gs | None \<Rightarrow> fs)
    \<and> (finalizer_list_with fs f = None) = (f \<in> set fs)
    \<and> (finalizer_list_without fs f = None) = (f \<notin> set fs)
    \<and> filter (\<lambda>x. x \<noteq> f) (case finalizer_list_with fs f of Some gs \<Rightarrow> gs | None \<Rightarrow> fs) = filter (\<lambda>x. x \<noteq> f) fs
    \<and> (case finalizer_list_without fs f of Some gs \<Rightarrow> gs | None \<Rightarrow> fs) = filter (\<lambda>x. x \<noteq> f) fs"
proof -
  have iff: "length (filter (\<lambda>x. x \<noteq> f) fs) = length fs \<longleftrightarrow> f \<notin> set fs"
    by (metis (mono_tags, lifting) filter_True length_filter_less less_irrefl)
  then have "f \<notin> set fs \<Longrightarrow> filter (\<lambda>x. x \<noteq> f) fs = fs"
    by (auto simp: filter_id_conv)
  with iff show ?thesis
    using finalizer_with_present [of f fs] finalizer_without_absent [of f fs]
    by (auto simp: finalizer_list_with_def finalizer_list_without_def list_ex_iff Let_def)
qed

end
