(* ===== verification/Infra_Types.thy ===== *)
theory Infra_Types
  imports Image_Types
begin

section \<open>The infrastructure types\<close>

text \<open>
  Model of \<^verbatim>\<open>crates/banlieue-api/src/infrastructure\<close>: the machine types of the four backends and
  \<^verbatim>\<open>VSphereCluster\<close>, with the methods defined on them.  A constructor whose name another enum already
  uses carries a prefix of its own enum.
\<close>

subsection \<open>VSphereMachine\<close>

record vsphere_disk_spec =
  vsd_name :: string
  vsd_size_gib :: nat
  vsd_provisioning :: disk_provisioning

record vsphere_nic_spec =
  vsn_name :: string
  vsn_port_group :: string
  vsn_mac_address :: "string option"
  vsn_ipam :: ipam_spec

record vsphere_machine_spec =
  vms_provider_id :: "string option"
  vms_failure_domain :: "string option"
  vms_provider_ref :: local_object_reference
  vms_template :: string
  vms_template_folder :: "string option"
  vms_datacenter :: string
  vms_cluster :: string
  vms_datastore :: string
  vms_folder :: "string option"
  vms_resource_pool :: "string option"
  vms_num_cpus :: nat
  vms_memory_mib :: nat
  vms_firmware :: firmware
  vms_tpm_enabled :: bool
  vms_disks :: "vsphere_disk_spec list"
  vms_network :: "vsphere_nic_spec list"
  vms_user_data :: "string option"
  vms_desired_power_state :: power_state
  vms_created_by :: "string option"
  vms_first_boot_sealing :: "first_boot_sealing option"

record vsphere_machine_status =
  vmst_initialization :: initialization_status
  vmst_failure_domain :: "string option"
  vmst_addresses :: "machine_address list"
  vmst_vm_ref :: "string option"
  vmst_instance_uuid :: "string option"
  vmst_observed_power_state :: "power_state option"
  vmst_tpm_attached :: "bool option"
  vmst_guest_installed :: "bool option"
  vmst_install_media_detached :: "bool option"
  vmst_sealed_partitions :: "string list"
  vmst_tpm_endorsement_certificates :: "string list"
  vmst_conditions :: "condition list"
  vmst_observed_generation :: "int option"

record vsphere_machine =
  vsm_meta :: object_meta
  vsm_spec :: vsphere_machine_spec
  vsm_status :: "vsphere_machine_status option"

subsection \<open>LibvirtMachine\<close>

datatype libvirt_boot_source_kind = BackingVolume | InstallMedia

record libvirt_boot_source =
  lbs_kind :: libvirt_boot_source_kind
  lbs_volume :: string

definition libvirt_needs_empty_os_disk :: "libvirt_boot_source \<Rightarrow> bool" where
  "libvirt_needs_empty_os_disk b = (lbs_kind b = InstallMedia)"

definition libvirt_needs_install_cdrom :: "libvirt_boot_source \<Rightarrow> bool" where
  "libvirt_needs_install_cdrom b = (lbs_kind b = InstallMedia)"

datatype libvirt_disk_bus = Virtio | Scsi | Sata

record libvirt_disk_spec =
  lds_name :: string
  lds_size_gib :: nat
  lds_bus :: libvirt_disk_bus

datatype libvirt_nic_source_kind = Network | Bridge

record libvirt_nic_source =
  lns_kind :: libvirt_nic_source_kind
  lns_name :: string

definition has_dhcp_leases :: "libvirt_nic_source \<Rightarrow> bool" where
  "has_dhcp_leases s = (lns_kind s = Network)"

record libvirt_nic_spec =
  lnc_name :: string
  lnc_source :: libvirt_nic_source
  lnc_model :: "string option"
  lnc_mac_address :: "string option"
  lnc_ipam :: ipam_spec

datatype libvirt_address_source = LibvirtGuestAgent | DhcpLease | ArpTable | LibvirtStatic

record libvirt_machine_spec =
  lms_provider_id :: "string option"
  lms_failure_domain :: "string option"
  lms_provider_ref :: local_object_reference
  lms_pool :: string
  lms_domain_name :: string
  lms_boot_source :: libvirt_boot_source
  lms_vcpus :: nat
  lms_memory_mib :: nat
  lms_firmware :: firmware
  lms_machine_type :: "string option"
  lms_tpm_enabled :: bool
  lms_disks :: "libvirt_disk_spec list"
  lms_network :: "libvirt_nic_spec list"
  lms_user_data :: "string option"
  lms_desired_power_state :: power_state
  lms_first_boot_sealing :: "first_boot_sealing option"

record libvirt_machine_status =
  lmst_initialization :: initialization_status
  lmst_failure_domain :: "string option"
  lmst_addresses :: "machine_address list"
  lmst_guest_installed :: "bool option"
  lmst_sealed_partitions :: "string list"
  lmst_install_media_detached :: "bool option"
  lmst_domain_uuid :: "string option"
  lmst_observed_power_state :: "power_state option"
  lmst_address_source :: "libvirt_address_source option"
  lmst_tpm_attached :: "bool option"
  lmst_tpm_endorsement_certificates :: "string list"
  lmst_conditions :: "condition list"
  lmst_observed_generation :: "int option"

record libvirt_machine =
  lm_meta :: object_meta
  lm_spec :: libvirt_machine_spec
  lm_status :: "libvirt_machine_status option"

subsection \<open>CloudHypervisorMachine\<close>

record ch_cpu_spec =
  ccp_boot :: nat
  ccp_max :: "nat option"

definition max_vcpus :: "ch_cpu_spec \<Rightarrow> nat" where
  "max_vcpus c = max (case ccp_max c of Some m \<Rightarrow> m | None \<Rightarrow> ccp_boot c) (ccp_boot c)"

record ch_memory_spec =
  cme_size_mib :: nat
  cme_hugepages :: bool

datatype ch_boot_source_kind = ChImage | ChInstallMedia

record ch_boot_source =
  cbo_kind :: ch_boot_source_kind
  cbo_image :: string

definition ch_needs_empty_os_disk :: "ch_boot_source \<Rightarrow> bool" where
  "ch_needs_empty_os_disk b = (cbo_kind b = ChInstallMedia)"

definition ch_needs_install_media :: "ch_boot_source \<Rightarrow> bool" where
  "ch_needs_install_media b = (cbo_kind b = ChInstallMedia)"

record ch_nic_spec =
  cni_name :: string
  cni_network_class :: string
  cni_mac_address :: "string option"
  cni_ipam :: ipam_spec

datatype ch_address_source = ChStatic | Neighbour

record cloud_hypervisor_machine_spec =
  cms_provider_id :: "string option"
  cms_failure_domain :: "string option"
  cms_provider_ref :: local_object_reference
  cms_cpus :: ch_cpu_spec
  cms_memory :: ch_memory_spec
  cms_storage_class :: string
  cms_boot_source :: ch_boot_source
  cms_os_disk_size_gib :: nat
  cms_nics :: "ch_nic_spec list"
  cms_tpm_enabled :: bool
  cms_user_data :: "string option"
  cms_desired_power_state :: power_state
  cms_first_boot_sealing :: "first_boot_sealing option"

record cloud_hypervisor_machine_status =
  cmst_initialization :: initialization_status
  cmst_failure_domain :: "string option"
  cmst_addresses :: "machine_address list"
  cmst_address_source :: "ch_address_source option"
  cmst_observed_power_state :: "power_state option"
  cmst_guest_installed :: "bool option"
  cmst_install_media_detached :: "bool option"
  cmst_tpm_attached :: "bool option"
  cmst_tpm_endorsement_certificates :: "string list"
  cmst_sealed_partitions :: "string list"
  cmst_host_uid :: "nat option"
  cmst_conditions :: "condition list"
  cmst_observed_generation :: "int option"

record cloud_hypervisor_machine =
  chm_meta :: object_meta
  chm_spec :: cloud_hypervisor_machine_spec
  chm_status :: "cloud_hypervisor_machine_status option"

definition cloud_hypervisor_provider_id :: "string \<Rightarrow> string \<Rightarrow> string" where
  "cloud_hypervisor_provider_id provider_name machine_uid =
     ''cloudhypervisor://'' @ provider_name @ ''/'' @ machine_uid"

subsection \<open>ProxmoxMachine\<close>

record proxmox_data_disk =
  pdd_name :: string
  pdd_size_gib :: nat
  pdd_storage :: "string option"
  pdd_iothread :: bool
  pdd_discard :: bool
  pdd_ssd :: bool

datatype proxmox_nic_model = PveVirtio | PveE1000 | PveRtl8139 | PveVmxnet3

fun proxmox_nic_model_as_str :: "proxmox_nic_model \<Rightarrow> string" where
  "proxmox_nic_model_as_str PveVirtio = ''virtio''"
| "proxmox_nic_model_as_str PveE1000 = ''e1000''"
| "proxmox_nic_model_as_str PveRtl8139 = ''rtl8139''"
| "proxmox_nic_model_as_str PveVmxnet3 = ''vmxnet3''"

record proxmox_nic_spec =
  pni_name :: string
  pni_bridge :: string
  pni_vlan :: "nat option"
  pni_model :: proxmox_nic_model
  pni_mac_address :: "string option"
  pni_ipam :: ipam_spec

definition proxmox_nic_config_value :: "proxmox_nic_spec \<Rightarrow> string" where
  "proxmox_nic_config_value n =
     proxmox_nic_model_as_str (pni_model n)
       @ (case pni_mac_address n of Some mac \<Rightarrow> ''='' @ mac | None \<Rightarrow> [])
       @ '',bridge='' @ pni_bridge n
       @ (case pni_vlan n of Some tag \<Rightarrow> '',tag='' @ show_nat tag | None \<Rightarrow> [])"

datatype proxmox_address_source = PveStatic | PveGuestAgent

record proxmox_machine_spec =
  pms_provider_id :: "string option"
  pms_failure_domain :: "string option"
  pms_provider_ref :: local_object_reference
  pms_node :: string
  pms_template_vmid :: nat
  pms_storage :: string
  pms_pool :: "string option"
  pms_cores :: nat
  pms_sockets :: nat
  pms_memory_mib :: nat
  pms_cpu_type :: "string option"
  pms_firmware :: firmware
  pms_tpm_enabled :: bool
  pms_os_disk_size_gib :: nat
  pms_data_disks :: "proxmox_data_disk list"
  pms_nics :: "proxmox_nic_spec list"
  pms_iso_storage :: "string option"
  pms_user_data :: "string option"
  pms_desired_power_state :: power_state

record proxmox_machine_status =
  pmst_initialization :: initialization_status
  pmst_failure_domain :: "string option"
  pmst_addresses :: "machine_address list"
  pmst_address_source :: "proxmox_address_source option"
  pmst_vmid :: "nat option"
  pmst_node :: "string option"
  pmst_observed_power_state :: "power_state option"
  pmst_tpm_attached :: "bool option"
  pmst_conditions :: "condition list"
  pmst_observed_generation :: "int option"

record proxmox_machine =
  pm_meta :: object_meta
  pm_spec :: proxmox_machine_spec
  pm_status :: "proxmox_machine_status option"

definition proxmox_provider_id :: "string \<Rightarrow> nat \<Rightarrow> string" where
  "proxmox_provider_id provider_name vmid = ''proxmox://'' @ provider_name @ ''/'' @ show_nat vmid"

definition proxmox_bios :: "proxmox_machine_spec \<Rightarrow> string" where
  "proxmox_bios s = (case pms_firmware s of Bios \<Rightarrow> ''seabios'' | _ \<Rightarrow> ''ovmf'')"

definition proxmox_secure_boot :: "proxmox_machine_spec \<Rightarrow> bool" where
  "proxmox_secure_boot s = (pms_firmware s = EfiSecure)"

definition proxmox_needs_seed :: "proxmox_machine_spec \<Rightarrow> bool" where
  "proxmox_needs_seed s = is_some (pms_user_data s)"

datatype proxmox_spec_error =
    IsoStorageMissing | TooManyDataDisks | DuplicateDataDisk string | DuplicateNic string | VlanOutOfRange string nat

text \<open>The two loops over a \<^verbatim>\<open>HashSet\<close> of names: the names seen so far, then the items left.\<close>

fun check_data_disks :: "string list \<Rightarrow> proxmox_data_disk list \<Rightarrow> (proxmox_spec_error, unit) result" where
  "check_data_disks seen [] = Inr ()"
| "check_data_disks seen (d # ds) =
     (if pdd_name d \<in> set seen then Inl (DuplicateDataDisk (pdd_name d))
      else check_data_disks (pdd_name d # seen) ds)"

fun check_nics :: "string list \<Rightarrow> proxmox_nic_spec list \<Rightarrow> (proxmox_spec_error, unit) result" where
  "check_nics seen [] = Inr ()"
| "check_nics seen (n # ns) =
     (if pni_name n \<in> set seen then Inl (DuplicateNic (pni_name n))
      else case pni_vlan n of
          Some v \<Rightarrow> if \<not> (1 \<le> v \<and> v \<le> 4094) then Inl (VlanOutOfRange (pni_name n) v)
                    else check_nics (pni_name n # seen) ns
        | None \<Rightarrow> check_nics (pni_name n # seen) ns)"

definition proxmox_validate :: "proxmox_machine_spec \<Rightarrow> (proxmox_spec_error, unit) result" where
  "proxmox_validate s =
     (if proxmox_needs_seed s \<and> pms_iso_storage s = None then Inl IsoStorageMissing
      else if length (pms_data_disks s) > 30 then Inl TooManyDataDisks
      else case check_data_disks [] (pms_data_disks s) of
          Inl e \<Rightarrow> Inl e
        | Inr _ \<Rightarrow> check_nics [] (pms_nics s))"

subsection \<open>VSphereCluster\<close>

record vsphere_cluster_spec =
  vcs_control_plane_endpoint :: "api_endpoint option"
  vcs_provider_selector :: label_selector
  vcs_provider_refs :: "local_object_reference list"
  vcs_control_plane_failure_domain_selector :: "label_selector option"
  vcs_paused :: bool

record vsphere_cluster_status =
  vcst_initialization :: initialization_status
  vcst_control_plane_endpoint :: "api_endpoint option"
  vcst_failure_domains :: "cluster_failure_domain list"
  vcst_conditions :: "condition list"
  vcst_observed_generation :: "int option"

definition label_selector_is_empty :: "label_selector \<Rightarrow> bool" where
  "label_selector_is_empty s = (ls_match_labels s = [] \<and> ls_match_expressions s = [])"

subsection \<open>What validation guarantees\<close>

lemma check_data_disks_ok:
  "check_data_disks seen ds = Inr () \<longleftrightarrow> distinct (map pdd_name ds) \<and> set seen \<inter> pdd_name ` set ds = {}"
  by (induction ds arbitrary: seen) auto

lemma check_nics_ok:
  "check_nics seen ns = Inr () \<longleftrightarrow>
     distinct (map pni_name ns) \<and> set seen \<inter> pni_name ` set ns = {}
     \<and> (\<forall>n \<in> set ns. \<forall>v. pni_vlan n = Some v \<longrightarrow> 1 \<le> v \<and> v \<le> 4094)"
proof (induction ns arbitrary: seen)
  case (Cons n ns)
  then show ?case by (cases "pni_vlan n") auto
qed simp

lemma proxmox_validate_ok:
  "proxmox_validate s = Inr () \<longleftrightarrow>
     (pms_user_data s \<noteq> None \<longrightarrow> pms_iso_storage s \<noteq> None)
     \<and> length (pms_data_disks s) \<le> 30 \<and> distinct (map pdd_name (pms_data_disks s))
     \<and> distinct (map pni_name (pms_nics s))
     \<and> (\<forall>n \<in> set (pms_nics s). \<forall>v. pni_vlan n = Some v \<longrightarrow> 1 \<le> v \<and> v \<le> 4094)"
proof (cases "check_data_disks [] (pms_data_disks s)")
  case (Inl e)
  then have "\<not> distinct (map pdd_name (pms_data_disks s))"
    using check_data_disks_ok [of "[]" "pms_data_disks s"] by auto
  with Inl show ?thesis by (simp add: proxmox_validate_def)
next
  case (Inr u)
  then have "distinct (map pdd_name (pms_data_disks s))"
    using check_data_disks_ok [of "[]" "pms_data_disks s"] by simp
  with Inr show ?thesis
    by (auto simp: proxmox_validate_def proxmox_needs_seed_def check_nics_ok)
qed

text \<open>
  A Proxmox spec passes validation exactly when a seed has somewhere to go, there are at most
  thirty data disks, disk names and NIC names are each unique, and every VLAN tag is legal.
\<close>

theorem proxmox_validate_exact:
  "(proxmox_validate s = Inr ()) =
     ((pms_user_data s = None \<or> (\<exists>st. pms_iso_storage s = Some st))
     \<and> length (pms_data_disks s) \<le> 30 \<and> distinct (map pdd_name (pms_data_disks s))
     \<and> distinct (map pni_name (pms_nics s))
     \<and> (\<Union>n \<in> set (pms_nics s). set_option (pni_vlan n)) \<subseteq> {1..4094})"
  by (auto simp: proxmox_validate_ok)

end
