(* ===== verification/Status_Mirror.thy ===== *)
theory Status_Mirror
  imports Conditions Infra_Types
begin

section \<open>The status mirror\<close>

text \<open>
  Model of \<^verbatim>\<open>crates/banlieue-controller/src/reconciler/status_mirror.rs\<close>: the status of an
  infrastructure resource projected onto its \<^verbatim>\<open>VirtualMachine\<close>.  The trait \<^verbatim>\<open>InfraMachineRead\<close> is the
  record of what its methods return, with one function per implementation.  Each \<^verbatim>\<open>set_condition\<close> reads
  the clock, so the mirror takes three times.  The lemmas show what the aggregate \<^verbatim>\<open>Ready\<close> means and that
  the recorded placement is carried over.
\<close>

definition READY :: string where "READY = ''Ready''"
definition INFRASTRUCTURE_READY :: string where "INFRASTRUCTURE_READY = ''InfrastructureReady''"
definition GUEST_READY :: string where "GUEST_READY = ''GuestReady''"
definition SCHEDULED :: string where "SCHEDULED = ''Scheduled''"
definition PLACEMENT_VALID :: string where "PLACEMENT_VALID = ''PlacementValid''"

record infra_machine_read =
  imr_initialization :: initialization_status
  imr_addresses :: "machine_address list"
  imr_failure_domain :: "string option"
  imr_provider_id :: "string option"
  imr_conditions :: "condition list"
  imr_observed_power_state :: "power_state option"
  imr_tpm_endorsement_certificates :: "string list"
  imr_desired_power_state :: power_state

definition NO_INIT :: initialization_status where
  "NO_INIT = \<lparr>is_provisioned = None\<rparr>"

definition vsphere_read :: "vsphere_machine \<Rightarrow> infra_machine_read" where
  "vsphere_read m = (case vsm_status m of
     None \<Rightarrow> \<lparr>imr_initialization = NO_INIT, imr_addresses = [], imr_failure_domain = None,
       imr_provider_id = vms_provider_id (vsm_spec m), imr_conditions = [], imr_observed_power_state = None,
       imr_tpm_endorsement_certificates = [], imr_desired_power_state = vms_desired_power_state (vsm_spec m)\<rparr>
   | Some s \<Rightarrow> \<lparr>imr_initialization = vmst_initialization s, imr_addresses = vmst_addresses s,
       imr_failure_domain = vmst_failure_domain s, imr_provider_id = vms_provider_id (vsm_spec m),
       imr_conditions = vmst_conditions s, imr_observed_power_state = vmst_observed_power_state s,
       imr_tpm_endorsement_certificates = vmst_tpm_endorsement_certificates s,
       imr_desired_power_state = vms_desired_power_state (vsm_spec m)\<rparr>)"

definition libvirt_read :: "libvirt_machine \<Rightarrow> infra_machine_read" where
  "libvirt_read m = (case lm_status m of
     None \<Rightarrow> \<lparr>imr_initialization = NO_INIT, imr_addresses = [], imr_failure_domain = None,
       imr_provider_id = lms_provider_id (lm_spec m), imr_conditions = [], imr_observed_power_state = None,
       imr_tpm_endorsement_certificates = [], imr_desired_power_state = lms_desired_power_state (lm_spec m)\<rparr>
   | Some s \<Rightarrow> \<lparr>imr_initialization = lmst_initialization s, imr_addresses = lmst_addresses s,
       imr_failure_domain = lmst_failure_domain s, imr_provider_id = lms_provider_id (lm_spec m),
       imr_conditions = lmst_conditions s, imr_observed_power_state = lmst_observed_power_state s,
       imr_tpm_endorsement_certificates = lmst_tpm_endorsement_certificates s,
       imr_desired_power_state = lms_desired_power_state (lm_spec m)\<rparr>)"

definition cloud_hypervisor_read :: "cloud_hypervisor_machine \<Rightarrow> infra_machine_read" where
  "cloud_hypervisor_read m = (case chm_status m of
     None \<Rightarrow> \<lparr>imr_initialization = NO_INIT, imr_addresses = [], imr_failure_domain = None,
       imr_provider_id = cms_provider_id (chm_spec m), imr_conditions = [], imr_observed_power_state = None,
       imr_tpm_endorsement_certificates = [], imr_desired_power_state = cms_desired_power_state (chm_spec m)\<rparr>
   | Some s \<Rightarrow> \<lparr>imr_initialization = cmst_initialization s, imr_addresses = cmst_addresses s,
       imr_failure_domain = cmst_failure_domain s, imr_provider_id = cms_provider_id (chm_spec m),
       imr_conditions = cmst_conditions s, imr_observed_power_state = cmst_observed_power_state s,
       imr_tpm_endorsement_certificates = cmst_tpm_endorsement_certificates s,
       imr_desired_power_state = cms_desired_power_state (chm_spec m)\<rparr>)"

definition proxmox_read :: "proxmox_machine \<Rightarrow> infra_machine_read" where
  "proxmox_read m = (case pm_status m of
     None \<Rightarrow> \<lparr>imr_initialization = NO_INIT, imr_addresses = [], imr_failure_domain = None,
       imr_provider_id = pms_provider_id (pm_spec m), imr_conditions = [], imr_observed_power_state = None,
       imr_tpm_endorsement_certificates = [], imr_desired_power_state = pms_desired_power_state (pm_spec m)\<rparr>
   | Some s \<Rightarrow> \<lparr>imr_initialization = pmst_initialization s, imr_addresses = pmst_addresses s,
       imr_failure_domain = pmst_failure_domain s, imr_provider_id = pms_provider_id (pm_spec m),
       imr_conditions = pmst_conditions s, imr_observed_power_state = pmst_observed_power_state s,
       imr_tpm_endorsement_certificates = [],
       imr_desired_power_state = pms_desired_power_state (pm_spec m)\<rparr>)"

text \<open>The mirror, in the steps of the code: the two mirrored conditions, then the aggregate.\<close>

definition mirror_infra_ready :: "infra_machine_read \<Rightarrow> int \<Rightarrow> timestamp \<Rightarrow> condition list \<Rightarrow> condition list" where
  "mirror_infra_ready infra generation now cs =
     (case (case find_condition (imr_conditions infra) READY of
        Some c \<Rightarrow> (c_reason c, c_message c)
      | None \<Rightarrow> (''Pending'', ''infrastructure has not reported a Ready condition yet'')) of
      (infra_reason, infra_message) \<Rightarrow>
        set_condition cs INFRASTRUCTURE_READY (if is_condition_true (imr_conditions infra) READY then TRUE else FALSE)
          infra_reason infra_message generation now)"

definition mirror_guest_ready :: "infra_machine_read \<Rightarrow> int \<Rightarrow> timestamp \<Rightarrow> condition list \<Rightarrow> condition list" where
  "mirror_guest_ready infra generation now cs =
     (case find_condition (imr_conditions infra) GUEST_READY of
        Some guest \<Rightarrow> set_condition cs GUEST_READY (c_status guest) (c_reason guest) (c_message guest) generation now
      | None \<Rightarrow> cs)"

definition aggregate_ready :: "bool \<Rightarrow> bool \<Rightarrow> bool \<Rightarrow> string \<times> string \<times> string" where
  "aggregate_ready scheduled placement_valid infra_ready =
     (if scheduled \<and> placement_valid \<and> infra_ready then (TRUE, ''Reconciled'', ''VirtualMachine reconciled successfully'')
      else if \<not> scheduled then (FALSE, ''Scheduling'', ''scheduling not yet successful'')
      else if \<not> placement_valid then (FALSE, ''PlacementInvalid'', ''current placement no longer satisfies the spec'')
      else (FALSE, ''InfrastructureNotReady'', ''waiting for the infrastructure CR to report Ready''))"

definition placement_not_false :: "condition list \<Rightarrow> bool" where
  "placement_not_false cs =
     (\<not> (case find_condition cs PLACEMENT_VALID of Some c \<Rightarrow> c_status c = FALSE | None \<Rightarrow> False))"

definition mirror_ready :: "infra_machine_read \<Rightarrow> int \<Rightarrow> timestamp \<Rightarrow> condition list \<Rightarrow> condition list" where
  "mirror_ready infra generation now cs =
     (case aggregate_ready (is_condition_true cs SCHEDULED) (placement_not_false cs)
        (is_condition_true (imr_conditions infra) READY) of
      (status, reason, msg) \<Rightarrow> set_condition cs READY status reason msg generation now)"

definition mirror_status_from_infra ::
  "virtual_machine_status \<Rightarrow> infra_machine_read \<Rightarrow> int \<Rightarrow> timestamp \<Rightarrow> timestamp \<Rightarrow> timestamp \<Rightarrow> virtual_machine_status" where
  "mirror_status_from_infra current infra generation now1 now2 now3 =
     current\<lparr>vst_initialization := imr_initialization infra,
       vst_addresses := imr_addresses infra,
       vst_observed_power_state := imr_observed_power_state infra,
       vst_tpm_endorsement_certificates := imr_tpm_endorsement_certificates infra,
       vst_conditions := mirror_ready infra generation now3
         (mirror_guest_ready infra generation now2 (mirror_infra_ready infra generation now1 (vst_conditions current))),
       vst_observed_generation := Some generation\<rparr>"

definition status_or_default :: "virtual_machine \<Rightarrow> virtual_machine_status" where
  "status_or_default vm = (case vm_status vm of Some s \<Rightarrow> s | None \<Rightarrow> default_vm_status)"

definition generation_or_zero :: "object_meta \<Rightarrow> int" where
  "generation_or_zero m = (case om_generation m of Some g \<Rightarrow> g | None \<Rightarrow> 0)"

definition mirror_onto_vm ::
  "virtual_machine \<Rightarrow> infra_machine_read \<Rightarrow> timestamp \<Rightarrow> timestamp \<Rightarrow> timestamp \<Rightarrow> virtual_machine_status" where
  "mirror_onto_vm vm infra now1 now2 now3 =
     mirror_status_from_infra (status_or_default vm) infra (generation_or_zero (vm_meta vm)) now1 now2 now3"

subsection \<open>What the mirror writes\<close>

lemmas condition_names = READY_def INFRASTRUCTURE_READY_def GUEST_READY_def SCHEDULED_def PLACEMENT_VALID_def

lemma condition_names_distinct [simp]:
  "READY \<noteq> INFRASTRUCTURE_READY" "READY \<noteq> GUEST_READY" "READY \<noteq> SCHEDULED" "READY \<noteq> PLACEMENT_VALID"
  "INFRASTRUCTURE_READY \<noteq> GUEST_READY" "INFRASTRUCTURE_READY \<noteq> SCHEDULED" "INFRASTRUCTURE_READY \<noteq> PLACEMENT_VALID"
  "GUEST_READY \<noteq> SCHEDULED" "GUEST_READY \<noteq> PLACEMENT_VALID" "SCHEDULED \<noteq> PLACEMENT_VALID"
  by (simp_all add: condition_names)

lemmas condition_names_distinct' [simp] = condition_names_distinct [symmetric]

lemma is_condition_true_upsert_other:
  "t \<noteq> ty \<Longrightarrow> is_condition_true (upsert_condition cs ty st r m g now) t = is_condition_true cs t"
  unfolding is_condition_true_def by (induction cs) (auto simp: refresh_condition_def)

lemma is_condition_true_set_other [simp]:
  "t \<noteq> ty \<Longrightarrow> is_condition_true (set_condition cs ty st r m g now) t = is_condition_true cs t"
  using is_condition_true_upsert_other [of t ty cs st r m g now]
  by (simp add: set_condition_def is_condition_true_def list_ex_iff flip: set_mset_mset)

lemma distinct_set_condition [simp]:
  "distinct (map c_type cs) \<Longrightarrow> distinct (map c_type (set_condition cs ty st r m g now))"
  using set_condition_wf by (simp add: conditions_wf_def)

lemma is_condition_true_set_same:
  "distinct (map c_type cs) \<Longrightarrow> is_condition_true (set_condition cs ty st r m g now) ty = (st = TRUE)"
  by (simp add: is_condition_true_iff find_condition_set_same)

lemma find_condition_set_other [simp]:
  "t \<noteq> ty \<Longrightarrow> find_condition (set_condition cs ty st r m g now) t = find_condition cs t"
  by (rule conds.lookup_other)

lemma placement_not_false_set [simp]:
  "ty \<noteq> PLACEMENT_VALID \<Longrightarrow> placement_not_false (set_condition cs ty st r m g now) = placement_not_false cs"
  by (simp add: placement_not_false_def)

lemma TRUE_not_FALSE [simp]: "TRUE \<noteq> FALSE" "FALSE \<noteq> TRUE"
  by (simp_all add: TRUE_def FALSE_def)

lemma aggregate_ready_fst: "(fst (aggregate_ready s p i) = TRUE) = (s \<and> p \<and> i)"
  by (simp add: aggregate_ready_def)

lemma mirror_steps [simp]:
  "distinct (map c_type cs) \<Longrightarrow> distinct (map c_type (mirror_infra_ready infra g t cs))"
  "distinct (map c_type cs) \<Longrightarrow> distinct (map c_type (mirror_guest_ready infra g t cs))"
  "distinct (map c_type cs) \<Longrightarrow> distinct (map c_type (mirror_ready infra g t cs))"
  "is_condition_true (mirror_infra_ready infra g t cs) SCHEDULED = is_condition_true cs SCHEDULED"
  "is_condition_true (mirror_guest_ready infra g t cs) SCHEDULED = is_condition_true cs SCHEDULED"
  "placement_not_false (mirror_infra_ready infra g t cs) = placement_not_false cs"
  "placement_not_false (mirror_guest_ready infra g t cs) = placement_not_false cs"
  "placement_not_false (mirror_ready infra g t cs) = placement_not_false cs"
  by (simp_all add: mirror_infra_ready_def mirror_guest_ready_def mirror_ready_def split: option.split prod.split)

lemma find_condition_mirror_ready [simp]:
  "ty \<noteq> READY \<Longrightarrow> find_condition (mirror_ready infra g t cs) ty = find_condition cs ty"
  "ty \<noteq> INFRASTRUCTURE_READY \<Longrightarrow> find_condition (mirror_infra_ready infra g t cs) ty = find_condition cs ty"
  "ty \<noteq> GUEST_READY \<Longrightarrow> find_condition (mirror_guest_ready infra g t cs) ty = find_condition cs ty"
  by (simp_all add: mirror_infra_ready_def mirror_guest_ready_def mirror_ready_def split: option.split prod.split)

lemma is_condition_true_mirror_ready:
  "distinct (map c_type cs) \<Longrightarrow> is_condition_true (mirror_ready infra g t cs) READY =
     (is_condition_true cs SCHEDULED \<and> placement_not_false cs \<and> is_condition_true (imr_conditions infra) READY)"
  by (simp add: mirror_ready_def is_condition_true_set_same split: prod.split)
    (metis aggregate_ready_fst fst_conv)


text \<open>
  After a mirror, \<^verbatim>\<open>Ready\<close> is true exactly when the VM is scheduled, its placement has not been
  marked invalid and the infrastructure resource is ready; \<^verbatim>\<open>InfrastructureReady\<close> is the resource's own
  \<^verbatim>\<open>Ready\<close>; \<^verbatim>\<open>GuestReady\<close> is copied when the resource publishes it and otherwise left alone; and the
  recorded placement, infrastructure reference and held addresses are carried over.
\<close>

theorem mirror_ready_exact:
  assumes "distinct (map c_type (vst_conditions current))"
    and nxt_def: "nxt = mirror_status_from_infra current infra g now1 now2 now3"
  shows "is_condition_true (vst_conditions nxt) READY =
      (is_condition_true (vst_conditions current) SCHEDULED \<and> placement_not_false (vst_conditions current)
       \<and> is_condition_true (imr_conditions infra) READY)
    \<and> is_condition_true (vst_conditions nxt) INFRASTRUCTURE_READY = is_condition_true (imr_conditions infra) READY
    \<and> map_option c_status (find_condition (vst_conditions nxt) GUEST_READY) =
        (case find_condition (imr_conditions infra) GUEST_READY of
           Some c \<Rightarrow> Some (c_status c)
         | None \<Rightarrow> map_option c_status (find_condition (vst_conditions current) GUEST_READY))
    \<and> (vst_scheduled nxt, vst_infrastructure_ref nxt, vst_held_addresses nxt) =
        (vst_scheduled current, vst_infrastructure_ref current, vst_held_addresses current)"
proof (intro conjI)
  let ?infra = "mirror_infra_ready infra g now1 (vst_conditions current)"
  have ir: "find_condition ?infra INFRASTRUCTURE_READY \<noteq> None"
    "map_option c_status (find_condition ?infra INFRASTRUCTURE_READY) =
       Some (if is_condition_true (imr_conditions infra) READY then TRUE else FALSE)"
    by (simp_all add: mirror_infra_ready_def find_condition_set_same split: prod.split)
  show "is_condition_true (vst_conditions nxt) INFRASTRUCTURE_READY = is_condition_true (imr_conditions infra) READY"
    using assms(1) ir by (auto simp: nxt_def mirror_status_from_infra_def is_condition_true_iff split: if_splits)
  show "map_option c_status (find_condition (vst_conditions nxt) GUEST_READY) =
        (case find_condition (imr_conditions infra) GUEST_READY of
           Some c \<Rightarrow> Some (c_status c)
         | None \<Rightarrow> map_option c_status (find_condition (vst_conditions current) GUEST_READY))"
    by (simp add: nxt_def mirror_status_from_infra_def mirror_guest_ready_def find_condition_set_same split: option.split)
qed (use assms(1) in \<open>simp_all add: nxt_def mirror_status_from_infra_def is_condition_true_mirror_ready\<close>)

definition demo_condition :: "string \<Rightarrow> string \<Rightarrow> condition" where
  "demo_condition ty st = \<lparr>c_type = ty, c_status = st, c_observed_generation = None, c_last_transition_time = 0,
     c_reason = ''Demo'', c_message = []\<rparr>"

definition demo_infra_read :: infra_machine_read where
  "demo_infra_read = \<lparr>imr_initialization = NO_INIT, imr_addresses = [], imr_failure_domain = None,
     imr_provider_id = None, imr_conditions = [demo_condition READY TRUE], imr_observed_power_state = None,
     imr_tpm_endorsement_certificates = [], imr_desired_power_state = PoweredOn\<rparr>"

theorem mirror_ready_exact_witness:
  "is_condition_true (vst_conditions (mirror_status_from_infra
     (default_vm_status\<lparr>vst_conditions := [demo_condition SCHEDULED TRUE]\<rparr>) demo_infra_read 1 10 11 12)) READY"
proof -
  have "distinct (map c_type (vst_conditions (default_vm_status\<lparr>vst_conditions := [demo_condition SCHEDULED TRUE]\<rparr>)))"
    by simp
  from mirror_ready_exact [OF this refl, of demo_infra_read 1 10 11 12] show ?thesis
    by (simp add: demo_infra_read_def demo_condition_def is_condition_true_def placement_not_false_def find_condition_def)
qed

end
