(* ===== verification/Kube_Api.thy ===== *)
theory Kube_Api
  imports Conditions Infra_Types
begin

section \<open>Talking to the Kubernetes API server\<close>

text \<open>
  What the reconcilers share when they talk to the API server.  The server and the \<^verbatim>\<open>kube\<close> client are
  not part of the program: a typed handle \<^verbatim>\<open>Api<K>\<close> is a parameter of the model, the record \<open>api\<close> of
  operations over a state \<open>'w\<close> of the outside world that nothing is assumed about, so other writers may
  act between any two calls.  A call appends an event with its answer to a trace, and the theorems about
  the reconcilers are about that trace, for every server.  Errors are the enums of
  \<^verbatim>\<open>crates/banlieue-controller/src/error.rs\<close> and \<^verbatim>\<open>crates/banlieue-provider-sdk/src/error.rs\<close>; a
  computation that may fail is a state and error monad; \<open>triple\<close> is the program logic the reconcilers'
  theorems use.  The last part models the two patches of
  \<^verbatim>\<open>crates/banlieue-provider-sdk/src/finalizer.rs\<close>.
\<close>

subsection \<open>Errors\<close>

text \<open>\<open>kube::Error\<close> as far as the code looks at it: an API status with its code, or anything else.  The string is what it prints.\<close>

datatype kube_error = ApiErr nat string | OtherErr string

fun kube_error_text :: "kube_error \<Rightarrow> string" where
  "kube_error_text (ApiErr _ s) = s"
| "kube_error_text (OtherErr s) = s"

datatype sdk_error =
    SdkKube kube_error
  | SdkKubeConfig string
  | SdkInClusterConfig string
  | SdkInferConfig string
  | SdkSerde string
  | SdkMissing string
  | SdkInvalid string

fun sdk_error_text :: "sdk_error \<Rightarrow> string" where
  "sdk_error_text (SdkKube e) = ''kube api: '' @ kube_error_text e"
| "sdk_error_text (SdkKubeConfig e) = ''kube config: '' @ e"
| "sdk_error_text (SdkInClusterConfig e) = ''in-cluster config: '' @ e"
| "sdk_error_text (SdkInferConfig e) = ''kubeconfig inference: '' @ e"
| "sdk_error_text (SdkSerde e) = ''serde: '' @ e"
| "sdk_error_text (SdkMissing f) = ''missing required field: '' @ f"
| "sdk_error_text (SdkInvalid m) = m"

datatype error = Sdk sdk_error | Kube kube_error | Serde string | Missing string

fun error_text :: "error \<Rightarrow> string" where
  "error_text (Sdk e) = ''sdk: '' @ sdk_error_text e"
| "error_text (Kube e) = ''kube api: '' @ kube_error_text e"
| "error_text (Serde e) = ''serde: '' @ e"
| "error_text (Missing f) = ''missing required field: '' @ f"

fun error_kind :: "error \<Rightarrow> string" where
  "error_kind (Sdk _) = ''Sdk''"
| "error_kind (Kube _) = ''Kube''"
| "error_kind (Serde _) = ''Serde''"
| "error_kind (Missing _) = ''Missing''"

definition is_404 :: "kube_error \<Rightarrow> bool" where
  "is_404 e = (case e of ApiErr c _ \<Rightarrow> c = 404 | OtherErr _ \<Rightarrow> False)"

definition is_409 :: "kube_error \<Rightarrow> bool" where
  "is_409 e = (case e of ApiErr c _ \<Rightarrow> c = 409 | OtherErr _ \<Rightarrow> False)"

subsection \<open>Requests and the trace\<close>

datatype obj_kind = KVirtualMachine | KVirtualMachineClaim | KVirtualMachinePool | KVMClass | KVMImage
  | KProvider | KVSphereMachine | KLibvirtMachine | KCloudHypervisorMachine | KProxmoxMachine | KSecret | KConfigMap | KVSphereCluster | KLease

text \<open>
  The JSON merge patches the controller sends: a finalizer list, the bind of a pool member, a power state.
  A merge patch of a claim's status carries only the fields it sets.
\<close>

record bind_patch =
  bp_resource_version :: "string option"
  bp_claim :: string
  bp_subject_issuer :: string
  bp_subject_id :: string
  bp_owner :: owner_reference

datatype merge_patch =
    MergeFinalizers "string list"
  | MergeBind bind_patch
  | MergePower power_state

datatype 'o patch = ApplyForce string 'o | Merge merge_patch

record claim_status_patch =
  csp_phase :: claim_phase
  csp_conditions :: "condition list"
  csp_observed_generation :: int
  csp_virtual_machine_ref :: "local_object_reference option"
  csp_bound_at :: "timestamp option"
  csp_expires_at :: "timestamp option"
  csp_addresses :: "machine_address list option"
  csp_tpm_endorsement_certificates :: "string list option"

datatype verb =
    Get
  | ListBy "string option"
  | Create
  | Apply
  | MergePatch merge_patch
  | Delete
  | VmStatus virtual_machine_status
  | ClaimStatus claim_status_patch
  | PoolStatus virtual_machine_pool_status

datatype answer = Done | Gone | Refused kube_error

datatype event = Event (ev_kind: obj_kind) (ev_name: string) (ev_verb: verb) (ev_answer: answer)

text \<open>\<^verbatim>\<open>Api<K>\<close>: the operations the code calls, for objects \<open>'o\<close> whose status is written as \<open>'s\<close>.\<close>

record ('w, 'o, 's) api =
  api_kind :: obj_kind
  api_get :: "string \<Rightarrow> 'w \<Rightarrow> (kube_error, 'o) result \<times> 'w"
  api_get_opt :: "string \<Rightarrow> 'w \<Rightarrow> (kube_error, 'o option) result \<times> 'w"
  api_list :: "string option \<Rightarrow> 'w \<Rightarrow> (kube_error, 'o list) result \<times> 'w"
  api_create :: "'o \<Rightarrow> 'w \<Rightarrow> (kube_error, 'o) result \<times> 'w"
  api_patch :: "string \<Rightarrow> 'o patch \<Rightarrow> 'w \<Rightarrow> (kube_error, 'o) result \<times> 'w"
  api_patch_status :: "string \<Rightarrow> 's \<Rightarrow> 'w \<Rightarrow> (kube_error, 'o) result \<times> 'w"
  api_delete :: "string \<Rightarrow> 'w \<Rightarrow> (kube_error, unit) result \<times> 'w"

text \<open>A computation over a world \<open>'w\<close> that adds to a trace of \<open>'v\<close>; for the API server alone, of \<open>event\<close>.\<close>

type_synonym ('v, 'w, 'e, 'a) traced = "'w \<times> 'v list \<Rightarrow> ('e, 'a) result \<times> ('w \<times> 'v list)"
type_synonym 'w st = "'w \<times> event list"
type_synonym ('w, 'e, 'a) io = "(event, 'w, 'e, 'a) traced"

subsection \<open>Computations\<close>

definition io_return :: "'a \<Rightarrow> ('v, 'w, 'e, 'a) traced" where
  "io_return x s = (Inr x, s)"

definition io_throw :: "'e \<Rightarrow> ('v, 'w, 'e, 'a) traced" where
  "io_throw e s = (Inl e, s)"

definition io_bind :: "('v, 'w, 'e, 'a) traced \<Rightarrow> ('a \<Rightarrow> ('v, 'w, 'e, 'b) traced) \<Rightarrow> ('v, 'w, 'e, 'b) traced" where
  "io_bind m f s = (case m s of (Inl e, s') \<Rightarrow> (Inl e, s') | (Inr x, s') \<Rightarrow> f x s')"

text \<open>\<open>io_attempt\<close> hands the result to a \<^verbatim>\<open>match\<close>; \<open>io_err\<close> is the conversion of an error by \<^verbatim>\<open>?\<close>.\<close>

definition io_attempt :: "('v, 'w, 'e, 'a) traced \<Rightarrow> ('v, 'w, 'f, ('e, 'a) result) traced" where
  "io_attempt m s = (case m s of (r, s') \<Rightarrow> (Inr r, s'))"

definition io_err :: "('e \<Rightarrow> 'f) \<Rightarrow> ('v, 'w, 'e, 'a) traced \<Rightarrow> ('v, 'w, 'f, 'a) traced" where
  "io_err g m s = (case m s of (Inl e, s') \<Rightarrow> (Inl (g e), s') | (Inr x, s') \<Rightarrow> (Inr x, s'))"

fun io_for :: "('a \<Rightarrow> ('v, 'w, 'e, unit) traced) \<Rightarrow> 'a list \<Rightarrow> ('v, 'w, 'e, unit) traced" where
  "io_for f [] = io_return ()"
| "io_for f (x # xs) = io_bind (f x) (\<lambda>_. io_for f xs)"

text \<open>A read of the clock; the outside world supplies the time.\<close>

definition io_now :: "('w \<Rightarrow> timestamp \<times> 'w) \<Rightarrow> ('v, 'w, 'e, timestamp) traced" where
  "io_now clock s = (case s of (w, tr) \<Rightarrow> (case clock w of (t, w') \<Rightarrow> (Inr t, (w', tr))))"

definition answer_of :: "(kube_error, 'a) result \<Rightarrow> answer" where
  "answer_of r = (case r of Inl e \<Rightarrow> Refused e | Inr _ \<Rightarrow> Done)"

definition answer_opt :: "(kube_error, 'a option) result \<Rightarrow> answer" where
  "answer_opt r = (case r of Inl e \<Rightarrow> Refused e | Inr None \<Rightarrow> Gone | Inr (Some _) \<Rightarrow> Done)"

definition request ::
  "obj_kind \<Rightarrow> string \<Rightarrow> verb \<Rightarrow> ((kube_error, 'a) result \<Rightarrow> answer) \<Rightarrow> ('w \<Rightarrow> (kube_error, 'a) result \<times> 'w)
     \<Rightarrow> ('w, kube_error, 'a) io" where
  "request k n v ans f s = (case s of (w, tr) \<Rightarrow> (case f w of (r, w') \<Rightarrow> (r, (w', tr @ [Event k n v (ans r)]))))"

definition kget :: "('w, 'o, 's) api \<Rightarrow> string \<Rightarrow> ('w, kube_error, 'o) io" where
  "kget a n = request (api_kind a) n Get answer_of (api_get a n)"

definition kget_opt :: "('w, 'o, 's) api \<Rightarrow> string \<Rightarrow> ('w, kube_error, 'o option) io" where
  "kget_opt a n = request (api_kind a) n Get answer_opt (api_get_opt a n)"

definition klist :: "('w, 'o, 's) api \<Rightarrow> string option \<Rightarrow> ('w, kube_error, 'o list) io" where
  "klist a sel = request (api_kind a) '''' (ListBy sel) answer_of (api_list a sel)"

definition kcreate :: "('w, 'o, 's) api \<Rightarrow> 'o \<Rightarrow> ('w, kube_error, 'o) io" where
  "kcreate a x = request (api_kind a) '''' Create answer_of (api_create a x)"

definition kapply :: "('w, 'o, 's) api \<Rightarrow> string \<Rightarrow> string \<Rightarrow> 'o \<Rightarrow> ('w, kube_error, 'o) io" where
  "kapply a manager n x = request (api_kind a) n Apply answer_of (api_patch a n (ApplyForce manager x))"

definition kmerge :: "('w, 'o, 's) api \<Rightarrow> string \<Rightarrow> merge_patch \<Rightarrow> ('w, kube_error, 'o) io" where
  "kmerge a n p = request (api_kind a) n (MergePatch p) answer_of (api_patch a n (Merge p))"

definition kdelete :: "('w, 'o, 's) api \<Rightarrow> string \<Rightarrow> ('w, kube_error, unit) io" where
  "kdelete a n = request (api_kind a) n Delete answer_of (api_delete a n)"

definition kvm_status ::
  "('w, virtual_machine, virtual_machine_status) api \<Rightarrow> string \<Rightarrow> virtual_machine_status
     \<Rightarrow> ('w, kube_error, virtual_machine) io" where
  "kvm_status a n s = request (api_kind a) n (VmStatus s) answer_of (api_patch_status a n s)"

definition kclaim_status ::
  "('w, virtual_machine_claim, claim_status_patch) api \<Rightarrow> string \<Rightarrow> claim_status_patch
     \<Rightarrow> ('w, kube_error, virtual_machine_claim) io" where
  "kclaim_status a n s = request (api_kind a) n (ClaimStatus s) answer_of (api_patch_status a n s)"

definition kpool_status ::
  "('w, virtual_machine_pool, virtual_machine_pool_status) api \<Rightarrow> string \<Rightarrow> virtual_machine_pool_status
     \<Rightarrow> ('w, kube_error, virtual_machine_pool) io" where
  "kpool_status a n s = request (api_kind a) n (PoolStatus s) answer_of (api_patch_status a n s)"

subsection \<open>Finalizers\<close>

definition ensure_finalizer ::
  "('w, 'o, 's) api \<Rightarrow> object_meta \<Rightarrow> string \<Rightarrow> ('w, sdk_error, unit) io" where
  "ensure_finalizer a meta finalizer =
     (case finalizer_list_with (meta_finalizers meta) finalizer of
        None \<Rightarrow> io_return ()
      | Some nxt \<Rightarrow> io_bind (io_err SdkKube (kmerge a (name_any meta) (MergeFinalizers nxt))) (\<lambda>_. io_return ()))"

definition remove_finalizer ::
  "('w, 'o, 's) api \<Rightarrow> object_meta \<Rightarrow> string \<Rightarrow> ('w, sdk_error, unit) io" where
  "remove_finalizer a meta finalizer =
     (case finalizer_list_without (meta_finalizers meta) finalizer of
        None \<Rightarrow> io_return ()
      | Some nxt \<Rightarrow> io_bind (io_err SdkKube (kmerge a (name_any meta) (MergeFinalizers nxt))) (\<lambda>_. io_return ()))"

definition server_side_apply ::
  "('w, 'o, 's) api \<Rightarrow> string \<Rightarrow> string \<Rightarrow> 'o \<Rightarrow> ('w, sdk_error, 'o) io" where
  "server_side_apply a manager n x = io_err SdkKube (kapply a manager n x)"

definition delete_ignoring_404 :: "('w, 'o, 's) api \<Rightarrow> string \<Rightarrow> ('w, error, unit) io" where
  "delete_ignoring_404 a n =
     io_bind (io_attempt (kdelete a n)) (\<lambda>r. case r of
       Inr _ \<Rightarrow> io_return ()
     | Inl e \<Rightarrow> if is_404 e then io_return () else io_throw (Kube e))"

subsection \<open>A program logic for traces\<close>

text \<open>
  \<open>triple P m Q\<close>: started with a trace that satisfies \<open>P\<close>, in any world, \<open>m\<close> ends with a result and a
  trace that satisfy \<open>Q\<close>.  Computations are total, so this is total correctness.  \<open>emits A m\<close>: whatever
  happens, \<open>m\<close> only adds events that satisfy \<open>A\<close> to the trace.
\<close>

definition triple ::
  "('v list \<Rightarrow> bool) \<Rightarrow> ('v, 'w, 'e, 'a) traced \<Rightarrow> (('e, 'a) result \<Rightarrow> 'v list \<Rightarrow> bool) \<Rightarrow> bool" where
  "triple P m Q = (\<forall>w tr. P tr \<longrightarrow> (case m (w, tr) of (r, s) \<Rightarrow> Q r (snd s)))"

lemma triple_run:
  assumes "triple P m Q" and "P tr" and "m (w, tr) = (r, (w', tr'))"
  shows "Q r tr'"
  using assms(1) [unfolded triple_def, rule_format, OF assms(2), of w] assms(3) by simp

lemma triple_conseq:
  assumes "triple P' m Q'" and "\<And>tr. P tr \<Longrightarrow> P' tr" and "\<And>r tr. Q' r tr \<Longrightarrow> Q r tr"
  shows "triple P m Q"
  using assms by (fastforce simp: triple_def split: prod.splits)

lemma triple_return:
  assumes "\<And>tr. P tr \<Longrightarrow> Q (Inr x) tr"
  shows "triple P (io_return x) Q"
  using assms by (simp add: triple_def io_return_def)

lemma triple_throw:
  assumes "\<And>tr. P tr \<Longrightarrow> Q (Inl e) tr"
  shows "triple P (io_throw e) Q"
  using assms by (simp add: triple_def io_throw_def)

lemma triple_bind:
  assumes "triple P m R" and "\<And>x. triple (R (Inr x)) (f x) Q" and "\<And>e tr. R (Inl e) tr \<Longrightarrow> Q (Inl e) tr"
  shows "triple P (io_bind m f) Q"
  unfolding triple_def
proof (intro allI impI)
  fix w tr
  assume "P tr"
  obtain r w' tr' where m: "m (w, tr) = (r, (w', tr'))"
    by (metis prod.exhaust)
  from triple_run [OF assms(1) \<open>P tr\<close> m] have "R r tr'" .
  then show "case io_bind m f (w, tr) of (r, s) \<Rightarrow> Q r (snd s)"
    using assms(2) [unfolded triple_def] assms(3) m by (cases r) (simp_all add: io_bind_def)
qed

lemma triple_attempt:
  assumes "triple P m (\<lambda>r. Q (Inr r))"
  shows "triple P (io_attempt m) Q"
  using assms by (auto simp: triple_def io_attempt_def split: prod.splits)

lemma triple_err:
  assumes "triple P m (\<lambda>r. Q (map_sum g id r))"
  shows "triple P (io_err g m) Q"
  using assms by (fastforce simp: triple_def io_err_def split: prod.splits sum.splits)

lemma triple_request:
  assumes "\<And>r tr. P tr \<Longrightarrow> Q r (tr @ [Event k n v (ans r)])"
  shows "triple P (request k n v ans f) Q"
  using assms by (auto simp: triple_def request_def split: prod.splits)

lemma triple_now:
  assumes "\<And>t tr. P tr \<Longrightarrow> Q (Inr t) tr"
  shows "triple P (io_now clock) Q"
  using assms by (auto simp: triple_def io_now_def split: prod.splits)

definition emits :: "('v \<Rightarrow> bool) \<Rightarrow> ('v, 'w, 'e, 'a) traced \<Rightarrow> bool" where
  "emits A m = (\<forall>w tr. \<exists>evs. snd (snd (m (w, tr))) = tr @ evs \<and> list_all A evs)"

lemma emitsD:
  assumes "emits A m" and "m (w, tr) = (r, (w', tr'))"
  obtains evs where "tr' = tr @ evs" and "list_all A evs"
  using assms unfolding emits_def by (metis snd_conv)

lemma emitsI:
  assumes "\<And>w tr r w' tr'. m (w, tr) = (r, (w', tr')) \<Longrightarrow> \<exists>evs. tr' = tr @ evs \<and> list_all A evs"
  shows "emits A m"
  unfolding emits_def using assms by (metis prod.collapse)

lemma emits_return [intro, simp]: "emits A (io_return x)"
  by (simp add: emits_def io_return_def)

lemma emits_throw [intro, simp]: "emits A (io_throw e)"
  by (simp add: emits_def io_throw_def)

text \<open>A step may also rely on the value it gets being one the previous step can return.\<close>

definition yields :: "('v, 'w, 'e, 'a) traced \<Rightarrow> 'a \<Rightarrow> bool" where
  "yields m x = (\<exists>s s'. m s = (Inr x, s'))"

lemma emits_bind_yields:
  assumes "emits A m" and "\<And>x. yields m x \<Longrightarrow> emits A (f x)"
  shows "emits A (io_bind m f)"
proof (rule emitsI)
  fix w tr r w' tr'
  assume run: "io_bind m f (w, tr) = (r, (w', tr'))"
  obtain r1 w1 tr1 where m: "m (w, tr) = (r1, (w1, tr1))"
    by (metis prod.exhaust)
  from emitsD [OF assms(1) m] obtain evs where evs: "tr1 = tr @ evs" "list_all A evs" .
  show "\<exists>evs. tr' = tr @ evs \<and> list_all A evs"
  proof (cases r1)
    case (Inl e)
    with run m evs show ?thesis
      by (auto simp: io_bind_def)
  next
    case (Inr x)
    with run m have f: "f x (w1, tr1) = (r, (w', tr'))"
      by (simp add: io_bind_def)
    from Inr m have "yields m x"
      by (auto simp: yields_def)
    from emitsD [OF assms(2) [OF this] f] obtain evs' where "tr' = tr1 @ evs'" "list_all A evs'" .
    with evs show ?thesis
      by auto
  qed
qed

lemma emits_bind [intro]: "emits A m \<Longrightarrow> (\<And>x. emits A (f x)) \<Longrightarrow> emits A (io_bind m f)"
  by (rule emits_bind_yields)

lemma io_err_eq: "io_err g m s = (map_sum g id (fst (m s)), snd (m s))"
  by (cases "m s"; cases "fst (m s)") (simp_all add: io_err_def)

lemma emits_err [intro]: "emits A m \<Longrightarrow> emits A (io_err g m)"
  by (simp add: emits_def io_err_eq)

lemma emits_attempt [intro]: "emits A m \<Longrightarrow> emits A (io_attempt m)"
  by (simp add: emits_def io_attempt_def case_prod_unfold)

lemma emits_now [intro, simp]: "emits A (io_now clock)"
  by (simp add: emits_def io_now_def case_prod_unfold)

lemma emits_for [intro]: "(\<And>x. x \<in> set xs \<Longrightarrow> emits A (f x)) \<Longrightarrow> emits A (io_for f xs)"
  by (induction xs) auto

lemma emits_request: "(\<And>r. A (Event k n v (ans r))) \<Longrightarrow> emits A (request k n v ans f)"
  by (simp add: emits_def request_def case_prod_unfold)

lemma emits_mono: "emits A m \<Longrightarrow> (\<And>e. A e \<Longrightarrow> B e) \<Longrightarrow> emits B m"
  unfolding emits_def list_all_iff by blast

lemma triple_emits:
  assumes "emits A m" and "\<And>r tr evs. P tr \<Longrightarrow> list_all A evs \<Longrightarrow> Q r (tr @ evs)"
  shows "triple P m Q"
  unfolding triple_def
proof (intro allI impI)
  fix w tr
  assume "P tr"
  obtain r w' tr' where m: "m (w, tr) = (r, (w', tr'))"
    by (metis prod.exhaust)
  from emitsD [OF assms(1) m] obtain evs where "tr' = tr @ evs" "list_all A evs" .
  with assms(2) [OF \<open>P tr\<close>] m show "case m (w, tr) of (r, s) \<Rightarrow> Q r (snd s)"
    by simp
qed

lemma yields_err:
  assumes "yields (io_err g m) x"
  shows "yields m x"
proof -
  from assms obtain s where "map_sum g id (fst (m s)) = Inr x"
    by (auto simp: yields_def io_err_eq)
  then have "fst (m s) = Inr x"
    by (cases "fst (m s)") simp_all
  then show ?thesis
    unfolding yields_def by (metis prod.collapse)
qed

lemma request_fst: "fst (request k n v ans f (w, tr)) = fst (f w)"
  by (simp add: request_def case_prod_unfold)

lemma yields_request: "yields (request k n v ans f) x \<Longrightarrow> \<exists>w. fst (f w) = Inr x"
  unfolding yields_def by (metis fst_conv request_fst surj_pair)

lemma yields_calls:
  "yields (klist a sel) xs \<Longrightarrow> \<exists>w. fst (api_list a sel w) = Inr xs"
  "yields (kget a n) x \<Longrightarrow> \<exists>w. fst (api_get a n w) = Inr x"
  "yields (kget_opt a n) y \<Longrightarrow> \<exists>w. fst (api_get_opt a n w) = Inr y"
  by (simp_all add: klist_def kget_def kget_opt_def yields_request)

lemmas call_defs = kget_def kget_opt_def klist_def kcreate_def kapply_def kmerge_def kdelete_def
  kvm_status_def kclaim_status_def kpool_status_def

lemma emits_calls:
  "(\<And>r. A (Event (api_kind a) n Get r)) \<Longrightarrow> emits A (kget a n)"
  "(\<And>r. A (Event (api_kind a) n Get r)) \<Longrightarrow> emits A (kget_opt a n)"
  "(\<And>r. A (Event (api_kind a) [] (ListBy sel) r)) \<Longrightarrow> emits A (klist a sel)"
  "(\<And>r. A (Event (api_kind a) [] Create r)) \<Longrightarrow> emits A (kcreate a x)"
  "(\<And>r. A (Event (api_kind a) n Apply r)) \<Longrightarrow> emits A (kapply a manager n x)"
  "(\<And>r. A (Event (api_kind a) n (MergePatch p) r)) \<Longrightarrow> emits A (kmerge a n p)"
  "(\<And>r. A (Event (api_kind a) n Delete r)) \<Longrightarrow> emits A (kdelete a n)"
  "(\<And>r. A (Event (api_kind b) n (VmStatus s) r)) \<Longrightarrow> emits A (kvm_status b n s)"
  "(\<And>r. A (Event (api_kind c) n (ClaimStatus u) r)) \<Longrightarrow> emits A (kclaim_status c n u)"
  "(\<And>r. A (Event (api_kind d) n (PoolStatus v) r)) \<Longrightarrow> emits A (kpool_status d n v)"
  by (simp_all add: call_defs emits_request)

lemma emits_ensure_finalizer:
  assumes "\<And>r fs. A (Event (api_kind a) (name_any meta) (MergePatch (MergeFinalizers fs)) r)"
  shows "emits A (ensure_finalizer a meta f)"
  unfolding ensure_finalizer_def
  by (auto intro!: emits_bind emits_err emits_calls assms split: option.split)

lemma emits_remove_finalizer:
  assumes "\<And>r fs. A (Event (api_kind a) (name_any meta) (MergePatch (MergeFinalizers fs)) r)"
  shows "emits A (remove_finalizer a meta f)"
  unfolding remove_finalizer_def
  by (auto intro!: emits_bind emits_err emits_calls assms split: option.split)

lemma emits_delete_ignoring_404:
  "(\<And>r. A (Event (api_kind a) n Delete r)) \<Longrightarrow> emits A (delete_ignoring_404 a n)"
  unfolding delete_ignoring_404_def
  by (auto intro!: emits_bind emits_attempt emits_calls split: sum.split)

text \<open>The whole trace of a run, and the objects it asks the server to delete.\<close>

definition trace_of :: "('v, 'w, 'e, 'a) traced \<Rightarrow> 'w \<Rightarrow> 'v list" where
  "trace_of m w = snd (snd (m (w, [])))"

definition result_of :: "('v, 'w, 'e, 'a) traced \<Rightarrow> 'w \<Rightarrow> ('e, 'a) result" where
  "result_of m w = fst (m (w, []))"

definition deletions :: "event list \<Rightarrow> (obj_kind \<times> string) set" where
  "deletions tr = {(k, n). \<exists>a. Event k n Delete a \<in> set tr}"

lemma triple_trace: "triple (\<lambda>tr. tr = []) m Q \<Longrightarrow> Q (result_of m w) (trace_of m w)"
  by (simp add: triple_def trace_of_def result_of_def case_prod_unfold)

lemma emits_trace: "emits A m \<Longrightarrow> list_all A (trace_of m w)"
  unfolding emits_def trace_of_def by (metis append_Nil)

text \<open>A server with fixed content, to run the reconcilers on.\<close>

definition fixed_api :: "obj_kind \<Rightarrow> 'o list \<Rightarrow> ('w, 'o, 's) api" where
  "fixed_api k objs =
     (let one = (case objs of x # _ \<Rightarrow> Inr x | [] \<Rightarrow> Inl (ApiErr 404 ''NotFound''))
      in \<lparr>api_kind = k, api_get = (\<lambda>_ w. (one, w)), api_get_opt = (\<lambda>_ w. (Inr (case objs of x # _ \<Rightarrow> Some x | [] \<Rightarrow> None), w)),
          api_list = (\<lambda>_ w. (Inr objs, w)), api_create = (\<lambda>x w. (Inr x, w)), api_patch = (\<lambda>_ _ w. (one, w)),
          api_patch_status = (\<lambda>_ _ w. (one, w)), api_delete = (\<lambda>_ w. (map_sum id (\<lambda>_. ()) one, w))\<rparr>)"


subsection \<open>Merge patches replace lists\<close>

text \<open>
  A JSON merge patch replaces a list as a whole (RFC 7396): after a successful patch the object's
  finalizers, read from the world by \<open>fins\<close>, are the list that was sent.
\<close>

definition merge_law :: "('w, 'o, 's) api \<Rightarrow> ('w \<Rightarrow> string \<Rightarrow> string list) \<Rightarrow> bool" where
  "merge_law a fins = (\<forall>n fs w x w'. api_patch a n (Merge (MergeFinalizers fs)) w = (Inr x, w') \<longrightarrow> fins w' n = fs)"

definition demo_store :: "(string list, unit, unit) api" where
  "demo_store = \<lparr>api_kind = KVirtualMachine, api_get = (\<lambda>_ w. (Inr (), w)), api_get_opt = (\<lambda>_ w. (Inr (Some ()), w)),
     api_list = (\<lambda>_ w. (Inr [()], w)), api_create = (\<lambda>_ w. (Inr (), w)),
     api_patch = (\<lambda>_ p w. (Inr (), case p of Merge (MergeFinalizers fs) \<Rightarrow> fs | _ \<Rightarrow> w)),
     api_patch_status = (\<lambda>_ _ w. (Inr (), w)), api_delete = (\<lambda>_ w. (Inr (), w))\<rparr>"

lemma ensure_finalizer_sent:
  assumes "ensure_finalizer a meta f (w, tr) = (Inr (), (w', tr'))" and "f \<notin> set (meta_finalizers meta)"
  shows "\<exists>x. api_patch a (name_any meta) (Merge (MergeFinalizers (meta_finalizers meta @ [f]))) w = (Inr x, w')"
  using assms by (auto simp: ensure_finalizer_def finalizer_list_with_def list_ex_iff io_bind_def io_err_def io_return_def
      kmerge_def request_def split: prod.splits sum.splits if_splits)

text \<open>
  Adding a finalizer overwrites the list: a finalizer that another controller added after the object
  was read is gone afterwards, because the merge patch carries the list that was read plus the new entry
  and no resource version.
\<close>

theorem ensure_finalizer_overwrites:
  assumes "merge_law a fins" and "f \<notin> set (meta_finalizers meta)"
    and "ensure_finalizer a meta f (w, tr) = (Inr (), (w', tr'))"
  shows "fins w' (name_any meta) = meta_finalizers meta @ [f]
    \<and> (set (fins w (name_any meta)) - set (meta_finalizers meta @ [f])) \<inter> set (fins w' (name_any meta)) = {}"
  using assms ensure_finalizer_sent [OF assms(3,2)] by (auto simp: merge_law_def)

theorem ensure_finalizer_overwrites_witness:
  "merge_law demo_store (\<lambda>w _. w)
    \<and> (case ensure_finalizer demo_store empty_meta ''banlieue.io/virtualmachine'' ([''other.io/backup''], [])
        of (r, (w', tr)) \<Rightarrow> r = Inr () \<and> w' = [''banlieue.io/virtualmachine''])"
proof -
  have law: "merge_law demo_store (\<lambda>w _. w)"
    by (simp add: merge_law_def demo_store_def)
  have new: "''banlieue.io/virtualmachine'' \<notin> set (meta_finalizers empty_meta)"
    by (simp add: meta_finalizers_def empty_meta_def)
  obtain r w' tr where run: "ensure_finalizer demo_store empty_meta ''banlieue.io/virtualmachine''
      ([''other.io/backup''], []) = (r, (w', tr))"
    by (metis prod.exhaust)
  then have "r = Inr ()"
    by (simp add: ensure_finalizer_def finalizer_list_with_def meta_finalizers_def empty_meta_def io_bind_def
        io_err_def io_return_def kmerge_def request_def demo_store_def)
  with ensure_finalizer_overwrites [OF law new run [unfolded this]] law run show ?thesis
    by (simp add: meta_finalizers_def empty_meta_def)
qed

end
