(* ===== verification/Controller.thy ===== *)
theory Controller
  imports Kube_Api Status_Mirror Claim_Plan
begin

section \<open>The controller's context\<close>

text \<open>
  The context every reconciler of \<^verbatim>\<open>banlieue-controller\<close> receives
  (\<^verbatim>\<open>crates/banlieue-controller/src/context.rs\<close>), and what it gives access to: the Kubernetes client, a
  handle per kind and namespace, the reflector store, the clock, the timestamp operations of the
  \<^verbatim>\<open>jiff\<close> crate and \<^verbatim>\<open>Resource::controller_owner_ref\<close> of the \<^verbatim>\<open>kube\<close> crate.  All of these are
  parameters.  The accessors fix the kind of each handle, which Rust's types fix.
\<close>

record secret =
  sec_data :: "(string \<times> u8 list) list option"

record config_map =
  cm_data :: "btmap option"

type_synonym 'w vm_api = "('w, virtual_machine, virtual_machine_status) api"
type_synonym 'w claim_api = "('w, virtual_machine_claim, claim_status_patch) api"
type_synonym 'w pool_api = "('w, virtual_machine_pool, virtual_machine_pool_status) api"

record 'w client =
  cl_vms :: "string \<Rightarrow> 'w vm_api"
  cl_all_vms :: "'w vm_api"
  cl_claims :: "string \<Rightarrow> 'w claim_api"
  cl_pools :: "string \<Rightarrow> 'w pool_api"
  cl_providers :: "string \<Rightarrow> ('w, provider, unit) api"
  cl_classes :: "('w, vm_class, unit) api"
  cl_images :: "('w, vm_image, unit) api"
  cl_vsphere :: "string \<Rightarrow> ('w, vsphere_machine, unit) api"
  cl_libvirt :: "string \<Rightarrow> ('w, libvirt_machine, unit) api"
  cl_cloud_hypervisor :: "string \<Rightarrow> ('w, cloud_hypervisor_machine, unit) api"
  cl_proxmox :: "string \<Rightarrow> ('w, proxmox_machine, unit) api"
  cl_secrets :: "string \<Rightarrow> ('w, secret, unit) api"
  cl_config_maps :: "string \<Rightarrow> ('w, config_map, unit) api"

record 'w env =
  env_clock :: "'w \<Rightarrow> timestamp \<times> 'w"
  env_jiff :: jiff
  env_owner_ref :: "object_meta \<Rightarrow> owner_reference option"

text \<open>The store is a reader that first waits until it is ready, which fails when its writer is gone.\<close>

record 'w ctx =
  ctx_client :: "'w client"
  ctx_namespace :: "string option"
  ctx_vm_store :: "('w \<Rightarrow> virtual_machine list option \<times> 'w) option"
  ctx_first_boot_sealing :: bool
  ctx_env :: "'w env"

definition ctx_new :: "'w client \<Rightarrow> string option \<Rightarrow> 'w env \<Rightarrow> 'w ctx" where
  "ctx_new client namespace env = \<lparr>ctx_client = client, ctx_namespace = namespace, ctx_vm_store = None,
     ctx_first_boot_sealing = True, ctx_env = env\<rparr>"

definition vms_in :: "'w ctx \<Rightarrow> string \<Rightarrow> 'w vm_api" where
  "vms_in ctx ns = (cl_vms (ctx_client ctx) ns)\<lparr>api_kind := KVirtualMachine\<rparr>"

definition all_vms :: "'w ctx \<Rightarrow> 'w vm_api" where
  "all_vms ctx = (cl_all_vms (ctx_client ctx))\<lparr>api_kind := KVirtualMachine\<rparr>"

definition claims_in :: "'w ctx \<Rightarrow> string \<Rightarrow> 'w claim_api" where
  "claims_in ctx ns = (cl_claims (ctx_client ctx) ns)\<lparr>api_kind := KVirtualMachineClaim\<rparr>"

definition pools_in :: "'w ctx \<Rightarrow> string \<Rightarrow> 'w pool_api" where
  "pools_in ctx ns = (cl_pools (ctx_client ctx) ns)\<lparr>api_kind := KVirtualMachinePool\<rparr>"

definition providers_in :: "'w ctx \<Rightarrow> string \<Rightarrow> ('w, provider, unit) api" where
  "providers_in ctx ns = (cl_providers (ctx_client ctx) ns)\<lparr>api_kind := KProvider\<rparr>"

definition all_classes :: "'w ctx \<Rightarrow> ('w, vm_class, unit) api" where
  "all_classes ctx = (cl_classes (ctx_client ctx))\<lparr>api_kind := KVMClass\<rparr>"

definition all_images :: "'w ctx \<Rightarrow> ('w, vm_image, unit) api" where
  "all_images ctx = (cl_images (ctx_client ctx))\<lparr>api_kind := KVMImage\<rparr>"

definition secrets_in :: "'w ctx \<Rightarrow> string \<Rightarrow> ('w, secret, unit) api" where
  "secrets_in ctx ns = (cl_secrets (ctx_client ctx) ns)\<lparr>api_kind := KSecret\<rparr>"

definition config_maps_in :: "'w ctx \<Rightarrow> string \<Rightarrow> ('w, config_map, unit) api" where
  "config_maps_in ctx ns = (cl_config_maps (ctx_client ctx) ns)\<lparr>api_kind := KConfigMap\<rparr>"

lemma api_kinds [simp]:
  "api_kind (vms_in ctx ns) = KVirtualMachine" "api_kind (all_vms ctx) = KVirtualMachine"
  "api_kind (claims_in ctx ns) = KVirtualMachineClaim" "api_kind (pools_in ctx ns) = KVirtualMachinePool"
  "api_kind (providers_in ctx ns) = KProvider" "api_kind (all_classes ctx) = KVMClass"
  "api_kind (all_images ctx) = KVMImage" "api_kind (secrets_in ctx ns) = KSecret"
  "api_kind (config_maps_in ctx ns) = KConfigMap"
  by (simp_all add: vms_in_def all_vms_def claims_in_def pools_in_def providers_in_def all_classes_def
      all_images_def secrets_in_def config_maps_in_def)

text \<open>A read of the clock through the context, and \<^verbatim>\<open>set_condition\<close>, which reads it itself.\<close>

definition now_of :: "'w ctx \<Rightarrow> ('w, error, timestamp) io" where
  "now_of ctx = io_now (env_clock (ctx_env ctx))"

definition set_condition_now ::
  "'w ctx \<Rightarrow> condition list \<Rightarrow> string \<Rightarrow> string \<Rightarrow> string \<Rightarrow> string \<Rightarrow> int \<Rightarrow> ('w, error, condition list) io" where
  "set_condition_now ctx cs ty st reason msg generation =
     io_bind (now_of ctx) (\<lambda>now. io_return (set_condition cs ty st reason msg generation now))"

lemma emits_now_of [intro, simp]: "emits A (now_of ctx)"
  by (simp add: now_of_def)

lemma emits_set_condition_now [intro, simp]: "emits A (set_condition_now ctx cs ty st r m g)"
  unfolding set_condition_now_def by (intro emits_bind) simp_all

lemma triple_now_of: "(\<And>t tr. P tr \<Longrightarrow> Q (Inr t) tr) \<Longrightarrow> triple P (now_of ctx) Q"
  unfolding now_of_def by (rule triple_now)

lemma triple_set_condition_now:
  assumes "\<And>t tr. P tr \<Longrightarrow> Q (Inr (set_condition cs ty st r m g t)) tr"
  shows "triple P (set_condition_now ctx cs ty st r m g) Q"
  unfolding set_condition_now_def
  by (rule triple_bind [where R = "\<lambda>r tr. P tr \<and> (\<exists>t. r = Inr t)"])
    (auto intro!: triple_now_of triple_return assms)


subsection \<open>A context with fixed content\<close>

definition fixed_client ::
  "virtual_machine list \<Rightarrow> virtual_machine_pool list \<Rightarrow> virtual_machine_claim list \<Rightarrow> provider list \<Rightarrow> vm_class list
     \<Rightarrow> vm_image list \<Rightarrow> 'w client" where
  "fixed_client vms pools claims providers classes images =
     \<lparr>cl_vms = (\<lambda>_. fixed_api KVirtualMachine vms), cl_all_vms = fixed_api KVirtualMachine vms,
      cl_claims = (\<lambda>_. fixed_api KVirtualMachineClaim claims), cl_pools = (\<lambda>_. fixed_api KVirtualMachinePool pools),
      cl_providers = (\<lambda>_. fixed_api KProvider providers), cl_classes = fixed_api KVMClass classes,
      cl_images = fixed_api KVMImage images, cl_vsphere = (\<lambda>_. fixed_api KVSphereMachine []),
      cl_libvirt = (\<lambda>_. fixed_api KLibvirtMachine []), cl_cloud_hypervisor = (\<lambda>_. fixed_api KCloudHypervisorMachine []),
      cl_proxmox = (\<lambda>_. fixed_api KProxmoxMachine []), cl_secrets = (\<lambda>_. fixed_api KSecret []),
      cl_config_maps = (\<lambda>_. fixed_api KConfigMap [])\<rparr>"

definition demo_owner_ref :: "object_meta \<Rightarrow> owner_reference option" where
  "demo_owner_ref m = (case (om_name m, om_uid m) of
     (Some n, Some u) \<Rightarrow> Some \<lparr>or_api_version = ''banlieue.io/v1alpha1'', or_kind = ''Owner'', or_name = n, or_uid = u,
       or_controller = Some True, or_block_owner_deletion = Some True\<rparr>
   | _ \<Rightarrow> None)"

definition demo_env :: "'w env" where
  "demo_env = \<lparr>env_clock = (\<lambda>w. (0, w)), env_jiff = demo_jiff, env_owner_ref = demo_owner_ref\<rparr>"

end
