(* ===== verification/Net.thy ===== *)
theory Net
  imports Banlieue_Prelude
begin

section \<open>Addresses and numbers as text\<close>

text \<open>
  The parts of Rust's standard library the address handling uses: parsing and printing of \<^verbatim>\<open>Ipv4Addr\<close>,
  \<^verbatim>\<open>Ipv6Addr\<close> and \<^verbatim>\<open>IpAddr\<close>, \<^verbatim>\<open>u32::from_str\<close>, \<^verbatim>\<open>str::trim\<close> and the quoted form of a string.  They
  work on the bytes of a string.  The quoted form leaves bytes above 126 as they are, so it differs from
  Rust's on unprintable characters outside ASCII, which only appear in messages.  The lemmas show that
  an IPv4 address parses back from what it prints.
\<close>

subsection \<open>Digits\<close>

definition to_digit :: "nat \<Rightarrow> char \<Rightarrow> nat option" where
  "to_digit radix c =
     (let n = (of_char c :: nat);
          d = (if 48 \<le> n \<and> n \<le> 57 then Some (n - 48)
               else if 97 \<le> n \<and> n \<le> 122 then Some (n - 87)
               else if 65 \<le> n \<and> n \<le> 90 then Some (n - 55)
               else None)
      in case d of Some v \<Rightarrow> if v < radix then Some v else None | None \<Rightarrow> None)"

definition is_digit :: "nat \<Rightarrow> char \<Rightarrow> bool" where
  "is_digit radix c = (to_digit radix c \<noteq> None)"

definition digits_value :: "nat \<Rightarrow> string \<Rightarrow> nat" where
  "digits_value radix ds = foldl (\<lambda>r c. r * radix + (case to_digit radix c of Some d \<Rightarrow> d | None \<Rightarrow> 0)) 0 ds"

text \<open>\<open>Parser::read_number\<close> for a type whose largest value is \<open>upper\<close>.\<close>

definition read_number :: "nat \<Rightarrow> nat \<Rightarrow> bool \<Rightarrow> nat \<Rightarrow> string \<Rightarrow> (nat \<times> string) option" where
  "read_number radix max_digits allow_zero_prefix upper s =
     (let ds = takeWhile (is_digit radix) s
      in if max_digits < length ds \<or> ds = [] then None
         else if \<not> allow_zero_prefix \<and> hd ds = CHR ''0'' \<and> 1 < length ds then None
         else if upper < digits_value radix ds then None
         else Some (digits_value radix ds, drop (length ds) s))"

definition read_given_char :: "char \<Rightarrow> string \<Rightarrow> string option" where
  "read_given_char c s = (case s of x # xs \<Rightarrow> if x = c then Some xs else None | [] \<Rightarrow> None)"

definition read_separator :: "char \<Rightarrow> nat \<Rightarrow> (string \<Rightarrow> ('a \<times> string) option) \<Rightarrow> string \<Rightarrow> ('a \<times> string) option" where
  "read_separator sep index inner s =
     (if 0 < index then Option.bind (read_given_char sep s) inner else inner s)"

subsection \<open>IPv4\<close>

definition ipv4_of_octets :: "nat \<Rightarrow> nat \<Rightarrow> nat \<Rightarrow> nat \<Rightarrow> ipv4" where
  "ipv4_of_octets a b c d = of_nat (((a * 256 + b) * 256 + c) * 256 + d)"

definition octet :: "nat \<Rightarrow> ipv4 \<Rightarrow> nat" where
  "octet i a = unat a div 256 ^ (3 - i) mod 256"

definition read_ipv4_addr :: "string \<Rightarrow> (ipv4 \<times> string) option" where
  "read_ipv4_addr s =
     (case read_separator CHR ''.'' 0 (read_number 10 3 False 255) s of None \<Rightarrow> None | Some (a, s1) \<Rightarrow>
      (case read_separator CHR ''.'' 1 (read_number 10 3 False 255) s1 of None \<Rightarrow> None | Some (b, s2) \<Rightarrow>
      (case read_separator CHR ''.'' 2 (read_number 10 3 False 255) s2 of None \<Rightarrow> None | Some (c, s3) \<Rightarrow>
      (case read_separator CHR ''.'' 3 (read_number 10 3 False 255) s3 of None \<Rightarrow> None | Some (d, s4) \<Rightarrow>
       Some (ipv4_of_octets a b c d, s4)))))"

definition parse_ipv4 :: "string \<Rightarrow> ipv4 option" where
  "parse_ipv4 s =
     (if 15 < length s then None
      else case read_ipv4_addr s of Some (a, []) \<Rightarrow> Some a | _ \<Rightarrow> None)"

definition show_ipv4 :: "ipv4 \<Rightarrow> string" where
  "show_ipv4 a = show_nat (octet 0 a) @ ''.'' @ show_nat (octet 1 a) @ ''.'' @ show_nat (octet 2 a) @ ''.''
     @ show_nat (octet 3 a)"

subsection \<open>IPv6\<close>

text \<open>An address is its eight groups.  \<open>read_groups i limit\<close> reads the groups from the \<open>i\<close>th on.\<close>

function read_groups :: "nat \<Rightarrow> nat \<Rightarrow> string \<Rightarrow> nat list \<times> bool \<times> string" where
  "read_groups i limit s =
     (if limit \<le> i then ([], False, s)
      else case (if Suc i < limit then read_separator CHR '':'' i read_ipv4_addr s else None) of
        Some (v4, s') \<Rightarrow> ([octet 0 v4 * 256 + octet 1 v4, octet 2 v4 * 256 + octet 3 v4], True, s')
      | None \<Rightarrow> (case read_separator CHR '':'' i (read_number 16 4 True 65535) s of
          Some (g, s') \<Rightarrow> (case read_groups (Suc i) limit s' of (gs, v4, s'') \<Rightarrow> (g # gs, v4, s''))
        | None \<Rightarrow> ([], False, s)))"
  by pat_completeness auto
termination
  by (relation "measure (\<lambda>(i, limit, s). limit - i)") auto

declare read_groups.simps [simp del]

definition read_ipv6_addr :: "string \<Rightarrow> (nat list \<times> string) option" where
  "read_ipv6_addr s =
     (case read_groups 0 8 s of (hd_groups, hd_ipv4, s1) \<Rightarrow>
      if length hd_groups = 8 then Some (hd_groups, s1)
      else if hd_ipv4 then None
      else case Option.bind (read_given_char CHR '':'' s1) (read_given_char CHR '':'') of
        None \<Rightarrow> None
      | Some s2 \<Rightarrow> (case read_groups 0 (8 - (length hd_groups + 1)) s2 of (tl_groups, _, s3) \<Rightarrow>
          Some (hd_groups @ replicate (8 - length hd_groups - length tl_groups) 0 @ tl_groups, s3)))"

definition hex_char :: "nat \<Rightarrow> char" where
  "hex_char d = (if d < 10 then char_of (48 + d) else char_of (87 + d))"

fun show_hex :: "nat \<Rightarrow> string" where
  "show_hex n = (if n < 16 then [hex_char n] else show_hex (n div 16) @ [hex_char (n mod 16)])"

declare show_hex.simps [simp del]

text \<open>The longest run of zero groups, the first of several: start and length, with the run being read.\<close>

fun zero_span :: "nat \<Rightarrow> nat \<times> nat \<Rightarrow> nat \<times> nat \<Rightarrow> nat list \<Rightarrow> nat \<times> nat" where
  "zero_span i longest current [] = longest"
| "zero_span i longest current (g # gs) =
     (if g = 0
      then let cur = (if snd current = 0 then (i, 1) else (fst current, snd current + 1))
           in zero_span (Suc i) (if snd longest < snd cur then cur else longest) cur gs
      else zero_span (Suc i) longest (0, 0) gs)"

definition fmt_subslice :: "nat list \<Rightarrow> string" where
  "fmt_subslice gs = join_with '':'' (map show_hex gs)"

definition show_ipv6 :: "nat list \<Rightarrow> string" where
  "show_ipv6 gs =
     (if take 6 gs = [0, 0, 0, 0, 0, 65535]
      then ''::ffff:'' @ show_nat (gs ! 6 div 256) @ ''.'' @ show_nat (gs ! 6 mod 256) @ ''.''
        @ show_nat (gs ! 7 div 256) @ ''.'' @ show_nat (gs ! 7 mod 256)
      else case zero_span 0 (0, 0) (0, 0) gs of (start, len) \<Rightarrow>
        if 1 < len then fmt_subslice (take start gs) @ ''::'' @ fmt_subslice (drop (start + len) gs)
        else fmt_subslice gs)"

datatype ip_addr = V4 ipv4 | V6 "nat list"

definition parse_ip :: "string \<Rightarrow> ip_addr option" where
  "parse_ip s =
     (case read_ipv4_addr s of
        Some (a, rest) \<Rightarrow> if rest = [] then Some (V4 a) else None
      | None \<Rightarrow> (case read_ipv6_addr s of Some (gs, []) \<Rightarrow> Some (V6 gs) | _ \<Rightarrow> None))"

fun show_ip :: "ip_addr \<Rightarrow> string" where
  "show_ip (V4 a) = show_ipv4 a"
| "show_ip (V6 gs) = show_ipv6 gs"

subsection \<open>Numbers, white space, quoting\<close>

datatype parse_int_error = IntEmpty | InvalidDigit | PosOverflow

fun parse_int_error_text :: "parse_int_error \<Rightarrow> string" where
  "parse_int_error_text IntEmpty = ''cannot parse integer from empty string''"
| "parse_int_error_text InvalidDigit = ''invalid digit found in string''"
| "parse_int_error_text PosOverflow = ''number too large to fit in target type''"

fun parse_digits :: "nat \<Rightarrow> nat \<Rightarrow> string \<Rightarrow> (parse_int_error, nat) result" where
  "parse_digits upper acc [] = Inr acc"
| "parse_digits upper acc (c # cs) =
     (case to_digit 10 c of
        None \<Rightarrow> Inl InvalidDigit
      | Some d \<Rightarrow> if upper < acc * 10 \<or> upper < acc * 10 + d then Inl PosOverflow else parse_digits upper (acc * 10 + d) cs)"

definition parse_uint :: "nat \<Rightarrow> string \<Rightarrow> (parse_int_error, nat) result" where
  "parse_uint upper s =
     (if s = [] then Inl IntEmpty
      else if s = ''+'' then Inl InvalidDigit
      else if hd s = CHR ''+'' then parse_digits upper 0 (tl s)
      else parse_digits upper 0 s)"

definition parse_u32 :: "string \<Rightarrow> (parse_int_error, nat) result" where
  "parse_u32 = parse_uint u32_max"

definition parse_u16 :: "string \<Rightarrow> (parse_int_error, nat) result" where
  "parse_u16 = parse_uint 65535"

text \<open>\<^verbatim>\<open>str::split_once\<close> with a text as the separator.\<close>

fun split_once_str :: "string \<Rightarrow> string \<Rightarrow> (string \<times> string) option" where
  "split_once_str sep s =
     (if take (length sep) s = sep then Some ([], drop (length sep) s)
      else case s of [] \<Rightarrow> None | c # cs \<Rightarrow> map_option (\<lambda>(a, b). (c # a, b)) (split_once_str sep cs))"

declare split_once_str.simps [simp del]

definition addr_parse_error :: string where "addr_parse_error = ''invalid IPv4 address syntax''"

definition escape_char :: "char \<Rightarrow> string" where
  "escape_char c =
     (let n = (of_char c :: nat)
      in if n = 0 then [CHR 0x5C, CHR ''0'']
         else if n = 9 then [CHR 0x5C, CHR ''t'']
         else if n = 10 then [CHR 0x5C, CHR ''n'']
         else if n = 13 then [CHR 0x5C, CHR ''r'']
         else if n = 34 \<or> n = 92 then [CHR 0x5C, c]
         else if n < 32 \<or> n = 127 then [CHR 0x5C] @ ''u{'' @ show_hex n @ ''}''
         else [c])"

definition debug_str :: "string \<Rightarrow> string" where
  "debug_str s = [CHR 0x22] @ concat (map escape_char s) @ [CHR 0x22]"

text \<open>The encodings of the characters with Unicode's white-space property.\<close>

definition byte_string :: "nat list \<Rightarrow> string" where
  "byte_string ns = map char_of ns"

definition white_space :: "string list" where
  "white_space = map byte_string ([[9], [10], [11], [12], [13], [32], [0xC2, 0x85], [0xC2, 0xA0], [0xE1, 0x9A, 0x80],
     [0xE2, 0x80, 0xA8], [0xE2, 0x80, 0xA9], [0xE2, 0x80, 0xAF], [0xE2, 0x81, 0x9F], [0xE3, 0x80, 0x80]]
     @ map (\<lambda>i. [0xE2, 0x80, 0x80 + i]) [0..<11])"

lemma white_space_code [code]:
  "white_space =
    [[CHR 0x09], [CHR 0x0A], [CHR 0x0B], [CHR 0x0C], [CHR 0x0D], [CHR 0x20], [CHR 0xC2, CHR 0x85], [CHR 0xC2, CHR
     0xA0], [CHR 0xE1, CHR 0x9A, CHR 0x80], [CHR 0xE2, CHR 0x80, CHR 0xA8], [CHR 0xE2, CHR 0x80, CHR 0xA9], [CHR
     0xE2, CHR 0x80, CHR 0xAF], [CHR 0xE2, CHR 0x81, CHR 0x9F], [CHR 0xE3, CHR 0x80, CHR 0x80], [CHR 0xE2, CHR
     0x80, CHR 0x80], [CHR 0xE2, CHR 0x80, CHR 0x81], [CHR 0xE2, CHR 0x80, CHR 0x82], [CHR 0xE2, CHR 0x80, CHR
     0x83], [CHR 0xE2, CHR 0x80, CHR 0x84], [CHR 0xE2, CHR 0x80, CHR 0x85], [CHR 0xE2, CHR 0x80, CHR 0x86], [CHR
     0xE2, CHR 0x80, CHR 0x87], [CHR 0xE2, CHR 0x80, CHR 0x88], [CHR 0xE2, CHR 0x80, CHR 0x89], [CHR 0xE2, CHR
     0x80, CHR 0x8A]]"
  by (simp add: white_space_def byte_string_def char_of_def upt_rec bit_0)

fun strip_any :: "nat \<Rightarrow> string list \<Rightarrow> string \<Rightarrow> string" where
  "strip_any 0 ws s = s"
| "strip_any (Suc fuel) ws s =
     (case find (\<lambda>w. take (length w) s = w) ws of
        Some w \<Rightarrow> strip_any fuel ws (drop (length w) s)
      | None \<Rightarrow> s)"

definition trim :: "string \<Rightarrow> string" where
  "trim s =
     (let a = strip_any (length s) white_space s
      in rev (strip_any (length a) (map rev white_space) (rev a)))"


subsection \<open>IPv4 addresses parse back\<close>

lemma to_digit_digit_char [simp]: "d < 10 \<Longrightarrow> to_digit 10 (digit_char d) = Some d"
  by (simp add: to_digit_def digit_char_def)

lemma is_digit_digit_char [simp]: "d < 10 \<Longrightarrow> is_digit 10 (digit_char d)"
  by (simp add: is_digit_def)

lemma digit_char_0 [simp]: "digit_char 0 = CHR ''0''"
  by (simp add: digit_char_def char_of_def bit_0)

lemma digit_char_is_0: "n < 10 \<Longrightarrow> digit_char n = CHR ''0'' \<longleftrightarrow> n = 0"
  by (metis digit_char_0 option.inject to_digit_digit_char zero_less_numeral)

lemma digits_value_Nil [simp]: "digits_value radix [] = 0"
  by (simp add: digits_value_def)

lemma digits_value_snoc:
  "digits_value radix (ds @ [c]) = digits_value radix ds * radix + (case to_digit radix c of Some d \<Rightarrow> d | None \<Rightarrow> 0)"
  by (simp add: digits_value_def)

lemma show_nat_not_Nil [simp]: "show_nat n \<noteq> []"
  by (subst show_nat.simps) simp

lemma digits_value_show_nat [simp]: "digits_value 10 (show_nat n) = n"
proof (induction n rule: show_nat.induct)
  case (1 n)
  show ?case
  proof (cases "n < 10")
    case True
    then show ?thesis
      by (subst show_nat.simps) (simp add: digits_value_def)
  next
    case False
    with 1 show ?thesis
      by (subst show_nat.simps) (simp add: digits_value_snoc)
  qed
qed

lemma show_nat_digits: "list_all (is_digit 10) (show_nat n)"
proof (induction n rule: show_nat.induct)
  case (1 n)
  then show ?case
    by (subst show_nat.simps) simp
qed

lemma hd_show_nat: "hd (show_nat n) = CHR ''0'' \<longleftrightarrow> n = 0"
proof (induction n rule: show_nat.induct)
  case (1 n)
  then show ?case
    by (subst show_nat.simps) (auto simp: hd_append digit_char_is_0)
qed

lemma show_nat_0 [simp]: "show_nat 0 = ''0''"
  by (subst show_nat.simps) simp

lemma length_show_nat: "n < 10 ^ Suc k \<Longrightarrow> length (show_nat n) \<le> Suc k"
proof (induction k arbitrary: n)
  case 0
  then show ?case by (subst show_nat.simps) simp
next
  case (Suc k)
  then have "n div 10 < 10 ^ Suc k"
    by (simp add: less_mult_imp_div_less)
  with Suc.IH [of "n div 10"] show ?case
    by (subst show_nat.simps) simp
qed

lemma takeWhile_digits:
  assumes "rest = [] \<or> \<not> is_digit 10 (hd rest)"
  shows "takeWhile (is_digit 10) (show_nat n @ rest) = show_nat n"
  using assms show_nat_digits [of n] by (cases rest) (simp_all add: takeWhile_append2 list_all_iff)

lemma read_number_show_nat:
  assumes "n \<le> 255" and "rest = [] \<or> \<not> is_digit 10 (hd rest)"
  shows "read_number 10 3 False 255 (show_nat n @ rest) = Some (n, rest)"
proof -
  have "length (show_nat n) \<le> 3"
    using length_show_nat [of n 2] assms(1) by (simp add: eval_nat_numeral)
  moreover have lead: "\<not> (n = 0 \<and> Suc 0 < length (show_nat n))"
    by (cases "n = 0") simp_all
  ultimately show ?thesis
    using assms by (simp add: read_number_def Let_def takeWhile_digits hd_show_nat lead del: de_Morgan_conj)
qed

lemma dot_not_digit [simp]: "\<not> is_digit 10 CHR ''.''"
  by (simp add: is_digit_def to_digit_def)

lemma octet_le [simp]: "octet i a \<le> 255"
  using mod_less_divisor [of 256 "unat a div 256 ^ (3 - i)"] by (simp add: octet_def)

lemma octets_value:
  "((n div 16777216 * 256 + n div 65536 mod 256) * 256 + n div 256 mod 256) * 256 + n mod 256 = (n :: nat)"
proof -
  have "n div 16777216 = n div 65536 div 256" and "n div 65536 = n div 256 div 256"
    by (simp_all flip: div_mult2_eq)
  then show ?thesis
    by simp
qed

lemma ipv4_of_octets_octet: "ipv4_of_octets (octet 0 a) (octet (Suc 0) a) (octet 2 a) (octet 3 a) = a"
proof -
  have "unat a < 4294967296"
    using unsigned_less [of a, where ?'a = nat] by simp
  then have "unat a div 16777216 mod 256 = unat a div 16777216"
    by (simp add: less_mult_imp_div_less)
  with octets_value [of "unat a"]
  have "((octet 0 a * 256 + octet (Suc 0) a) * 256 + octet 2 a) * 256 + octet 3 a = unat a"
    by (simp add: octet_def)
  then show ?thesis
    unfolding ipv4_of_octets_def by simp
qed

lemma read_ipv4_show:
  assumes "rest = [] \<or> \<not> is_digit 10 (hd rest)"
  shows "read_ipv4_addr (show_ipv4 a @ rest) = Some (a, rest)"
  using assms by (simp add: read_ipv4_addr_def show_ipv4_def read_separator_def read_given_char_def
      read_number_show_nat ipv4_of_octets_octet)

lemma length_show_ipv4: "length (show_ipv4 a) \<le> 15"
proof -
  have "length (show_nat (octet i a)) \<le> 3" for i
    using length_show_nat [of "octet i a" 2] octet_le [of i a] by (simp add: eval_nat_numeral)
  from this [of 0] this [of 1] this [of 2] this [of 3] show ?thesis
    by (simp add: show_ipv4_def)
qed

lemma parse_show_ipv4 [simp]: "parse_ipv4 (show_ipv4 a) = Some a"
  using read_ipv4_show [of "[]" a] length_show_ipv4 [of a] by (simp add: parse_ipv4_def)

lemma parse_ip_show_ipv4: "parse_ip (show_ipv4 a) = Some (V4 a)"
  using read_ipv4_show [of "[]" a] by (simp add: parse_ip_def)


subsection \<open>CIDR blocks\<close>

text \<open>The block of an address with \<open>h\<close> host bits: its first and last address, as words and as numbers.\<close>

lemma network_base: "and addr (push_bit h (- 1)) = push_bit h (drop_bit h (addr :: ipv4))"
  by (rule bit_word_eqI) (auto simp: bit_simps)
lemma network_end: "or (push_bit h (drop_bit h addr)) (not (push_bit h (- 1))) = push_bit h (drop_bit h (addr :: ipv4)) + mask h"
proof -
  have "or (push_bit h (drop_bit h addr)) (not (push_bit h (- 1))) = or (push_bit h (drop_bit h addr)) (mask h)"
    by (rule bit_word_eqI) (auto simp: bit_simps)
  also have "\<dots> = push_bit h (drop_bit h addr) + mask h"
    by (rule disjunctive_add_eq_or [symmetric]) (rule bit_word_eqI, auto simp: bit_simps)
  finally show ?thesis .
qed
lemma unat_network_base: "unat (push_bit h (drop_bit h (addr :: ipv4))) = unat addr div 2 ^ h * 2 ^ h"
proof -
  have small: "unat addr div 2 ^ h * 2 ^ h < 2 ^ 32"
    using le_less_trans [OF div_times_less_eq_dividend unsigned_less, of addr "2 ^ h"] by simp
  have "unat (drop_bit h addr) = unat addr div 2 ^ h"
    using unsigned_less [of addr, where ?'a = nat]
    by (simp add: unsigned_drop_bit_eq take_bit_nat_eq_self drop_bit_eq_div [of h "unat addr"])
  then have "unat (push_bit h (drop_bit h addr)) = take_bit 32 (unat addr div 2 ^ h * 2 ^ h)"
    by (simp add: unsigned_push_bit_eq push_bit_eq_mult [of h "_ :: nat"])
  with small show ?thesis
    by (simp add: take_bit_nat_eq_self)
qed

lemma unat_mask32:
  assumes "h < 32"
  shows "unat (mask h :: ipv4) = 2 ^ h - 1"
proof -
  have "int (unat (mask h :: ipv4)) = mask h"
    using assms by (simp add: uint_mask_eq min_def)
  also have "\<dots> = 2 ^ h - 1"
    by (rule mask_eq_exp_minus_1)
  also have "\<dots> = int (2 ^ h - 1)"
    by (simp add: of_nat_diff)
  finally show ?thesis
    by (simp only: of_nat_eq_iff)
qed

lemma unat_network_end:
  assumes "h < 32"
  shows "unat (push_bit h (drop_bit h (addr :: ipv4)) + mask h) = unat addr div 2 ^ h * 2 ^ h + (2 ^ h - 1)"
proof -
  have pow: "2 ^ (32 - h) * 2 ^ h = (2 ^ 32 :: nat)"
    using assms by (simp flip: power_add)
  then have "unat addr div 2 ^ h < 2 ^ (32 - h)"
    using unsigned_less [of addr, where ?'a = nat] by (intro less_mult_imp_div_less) simp
  then have "(unat addr div 2 ^ h + 1) * 2 ^ h \<le> 2 ^ (32 - h) * 2 ^ h"
    by (intro mult_le_mono1) simp
  then have "unat addr div 2 ^ h * 2 ^ h + 2 ^ h \<le> 2 ^ 32"
    unfolding pow by (simp only: add_mult_distrib mult_1)
  moreover have "(0 :: nat) < 2 ^ h"
    by simp
  ultimately have "unat addr div 2 ^ h * 2 ^ h + (2 ^ h - 1) < 2 ^ 32"
    by linarith
  then show ?thesis
    using unat_add_lem [of "push_bit h (drop_bit h addr)" "mask h :: ipv4"] by (simp add: unat_network_base unat_mask32 assms)
qed

lemma between_block:
  fixes b d x :: nat
  assumes "0 < b"
  shows "(d * b \<le> x \<and> x \<le> d * b + (b - 1)) = (x div b = d)"
proof
  assume "d * b \<le> x \<and> x \<le> d * b + (b - 1)"
  then show "x div b = d"
    using assms by (intro div_nat_eqI) (auto simp: mult.commute)
next
  assume "x div b = d"
  moreover have "x mod b \<le> b - 1"
    using assms mod_less_divisor [of b x] by linarith
  ultimately show "d * b \<le> x \<and> x \<le> d * b + (b - 1)"
    using div_mult_mod_eq [of x b] by auto
qed

subsection \<open>Printed text contains no separators\<close>

lemma parse_digits_value:
  assumes "list_all (is_digit 10) ds"
    and "foldl (\<lambda>r c. r * 10 + (case to_digit 10 c of Some d \<Rightarrow> d | None \<Rightarrow> 0)) acc ds \<le> upper"
  shows "parse_digits upper acc ds =
    Inr (foldl (\<lambda>r c. r * 10 + (case to_digit 10 c of Some d \<Rightarrow> d | None \<Rightarrow> 0)) acc ds)"
  using assms
proof (induction ds arbitrary: acc)
  case (Cons c cs)
  then obtain d where d: "to_digit 10 c = Some d"
    by (auto simp: is_digit_def)
  let ?f = "\<lambda>r c. r * 10 + (case to_digit 10 c of Some d \<Rightarrow> d | None \<Rightarrow> (0 :: nat))"
  have mono: "x \<le> foldl ?f x zs" for x zs
  proof (induction zs arbitrary: x)
    case (Cons z zs)
    have "x \<le> ?f x z"
      by simp
    also have "\<dots> \<le> foldl ?f (?f x z) zs"
      by (rule Cons)
    finally show ?case
      by simp
  qed simp
  from mono [of "acc * 10 + d" cs] Cons d show ?case
    by simp
qed simp

lemma parse_u32_show_nat:
  assumes "n \<le> u32_max"
  shows "parse_u32 (show_nat n) = Inr n"
proof -
  have plus: "\<not> is_digit 10 CHR ''+''"
    by (simp add: is_digit_def to_digit_def)
  have "hd (show_nat n) \<noteq> CHR ''+''" "show_nat n \<noteq> ''+''"
    using show_nat_digits [of n] plus by (cases "show_nat n"; auto)+
  moreover have "parse_digits u32_max 0 (show_nat n) = Inr n"
    using parse_digits_value [OF show_nat_digits, of 0 n u32_max] digits_value_show_nat [of n] assms
    by (simp add: digits_value_def)
  ultimately show ?thesis
    by (simp add: parse_u32_def parse_uint_def)
qed

lemma show_ipv4_chars: "c \<in> set (show_ipv4 a) \<Longrightarrow> is_digit 10 c \<or> c = CHR ''.''"
  using show_nat_digits by (auto simp: show_ipv4_def list_all_iff)

lemma show_ipv4_no_separator: "CHR ''/'' \<notin> set (show_ipv4 a)" "CHR ''-'' \<notin> set (show_ipv4 a)"
  using show_ipv4_chars [of "CHR ''/''" a] show_ipv4_chars [of "CHR ''-''" a]
  by (auto simp: is_digit_def to_digit_def)

lemma split_once_append: "c \<notin> set xs \<Longrightarrow> split_once c (xs @ c # ys) = Some (xs, ys)"
  by (induction xs) auto

end
