(* ===== verification/Pool_Reconcile.thy ===== *)
theory Pool_Reconcile
  imports Controller Net Scheduler
begin

section \<open>The pool reconciler\<close>

text \<open>
  Model of \<^verbatim>\<open>crates/banlieue-controller/src/reconciler/pool.rs\<close>: the snapshot a pool's planner gets, the
  members it creates and deletes, and the status it publishes.  The lemmas show that an address pool entry
  denotes the right addresses, that the address stamped on a member is the one the planner reads back,
  that the only deletions are those of unclaimed members of the listing, and what the published counts
  are.
\<close>

subsection \<open>Names\<close>

definition WARM :: string where "WARM = ''Warm''"
definition CAPACITY :: string where "CAPACITY = ''Capacity''"
definition BOUND :: string where "BOUND = ''Bound''"
definition FILLING :: string where "FILLING = ''Filling''"
definition MAX_REPLICAS_REACHED :: string where "MAX_REPLICAS_REACHED = ''MaxReplicasReached''"
definition ADDRESS_RANGE_EXHAUSTED :: string where "ADDRESS_RANGE_EXHAUSTED = ''AddressRangeExhausted''"
definition READINESS_SIGNAL_ABSENT :: string where "READINESS_SIGNAL_ABSENT = ''ReadinessSignalAbsent''"
definition EXPIRED :: string where "EXPIRED = ''Expired''"
definition RELEASED :: string where "RELEASED = ''Released''"
definition MEMBER_LOST :: string where "MEMBER_LOST = ''MemberLost''"

subsection \<open>Pure parts\<close>

definition pool_for_member :: "virtual_machine \<Rightarrow> (string \<times> string option) option" where
  "pool_for_member vm = map_option (\<lambda>pool. (pool, om_namespace (vm_meta vm))) (map_of (meta_labels (vm_meta vm)) LABEL_POOL)"

definition warm_reason :: "bool \<Rightarrow> string option \<Rightarrow> string" where
  "warm_reason warm blocked_reason =
     (if warm then WARM
      else case blocked_reason of
        Some r \<Rightarrow> if r = READINESS_SIGNAL_ABSENT then r else FILLING
      | None \<Rightarrow> FILLING)"

fun readiness_condition_type :: "pool_readiness \<Rightarrow> string" where
  "readiness_condition_type GuestReady = ''GuestReady''"
| "readiness_condition_type InfrastructureReady = INFRASTRUCTURE_READY"

definition readiness_signal_absent :: "string \<Rightarrow> condition list list \<Rightarrow> bool" where
  "readiness_signal_absent condition_type member_conditions =
     (if member_conditions = [] then False
      else \<not> list_ex (\<lambda>cs. list_ex (\<lambda>c. c_type c = condition_type) cs) member_conditions)"

definition show_int :: "int \<Rightarrow> string" where
  "show_int i = (if i < 0 then ''-'' @ show_nat (nat (- i)) else show_nat (nat i))"

definition image_revision :: "vm_image \<Rightarrow> string" where
  "image_revision img =
     (case Option.bind (Option.bind (vmi_status img) vist_build_artifact) bas_os_artifact_uid of
        Some uid \<Rightarrow> uid
      | None \<Rightarrow> ''gen-'' @ show_int (generation_or_zero (vmi_meta img)))"

definition secs_since :: "jiff \<Rightarrow> timestamp \<Rightarrow> timestamp \<Rightarrow> nat" where
  "secs_since j now t = nat (jf_as_second j now - jf_as_second j t)"

definition ready_since :: "virtual_machine \<Rightarrow> pool_readiness \<Rightarrow> timestamp option" where
  "ready_since vm readiness =
     (let wanted = (case readiness of GuestReady \<Rightarrow> GUEST_READY | InfrastructureReady \<Rightarrow> INFRASTRUCTURE_READY)
      in Option.bind (vm_status vm) (\<lambda>s. map_option c_last_transition_time
           (find (\<lambda>c. c_type c = wanted \<and> c_status c = TRUE) (vst_conditions s))))"

definition member_view_of :: "jiff \<Rightarrow> virtual_machine \<Rightarrow> pool_readiness \<Rightarrow> timestamp \<Rightarrow> member_view" where
  "member_view_of j vm readiness now =
     \<lparr>mv_name = name_any (vm_meta vm),
      mv_phase =
        (if om_deletion_timestamp (vm_meta vm) \<noteq> None then Deleting
         else if map_of (meta_labels (vm_meta vm)) LABEL_CLAIM \<noteq> None then Claimed
         else if ready_since vm readiness \<noteq> None then Ready
         else Provisioning),
      mv_age_secs = (case om_creation_timestamp (vm_meta vm) of Some t \<Rightarrow> secs_since j now t | None \<Rightarrow> 0),
      mv_ready_for_secs = (case ready_since vm readiness of Some t \<Rightarrow> secs_since j now t | None \<Rightarrow> 0),
      mv_image_revision =
        (case map_of (meta_labels (vm_meta vm)) LABEL_POOL_IMAGE_REVISION of Some r \<Rightarrow> r | None \<Rightarrow> ''''),
      mv_address =
        (case vs_network_overrides (vm_spec vm) of
           [] \<Rightarrow> None
         | ov # _ \<Rightarrow> parse_ipv4 (sic_address (nio_static ov)))\<rparr>"

definition MAX_IPV4_PREFIX_LEN :: nat where "MAX_IPV4_PREFIX_LEN = 32"

definition cidr_range :: "ipv4 \<Rightarrow> nat \<Rightarrow> address_range" where
  "cidr_range addr prefix_len =
     (let host_bits = MAX_IPV4_PREFIX_LEN - prefix_len;
          mask = (if host_bits = MAX_IPV4_PREFIX_LEN then 0 else push_bit host_bits (- 1));
          base = and addr mask
      in \<lparr>ar_start = base, ar_end = or base (not mask)\<rparr>)"

definition parse_address_pool_entry :: "string \<Rightarrow> (string, address_range) result" where
  "parse_address_pool_entry entry =
     (case split_once CHR ''/'' entry of
        Some (network, prefix) \<Rightarrow>
          (case parse_ipv4 network of
             None \<Rightarrow> Inl (debug_str entry @ '': invalid network '' @ debug_str network @ '': '' @ addr_parse_error)
           | Some addr \<Rightarrow> (case parse_u32 prefix of
               Inl e \<Rightarrow> Inl (debug_str entry @ '': invalid prefix length '' @ debug_str prefix @ '': '' @ parse_int_error_text e)
             | Inr prefix_len \<Rightarrow>
                 if MAX_IPV4_PREFIX_LEN < prefix_len
                 then Inl (debug_str entry @ '': prefix length '' @ show_nat prefix_len @ '' exceeds ''
                   @ show_nat MAX_IPV4_PREFIX_LEN)
                 else Inr (cidr_range addr prefix_len)))
      | None \<Rightarrow> (case split_once CHR ''-'' entry of
          Some (start, end_text) \<Rightarrow>
            (case parse_ipv4 start of
               None \<Rightarrow> Inl (debug_str entry @ '': invalid range start '' @ debug_str start @ '': '' @ addr_parse_error)
             | Some a \<Rightarrow> (case parse_ipv4 end_text of
                 None \<Rightarrow> Inl (debug_str entry @ '': invalid range end '' @ debug_str end_text @ '': '' @ addr_parse_error)
               | Some b \<Rightarrow> Inr \<lparr>ar_start = a, ar_end = b\<rparr>))
        | None \<Rightarrow> (case parse_ipv4 entry of
            None \<Rightarrow> Inl (debug_str entry @ '': not a single address, range, or CIDR: '' @ addr_parse_error)
          | Some a \<Rightarrow> Inr \<lparr>ar_start = a, ar_end = a\<rparr>)))"

fun parse_address_pool :: "string list \<Rightarrow> (string, address_range list) result" where
  "parse_address_pool [] = Inr []"
| "parse_address_pool (entry # entries) =
     (case parse_address_pool_entry entry of
        Inl e \<Rightarrow> Inl (''addressing.pool: '' @ e)
      | Inr r \<Rightarrow> (case parse_address_pool entries of Inl e \<Rightarrow> Inl e | Inr rs \<Rightarrow> Inr (r # rs)))"

definition pool_inputs_of :: "virtual_machine_pool \<Rightarrow> string \<Rightarrow> (string, pool_inputs) result" where
  "pool_inputs_of pool revision =
     (case (case vps_addressing (vp_spec pool) of None \<Rightarrow> Inr [] | Some a \<Rightarrow> parse_address_pool (pad_pool a)) of
        Inl e \<Rightarrow> Inl e
      | Inr ranges \<Rightarrow> Inr
          \<lparr>pi_warm_replicas = vps_warm_replicas (vp_spec pool), pi_max_replicas = vps_max_replicas (vp_spec pool),
           pi_max_surge = vps_max_surge (vp_spec pool),
           pi_provisioning_timeout_secs = vps_provisioning_timeout_seconds (vp_spec pool),
           pi_max_idle_secs = vps_max_idle_seconds (vp_spec pool),
           pi_recycle_on_image_change = vps_recycle_on_image_change (vp_spec pool),
           pi_current_image_revision = revision, pi_address_ranges = ranges\<rparr>)"

definition stamp_address :: "pool_addressing \<Rightarrow> ipv4 \<Rightarrow> network_interface_override" where
  "stamp_address a address =
     \<lparr>nio_name = pad_interface a,
      nio_static = \<lparr>sic_address = show_ipv4 address, sic_prefix = pad_prefix a, sic_gateway = pad_gateway a,
        sic_nameservers = pad_nameservers a, sic_domain = pad_domain a\<rparr>\<rparr>"

definition member_spec :: "virtual_machine_pool \<Rightarrow> new_member \<Rightarrow> virtual_machine_spec" where
  "member_spec pool new =
     (let spec = vmt_spec (vps_template (vp_spec pool))
      in case (vps_addressing (vp_spec pool), nm_address new) of
           (Some addressing, Some address) \<Rightarrow>
             spec\<lparr>vs_network_overrides := stamp_address addressing address
               # filter (\<lambda>ov. nio_name ov \<noteq> pad_interface addressing) (vs_network_overrides spec)\<rparr>
         | _ \<Rightarrow> spec)"

definition build_member ::
  "'w ctx \<Rightarrow> virtual_machine_pool \<Rightarrow> string \<Rightarrow> new_member \<Rightarrow> (error, virtual_machine) result" where
  "build_member ctx pool revision new =
     (let pool_name = name_any (vp_meta pool);
          labels = bt_insert LABEL_POOL_IMAGE_REVISION revision
            (bt_insert LABEL_POOL pool_name (vmt_labels (vps_template (vp_spec pool))))
      in case env_owner_ref (ctx_env ctx) (vp_meta pool) of
           None \<Rightarrow> Inl (Missing ''metadata.uid'')
         | Some owner \<Rightarrow> Inr
             \<lparr>vm_meta = empty_meta\<lparr>om_generate_name := Some (pool_name @ ''-''),
                om_namespace := om_namespace (vp_meta pool), om_labels := Some labels,
                om_annotations := Some (vmt_annotations (vps_template (vp_spec pool))),
                om_owner_references := Some [owner]\<rparr>,
              vm_spec = member_spec pool new, vm_status = None\<rparr>)"

definition existing_conditions :: "virtual_machine_pool \<Rightarrow> condition list" where
  "existing_conditions pool = (case vp_status pool of Some s \<Rightarrow> vpst_conditions s | None \<Rightarrow> [])"

subsection \<open>Publishing and reconciling\<close>

definition count_views :: "member_view list \<Rightarrow> member_phase \<Rightarrow> nat" where
  "count_views views p = len_u32 (length (filter (\<lambda>m. mv_phase m = p) views))"

definition pool_status ::
  "member_view list \<Rightarrow> string \<Rightarrow> condition list \<Rightarrow> int \<Rightarrow> virtual_machine_pool_status" where
  "pool_status views revision conditions generation =
     \<lparr>vpst_replicas = wadd32 (wadd32 (count_views views Ready) (count_views views Provisioning)) (count_views views Claimed),
      vpst_available = count_views views Ready, vpst_provisioning = count_views views Provisioning,
      vpst_claimed = count_views views Claimed, vpst_image_revision = Some revision,
      vpst_conditions = conditions, vpst_observed_generation = Some generation\<rparr>"

definition publish ::
  "'w ctx \<Rightarrow> string \<Rightarrow> string \<Rightarrow> int \<Rightarrow> virtual_machine_pool \<Rightarrow> condition list \<Rightarrow> member_view list \<Rightarrow> string
     \<Rightarrow> (string \<times> string) option \<Rightarrow> ('w, error, unit) io" where
  "publish ctx namespace name generation pool conditions views revision blocked =
     (let available = count_views views Ready;
          warm = (available \<ge> vps_warm_replicas (vp_spec pool))
      in io_bind (set_condition_now ctx conditions WARM (if warm then TRUE else FALSE)
           (warm_reason warm (map_option fst blocked))
           (show_nat available @ ''/'' @ show_nat (vps_warm_replicas (vp_spec pool)) @ '' warm member(s) available'') generation)
         (\<lambda>cs. io_bind
           (case blocked of
              Some (reason, message) \<Rightarrow> set_condition_now ctx cs CAPACITY FALSE reason message generation
            | None \<Rightarrow> set_condition_now ctx cs CAPACITY TRUE WARM ''no creation blocked'' generation)
         (\<lambda>cs'. io_bind (io_err Kube (kpool_status (pools_in ctx namespace) name
             (pool_status views revision cs' generation)))
         (\<lambda>_. io_return ()))))"

definition member_conditions :: "virtual_machine list \<Rightarrow> condition list list" where
  "member_conditions members = map (\<lambda>m. case vm_status m of Some st \<Rightarrow> vst_conditions st | None \<Rightarrow> []) members"

definition blocked_reason :: "virtual_machine_pool \<Rightarrow> virtual_machine list \<Rightarrow> pool_plan \<Rightarrow> (string \<times> string) option" where
  "blocked_reason pool members decided =
     (let want = readiness_condition_type (vps_readiness (vp_spec pool))
      in if readiness_signal_absent want (member_conditions members)
         then Some (READINESS_SIGNAL_ABSENT, ''no member has published the '' @ debug_str want
           @ '' condition; spec.readiness selects a signal nothing is setting'')
         else if 0 < pp_blocked_on_addresses decided
         then Some (ADDRESS_RANGE_EXHAUSTED, show_nat (pp_blocked_on_addresses decided)
           @ '' member(s) not created: address range exhausted'')
         else if 0 < pp_blocked_on_capacity decided
         then Some (MAX_REPLICAS_REACHED, show_nat (pp_blocked_on_capacity decided)
           @ '' member(s) not created: maxReplicas reached'')
         else None)"

definition create_member ::
  "'w ctx \<Rightarrow> string \<Rightarrow> virtual_machine_pool \<Rightarrow> string \<Rightarrow> new_member \<Rightarrow> ('w, error, unit) io" where
  "create_member ctx namespace pool revision new =
     (case build_member ctx pool revision new of
        Inl e \<Rightarrow> io_throw e
      | Inr vm \<Rightarrow> io_bind (io_err Kube (kcreate (vms_in ctx namespace) vm)) (\<lambda>_. io_return ()))"

text \<open>The part of the reconcile after the snapshot: apply the plan and publish.\<close>

definition apply_plan ::
  "'w ctx \<Rightarrow> string \<Rightarrow> virtual_machine_pool \<Rightarrow> string \<Rightarrow> virtual_machine list \<Rightarrow> member_view list \<Rightarrow> pool_plan
     \<Rightarrow> ('w, error, action) io" where
  "apply_plan ctx namespace pool revision members views decided =
     io_bind (io_for (\<lambda>(member, _). delete_ignoring_404 (vms_in ctx namespace) member) (pp_delete decided))
     (\<lambda>_. io_bind (io_for (create_member ctx namespace pool revision) (pp_create decided))
     (\<lambda>_. io_bind (publish ctx namespace (name_any (vp_meta pool)) (generation_or_zero (vp_meta pool)) pool
         (existing_conditions pool) views revision (blocked_reason pool members decided))
     (\<lambda>_. io_return (if pp_create decided = [] \<and> pp_delete decided = [] then requeue_long else requeue_default))))"

definition pool_selector :: "string \<Rightarrow> string" where
  "pool_selector name = LABEL_POOL @ ''='' @ name"

definition reconcile_pool :: "'w ctx \<Rightarrow> virtual_machine_pool \<Rightarrow> ('w, error, action) io" where
  "reconcile_pool ctx pool =
     (case om_namespace (vp_meta pool) of
        None \<Rightarrow> io_throw (Missing ''namespace'')
      | Some namespace \<Rightarrow>
          if om_deletion_timestamp (vp_meta pool) \<noteq> None then io_return requeue_long
          else io_bind (io_err Kube (kget (all_images ctx) (lor_name (vs_image_ref (vmt_spec (vps_template (vp_spec pool)))))))
            (\<lambda>img. io_bind (io_err Kube (klist (vms_in ctx namespace) (Some (pool_selector (name_any (vp_meta pool))))))
            (\<lambda>members. io_bind (now_of ctx)
            (\<lambda>now.
              let revision = image_revision img;
                  views = map (\<lambda>vm. member_view_of (env_jiff (ctx_env ctx)) vm (vps_readiness (vp_spec pool)) now) members
              in case pool_inputs_of pool revision of
                   Inl msg \<Rightarrow> io_bind (publish ctx namespace (name_any (vp_meta pool)) (generation_or_zero (vp_meta pool)) pool
                       (existing_conditions pool) views revision (Some (ADDRESS_RANGE_EXHAUSTED, msg)))
                     (\<lambda>_. io_return requeue_long)
                 | Inr inputs \<Rightarrow> apply_plan ctx namespace pool revision members views (plan inputs views)))))"

definition pool_error_policy :: "error \<Rightarrow> action" where
  "pool_error_policy _ = requeue_on_error"


subsection \<open>What the planner may delete\<close>

lemma reap_names: "fst ` set (fst (reap_provisioning i ms st)) \<subseteq> fst ` set (fst st) \<union> mv_name ` set ms"
  by (induction ms arbitrary: st) (force split: if_splits)+

lemma plan_delete_shape:
  "\<exists>a b c. pp_delete (plan i ms) =
     fst (reap_provisioning i (filter (\<lambda>m. mv_phase m = Provisioning) ms) ([], 0))
     @ scale_down i (fresh_sorted i ms) @ delete_stale (take a (stale_sorted i ms))
     @ delete_stale (take b (drop c (stale_sorted i ms)))"
  unfolding plan_def Let_def case_prod_unfold split_phase fst_conv snd_conv pool_plan.simps fresh_sorted_def stale_sorted_def
  by (intro exI) (rule refl)

lemma plan_deletes_known:
  assumes "n \<in> fst ` set (pp_delete (plan i ms))"
  shows "\<exists>m \<in> set ms. mv_name m = n \<and> mv_phase m \<in> {Provisioning, Ready}"
proof -
  obtain a b c where del: "pp_delete (plan i ms) =
     fst (reap_provisioning i (filter (\<lambda>m. mv_phase m = Provisioning) ms) ([], 0))
     @ scale_down i (fresh_sorted i ms) @ delete_stale (take a (stale_sorted i ms))
     @ delete_stale (take b (drop c (stale_sorted i ms)))"
    using plan_delete_shape by blast
  from assms consider
      "n \<in> fst ` set (fst (reap_provisioning i (filter (\<lambda>m. mv_phase m = Provisioning) ms) ([], 0)))"
    | "n \<in> fst ` set (scale_down i (fresh_sorted i ms))"
    | "n \<in> fst ` set (delete_stale (take a (stale_sorted i ms)))"
    | "n \<in> fst ` set (delete_stale (take b (drop c (stale_sorted i ms))))"
    unfolding del by auto
  then show ?thesis
  proof cases
    case 1
    then show ?thesis
      using reap_names [of i "filter (\<lambda>m. mv_phase m = Provisioning) ms" "([], 0)"] by fastforce
  next
    case 2
    then obtain m where "m \<in> set (fresh_sorted i ms)" "mv_name m = n"
      by (auto simp: scale_down_def Let_def split: if_splits dest: in_set_takeD)
    then show ?thesis
      by (auto simp: set_fresh_sorted)
  qed (auto simp: delete_stale_def set_stale_sorted dest!: in_set_takeD in_set_dropD)
qed


subsection \<open>Deletions of a reconcile\<close>

definition deletes_only :: "string set \<Rightarrow> event \<Rightarrow> bool" where
  "deletes_only ns e = (ev_verb e = Delete \<longrightarrow> ev_kind e = KVirtualMachine \<and> ev_name e \<in> ns)"

lemma deletes_only_simps [simp]:
  "deletes_only ns (Event k n Get a)" "deletes_only ns (Event k n Create a)" "deletes_only ns (Event k n (ListBy s) a)"
  "deletes_only ns (Event k n (PoolStatus p) a)"
  "deletes_only ns (Event k n Delete a) = (k = KVirtualMachine \<and> n \<in> ns)"
  by (simp_all add: deletes_only_def)

lemma emits_publish:
  assumes "\<And>s r. A (Event KVirtualMachinePool name (PoolStatus s) r)"
  shows "emits A (publish ctx ns name g pool cs views revision blocked)"
  unfolding publish_def Let_def
  by (auto intro!: emits_bind emits_err emits_calls assms split: option.split)

lemma emits_create_member:
  assumes "\<And>r. A (Event KVirtualMachine [] Create r)"
  shows "emits A (create_member ctx ns pool revision new)"
  unfolding create_member_def
  by (auto intro!: emits_bind emits_err emits_calls assms split: sum.split)

lemma emits_apply_plan:
  assumes "fst ` set (pp_delete decided) \<subseteq> ns"
  shows "emits (deletes_only ns) (apply_plan ctx namespace pool revision members views decided)"
  unfolding apply_plan_def using assms
  by (intro emits_bind emits_for emits_publish emits_create_member emits_return)
    (force intro!: emits_delete_ignoring_404 split: prod.split)+

text \<open>An unclaimed member that is not being deleted: what the planner may delete.\<close>

definition deletable :: "virtual_machine \<Rightarrow> bool" where
  "deletable vm = (om_deletion_timestamp (vm_meta vm) = None \<and> map_of (meta_labels (vm_meta vm)) LABEL_CLAIM = None)"

lemma member_view_deletable:
  "mv_phase (member_view_of j vm readiness now) \<in> {Provisioning, Ready} \<Longrightarrow> deletable vm"
  by (auto simp: member_view_of_def deletable_def split: if_splits)

lemma plan_deletes_deletable:
  "fst ` set (pp_delete (plan i (map (\<lambda>vm. member_view_of j vm readiness now) members)))
     \<subseteq> (\<lambda>vm. name_any (vm_meta vm)) ` {vm \<in> set members. deletable vm}"
proof
  fix n
  assume "n \<in> fst ` set (pp_delete (plan i (map (\<lambda>vm. member_view_of j vm readiness now) members)))"
  from plan_deletes_known [OF this] obtain vm where "vm \<in> set members"
    "mv_name (member_view_of j vm readiness now) = n" "mv_phase (member_view_of j vm readiness now) \<in> {Provisioning, Ready}"
    by auto
  with member_view_deletable show "n \<in> (\<lambda>vm. name_any (vm_meta vm)) ` {vm \<in> set members. deletable vm}"
    by (force simp: member_view_of_def)
qed

text \<open>The names a listing of the pool's members may lead the reconcile to delete.\<close>

definition listed_deletable :: "'w ctx \<Rightarrow> virtual_machine_pool \<Rightarrow> string set" where
  "listed_deletable ctx pool =
     {name_any (vm_meta vm) | vm namespace w members. om_namespace (vp_meta pool) = Some namespace
        \<and> fst (api_list (vms_in ctx namespace) (Some (pool_selector (name_any (vp_meta pool)))) w) = Inr members
        \<and> vm \<in> set members \<and> deletable vm}"

lemma reconcile_pool_deletes:
  "emits (deletes_only (listed_deletable ctx pool)) (reconcile_pool ctx pool)"
proof (cases "om_namespace (vp_meta pool)")
  case None
  then show ?thesis by (simp add: reconcile_pool_def)
next
  case (Some namespace)
  let ?I = "deletes_only (listed_deletable ctx pool)"
  let ?list = "io_err Kube (klist (vms_in ctx namespace) (Some (pool_selector (name_any (vp_meta pool)))))"
  have plan: "emits ?I (apply_plan ctx namespace pool revision members
      (map (\<lambda>vm. member_view_of j vm readiness now) members) (plan inputs (map (\<lambda>vm. member_view_of j vm readiness now) members)))"
    if "yields ?list members" for revision members inputs j readiness now
    by (rule emits_apply_plan, rule subset_trans [OF plan_deletes_deletable])
      (use yields_calls(1) [OF yields_err [OF that]] Some in \<open>auto simp: listed_deletable_def\<close>)
  show ?thesis
    unfolding reconcile_pool_def Some option.case
    by (auto intro!: emits_bind [where m = "io_err Kube (kget a n)" for a n] emits_bind_yields [where m = ?list]
        emits_bind [where m = "now_of ctx"] emits_bind [where m = "publish a b c d e f g h i" for a b c d e f g h i]
        emits_err emits_calls emits_publish plan simp: Let_def split: sum.split)
qed

text \<open>
  (C29) Whatever the API server answers and whoever else writes, a reconcile of a pool sends a delete only
  for a \<^verbatim>\<open>VirtualMachine\<close> that its own listing of the pool's members returned without a claim label and
  without a deletion timestamp.
\<close>

theorem reconcile_pool_deletes_unclaimed:
  "deletions (trace_of (reconcile_pool ctx pool) w) \<subseteq> {KVirtualMachine} \<times> listed_deletable ctx pool"
  using emits_trace [OF reconcile_pool_deletes] by (force simp: list_all_iff deletions_def)


subsection \<open>Address pool entries\<close>

lemma split_once_absent: "c \<notin> set s \<Longrightarrow> split_once c s = None"
  by simp

lemma cidr_range_mem:
  assumes "p \<le> 32"
  shows "(ar_start (cidr_range a p) \<le> x \<and> x \<le> ar_end (cidr_range a p)) = (unat x div 2 ^ (32 - p) = unat a div 2 ^ (32 - p))"
proof (cases "p = 0")
  case True
  have "unat y div 2 ^ 32 = 0" for y :: ipv4
    using unsigned_less [of y, where ?'a = nat] by simp
  with True show ?thesis
    by (simp add: cidr_range_def MAX_IPV4_PREFIX_LEN_def)
next
  case False
  with assms have h: "32 - p < 32" "32 - p \<noteq> 32"
    by auto
  have "ar_start (cidr_range a p) = push_bit (32 - p) (drop_bit (32 - p) a)"
    "ar_end (cidr_range a p) = push_bit (32 - p) (drop_bit (32 - p) a) + mask (32 - p)"
    using h by (simp_all add: cidr_range_def MAX_IPV4_PREFIX_LEN_def Let_def network_base network_end
        del: push_bit_minus_one_eq_not_mask)
  then show ?thesis
    using between_block [of "2 ^ (32 - p)" "unat a div 2 ^ (32 - p)" "unat x"]
    by (simp add: word_le_nat_alt unat_network_base unat_network_end h)
qed


subsection \<open>Members\<close>

lemma label_names_distinct [simp]:
  "LABEL_CLAIM \<noteq> LABEL_POOL" "LABEL_CLAIM \<noteq> LABEL_POOL_IMAGE_REVISION" "LABEL_POOL \<noteq> LABEL_POOL_IMAGE_REVISION"
  by (simp_all add: LABEL_CLAIM_def LABEL_POOL_def LABEL_POOL_IMAGE_REVISION_def)

text \<open>
  The planner reads back what it handed out: a member built for a plan carries the pool's label and
  the image revision, is owned by the pool, shows up as Provisioning in the next snapshot (when the template
  sets no claim label) and holds exactly the address it was given, so the address counts as used from then
  on.
\<close>

theorem build_member_read_back:
  assumes "build_member ctx pool revision \<lparr>nm_address = Some a\<rparr> = Inr vm"
    and "vps_addressing (vp_spec pool) = Some addressing"
    and "map_of (vmt_labels (vps_template (vp_spec pool))) LABEL_CLAIM = None"
  shows "mv_address (member_view_of j vm readiness now) = Some a
    \<and> mv_phase (member_view_of j vm readiness now) = Provisioning
    \<and> mv_image_revision (member_view_of j vm readiness now) = revision
    \<and> pool_for_member vm = Some (name_any (vp_meta pool), om_namespace (vp_meta pool))
    \<and> om_owner_references (vm_meta vm) = map_option (\<lambda>r. [r]) (env_owner_ref (ctx_env ctx) (vp_meta pool))"
proof -
  from assms(1) obtain owner where owner: "env_owner_ref (ctx_env ctx) (vp_meta pool) = Some owner"
    by (auto simp: build_member_def Let_def split: option.splits)
  with assms(1) have vm: "vm = \<lparr>vm_meta = empty_meta\<lparr>om_generate_name := Some (name_any (vp_meta pool) @ ''-''),
                om_namespace := om_namespace (vp_meta pool), om_labels := Some (bt_insert LABEL_POOL_IMAGE_REVISION revision
            (bt_insert LABEL_POOL (name_any (vp_meta pool)) (vmt_labels (vps_template (vp_spec pool))))),
                om_annotations := Some (vmt_annotations (vps_template (vp_spec pool))),
                om_owner_references := Some [owner]\<rparr>,
              vm_spec = member_spec pool \<lparr>nm_address = Some a\<rparr>, vm_status = None\<rparr>"
    by (simp add: build_member_def Let_def)
  show ?thesis
    using owner assms(2,3)
    by (simp add: vm member_view_of_def ready_since_def pool_for_member_def member_spec_def stamp_address_def
        meta_labels_def empty_meta_def Let_def)
qed


subsection \<open>Examples\<close>

lemma plan_code [code]:
  "plan i ms = (if length ms \<le> u32_max then plan_spec i ms else Code.abort (STR ''too many members'') (\<lambda>_. plan i ms))"
  by (simp add: plan_eq_spec)

definition demo_addressing :: pool_addressing where
  "demo_addressing = \<lparr>pad_interface = ''eth0'', pad_pool = [''192.0.2.10-192.0.2.29''], pad_prefix = 24, pad_gateway = None,
     pad_nameservers = [], pad_domain = None\<rparr>"

definition demo_pool :: "pool_addressing option \<Rightarrow> nat \<Rightarrow> virtual_machine_pool" where
  "demo_pool addressing warm = \<lparr>vp_meta = (demo_meta ''pool'' [])\<lparr>om_uid := Some ''u1''\<rparr>,
     vp_spec = \<lparr>vps_warm_replicas = warm, vps_max_replicas = 5, vps_max_surge = 2,
       vps_template = \<lparr>vmt_labels = [], vmt_annotations = [], vmt_spec = demo_vm_spec []\<rparr>, vps_addressing = addressing,
       vps_readiness = InfrastructureReady, vps_provisioning_timeout_seconds = 600, vps_max_idle_seconds = None,
       vps_recycle_on_image_change = False\<rparr>, vp_status = None\<rparr>"

definition demo_ctx :: "virtual_machine list \<Rightarrow> 'w ctx" where
  "demo_ctx vms = ctx_new (fixed_client vms [] [] [] [] [demo_image]) None demo_env"


theorem build_member_read_back_witness:
  "\<exists>vm. build_member (demo_ctx [] :: unit ctx) (demo_pool (Some demo_addressing) 1) ''gen-1'' \<lparr>nm_address = Some 0xC000020A\<rparr> = Inr vm
     \<and> mv_address (member_view_of demo_jiff vm InfrastructureReady 0) = Some 0xC000020A"
proof -
  let ?ctx = "demo_ctx [] :: unit ctx" and ?pool = "demo_pool (Some demo_addressing) 1"
  obtain vm where "build_member ?ctx ?pool ''gen-1'' \<lparr>nm_address = Some 0xC000020A\<rparr> = Inr vm"
    by (simp add: build_member_def demo_ctx_def ctx_new_def demo_env_def demo_owner_ref_def demo_pool_def demo_meta_def Let_def)
  moreover from build_member_read_back [OF this, of demo_addressing demo_jiff InfrastructureReady 0]
  have "mv_address (member_view_of demo_jiff vm InfrastructureReady 0) = Some 0xC000020A"
    by (simp add: demo_pool_def)
  ultimately show ?thesis
    by blast
qed

text \<open>
  A world of two lists, the live objects and the deleted ones, in which another controller labels every
  member with a claim right after the listing.
\<close>

definition claim_label :: "virtual_machine \<Rightarrow> virtual_machine" where
  "claim_label vm = vm\<lparr>vm_meta := (vm_meta vm)\<lparr>om_labels := Some (bt_insert LABEL_CLAIM ''mine'' (meta_labels (vm_meta vm)))\<rparr>\<rparr>"

definition racing_vms :: "(virtual_machine list \<times> virtual_machine list) vm_api" where
  "racing_vms = (fixed_api KVirtualMachine [])
     \<lparr>api_list := (\<lambda>_ (live, gone). (Inr live, (map claim_label live, gone))),
      api_delete := (\<lambda>n (live, gone). (Inr (), (filter (\<lambda>vm. name_any (vm_meta vm) \<noteq> n) live,
        gone @ filter (\<lambda>vm. name_any (vm_meta vm) = n) live)))\<rparr>"

definition racing_ctx :: "(virtual_machine list \<times> virtual_machine list) ctx" where
  "racing_ctx = ctx_new ((fixed_client [] [] [] [] [] [demo_image])\<lparr>cl_vms := (\<lambda>_. racing_vms)\<rparr>) None demo_env"

definition ready_member :: virtual_machine where
  "ready_member = \<lparr>vm_meta = demo_meta ''pool-1'' [], vm_spec = demo_vm_spec [],
     vm_status = Some (default_vm_status\<lparr>vst_conditions := [demo_condition INFRASTRUCTURE_READY TRUE]\<rparr>)\<rparr>"

text \<open>
  The delete is not conditional: a member that a claim takes between the pool's listing and the
  pool's delete is destroyed with the claim's label on it, because the request carries neither a resource
  version nor a precondition.
\<close>

theorem pool_deletes_just_claimed:
  "map (\<lambda>vm. (name_any (vm_meta vm), map_of (meta_labels (vm_meta vm)) LABEL_CLAIM))
     (snd (fst (snd (reconcile_pool racing_ctx (demo_pool None 0) (([ready_member], []), []))))) = [(''pool-1'', Some ''mine'')]"
  by code_simp

end
