(* ===== verification/Trace_Logic.thy ===== *)
theory Trace_Logic
  imports Kube_Api
begin

section \<open>Derived rules for request traces\<close>

text \<open>
  Rules that the reconcilers share: invariants of a trace along a sequence of steps, which values a
  computation can return, and runs on a server about which something is known.
\<close>

subsection \<open>Invariants\<close>

lemma triple_inv_bind: "triple I m (\<lambda>_. I) \<Longrightarrow> (\<And>x. triple I (f x) (\<lambda>_. I)) \<Longrightarrow> triple I (io_bind m f) (\<lambda>_. I)"
  by (rule triple_bind)

lemma triple_list_all: "emits A m \<Longrightarrow> triple (list_all A) m (\<lambda>_. list_all A)"
  by (auto intro: triple_emits)

text \<open>An invariant that every event of a kind keeps is kept by a computation that only emits such events.\<close>

lemma triple_inv_emits:
  assumes "emits A m" and "\<And>tr e. I tr \<Longrightarrow> A e \<Longrightarrow> I (tr @ [e])"
  shows "triple I m (\<lambda>_. I)"
proof (rule triple_emits [OF assms(1)])
  show "I (tr @ evs)" if "I tr" "list_all A evs" for tr evs
    using that
  proof (induction evs arbitrary: tr)
    case (Cons e evs)
    then show ?case
      using Cons.IH [of "tr @ [e]"] assms(2) [of tr e] by simp
  qed simp
qed

subsection \<open>Results\<close>

lemma yields_return [simp]: "yields (io_return x) y \<longleftrightarrow> y = x"
  by (auto simp: yields_def io_return_def)

lemma yields_throw [simp]: "\<not> yields (io_throw e) y"
  by (auto simp: yields_def io_throw_def)

lemma yields_bind:
  assumes "yields (io_bind m f) y"
  obtains x where "yields m x" "yields (f x) y"
proof -
  from assms obtain s s' where "io_bind m f s = (Inr y, s')"
    by (auto simp: yields_def)
  then obtain x s1 where "m s = (Inr x, s1)" "f x s1 = (Inr y, s')"
    by (auto simp: io_bind_def split: prod.splits sum.splits)
  then have "yields m x" "yields (f x) y"
    unfolding yields_def by blast+
  then show thesis
    by (rule that)
qed

subsection \<open>Finalizers\<close>

lemma emits_ensure_finalizer_with:
  assumes "\<And>fs r. f \<in> set fs \<Longrightarrow> A (Event (api_kind a) (name_any meta) (MergePatch (MergeFinalizers fs)) r)"
  shows "emits A (ensure_finalizer a meta f)"
  unfolding ensure_finalizer_def
  by (auto intro!: emits_bind emits_err emits_calls assms simp: finalizer_list_with_def split: option.split if_splits)

text \<open>A run to completion: the result and the trace from the first event on.\<close>

lemma run_bind: "m s = (Inr x, s') \<Longrightarrow> io_bind m f s = f x s'"
  by (simp add: io_bind_def)

lemma run_request: "request k n v ans f (w, tr) = (fst (f w), (snd (f w), tr @ [Event k n v (ans (fst (f w)))]))"
  by (simp add: request_def case_prod_unfold)

subsection \<open>Several kinds of requests in one trace\<close>

text \<open>
  A provider talks to the API server and to its backend.  Its trace holds both: \<open>io_lift\<close> runs a computation
  over one kind of event and adds its events under a constructor, \<open>io_call\<close> is one call of any interface.
\<close>

definition io_lift :: "('u \<Rightarrow> 'v) \<Rightarrow> ('u, 'w, 'e, 'a) traced \<Rightarrow> ('v, 'w, 'e, 'a) traced" where
  "io_lift c m s = (case m (fst s, []) of (r, (w, evs)) \<Rightarrow> (r, (w, snd s @ map c evs)))"

definition io_call :: "(('e, 'a) result \<Rightarrow> 'v) \<Rightarrow> ('w \<Rightarrow> ('e, 'a) result \<times> 'w) \<Rightarrow> ('v, 'w, 'e, 'a) traced" where
  "io_call ev f s = (case f (fst s) of (r, w) \<Rightarrow> (r, (w, snd s @ [ev r])))"

lemma emits_lift [intro]:
  assumes "emits (\<lambda>e. A (c e)) m"
  shows "emits A (io_lift c m)"
proof (rule emitsI)
  fix w tr r w' tr'
  assume run: "io_lift c m (w, tr) = (r, (w', tr'))"
  obtain r1 w1 evs where m: "m (w, []) = (r1, (w1, evs))"
    by (metis prod.exhaust)
  from emitsD [OF assms m] have "list_all A (map c evs)"
    by (auto simp: list_all_iff)
  then show "\<exists>evs. tr' = tr @ evs \<and> list_all A evs"
    using run m by (auto simp: io_lift_def)
qed

lemma emits_call: "(\<And>r. A (ev r)) \<Longrightarrow> emits A (io_call ev f)"
  by (simp add: emits_def io_call_def case_prod_unfold)

lemma triple_call: "(\<And>r tr. P tr \<Longrightarrow> Q r (tr @ [ev r])) \<Longrightarrow> triple P (io_call ev f) Q"
  by (simp add: triple_def io_call_def case_prod_unfold)

lemma run_call: "io_call ev f (w, tr) = (fst (f w), (snd (f w), tr @ [ev (fst (f w))]))"
  by (simp add: io_call_def case_prod_unfold)

lemma yields_call: "yields (io_call ev f) x \<Longrightarrow> \<exists>w. fst (f w) = Inr x"
  unfolding yields_def by (metis fst_conv run_call surj_pair)

lemma yields_lift: "yields (io_lift c m) x \<Longrightarrow> yields m x"
  by (auto simp: yields_def io_lift_def case_prod_unfold) (metis prod.collapse)

end
