(* ===== verification/Claim_Reconcile.thy ===== *)
theory Claim_Reconcile
  imports Pool_Reconcile Trace_Logic
begin

section \<open>The claim reconciler\<close>

text \<open>
  Model of \<^verbatim>\<open>crates/banlieue-controller/src/reconciler/claim.rs\<close>: how a \<^verbatim>\<open>VirtualMachineClaim\<close> takes a
  pool member, holds it and gives it up.  The theorems are about the requests a reconcile sends, for every
  behaviour of the API server: the only member it ever deletes is the one recorded in the claim's status,
  the claim's finalizer goes only after that member is reported gone, and a bind is one conditional patch.
  The last part runs two reconciles against a server that checks resource versions.
\<close>

definition PENDING_RETRY_SECS :: nat where "PENDING_RETRY_SECS = 3"
definition BIND_RACE_RETRY_SECS :: nat where "BIND_RACE_RETRY_SECS = 1"
definition HTTP_CONFLICT :: nat where "HTTP_CONFLICT = 409"
definition HTTP_NOT_FOUND :: nat where "HTTP_NOT_FOUND = 404"

definition has_code :: "nat \<Rightarrow> kube_error \<Rightarrow> bool" where
  "has_code code e = (case e of ApiErr c _ \<Rightarrow> c = code | OtherErr _ \<Rightarrow> False)"

text \<open>The status patch: phase, one condition built from an empty list, and the extra fields.\<close>

definition claim_status_base :: "claim_phase \<Rightarrow> condition list \<Rightarrow> int \<Rightarrow> claim_status_patch" where
  "claim_status_base phase conditions generation =
     \<lparr>csp_phase = phase, csp_conditions = conditions, csp_observed_generation = generation,
      csp_virtual_machine_ref = None, csp_bound_at = None, csp_expires_at = None, csp_addresses = None,
      csp_tpm_endorsement_certificates = None\<rparr>"

definition patch_claim_status ::
  "'w ctx \<Rightarrow> 'w claim_api \<Rightarrow> string \<Rightarrow> claim_phase \<Rightarrow> string \<Rightarrow> string \<Rightarrow> int
     \<Rightarrow> (claim_status_patch \<Rightarrow> claim_status_patch) \<Rightarrow> ('w, error, unit) io" where
  "patch_claim_status ctx api name phase reason message generation extra =
     io_bind (set_condition_now ctx [] BOUND (if phase = Bound then TRUE else FALSE) reason message generation)
     (\<lambda>conditions. io_bind (io_err Kube (kclaim_status api name (extra (claim_status_base phase conditions generation))))
     (\<lambda>_. io_return ()))"

definition bound_status :: "string \<Rightarrow> timestamp \<Rightarrow> timestamp \<Rightarrow> claim_status_patch \<Rightarrow> claim_status_patch" where
  "bound_status member bound_at expires_at p =
     p\<lparr>csp_virtual_machine_ref := Some \<lparr>lor_name = member\<rparr>, csp_bound_at := Some bound_at, csp_expires_at := Some expires_at\<rparr>"

definition warm_condition :: "virtual_machine_pool \<Rightarrow> (string \<times> string) option" where
  "warm_condition pool =
     Option.bind (vp_status pool) (\<lambda>s. map_option (\<lambda>c. (c_reason c, c_message c)) (find (\<lambda>c. c_type c = WARM) (vpst_conditions s)))"

definition claim_labels :: "virtual_machine list \<Rightarrow> (string \<times> string option) list" where
  "claim_labels members =
     map (\<lambda>vm. ((case om_name (vm_meta vm) of Some n \<Rightarrow> n | None \<Rightarrow> ''''), map_of (meta_labels (vm_meta vm)) LABEL_CLAIM)) members"

definition pick ::
  "'w ctx \<Rightarrow> string \<Rightarrow> virtual_machine_claim \<Rightarrow> ('w, error, string option \<times> virtual_machine_pool option) io" where
  "pick ctx namespace claim =
     io_bind (io_err Kube (kget_opt (pools_in ctx namespace) (lor_name (vcls_pool_ref (vcl_spec claim)))))
     (\<lambda>found. case found of
        None \<Rightarrow> io_return (None, None)
      | Some pool \<Rightarrow>
          io_bind (io_err Kube (klist (vms_in ctx namespace) (Some (pool_selector (name_any (vp_meta pool))))))
          (\<lambda>members. case member_bound_to (claim_labels members) (name_any (vcl_meta claim)) of
             Some ours \<Rightarrow> io_return (Some ours, Some pool)
           | None \<Rightarrow> io_bind (now_of ctx) (\<lambda>now.
               let views = map (\<lambda>vm. member_view_of (env_jiff (ctx_env ctx)) vm (vps_readiness (vp_spec pool)) now) members;
                   current = (case Option.bind (vp_status pool) vpst_image_revision of Some r \<Rightarrow> r | None \<Rightarrow> '''')
               in io_return (pick_member views current, Some pool))))"

definition bind_patch_of :: "virtual_machine \<Rightarrow> virtual_machine_claim \<Rightarrow> string \<Rightarrow> owner_reference \<Rightarrow> bind_patch" where
  "bind_patch_of vm claim name owner =
     \<lparr>bp_resource_version = om_resource_version (vm_meta vm), bp_claim = name,
      bp_subject_issuer = csu_issuer (vcls_subject (vcl_spec claim)), bp_subject_id = csu_id (vcls_subject (vcl_spec claim)),
      bp_owner = owner\<rparr>"

definition bind ::
  "'w ctx \<Rightarrow> 'w claim_api \<Rightarrow> 'w vm_api \<Rightarrow> virtual_machine_claim \<Rightarrow> string \<Rightarrow> string \<Rightarrow> timestamp \<Rightarrow> int
     \<Rightarrow> ('w, error, action) io" where
  "bind ctx claim_api vm_api claim name member now generation =
     io_bind (io_err Kube (kget_opt vm_api member))
     (\<lambda>found. case found of
        None \<Rightarrow> io_throw (Missing ''member'')
      | Some vm \<Rightarrow> (case env_owner_ref (ctx_env ctx) (vcl_meta claim) of
          None \<Rightarrow> io_throw (Missing ''metadata.uid'')
        | Some owner \<Rightarrow>
            io_bind (io_attempt (kmerge vm_api member (MergeBind (bind_patch_of vm claim name owner))))
            (\<lambda>r. case r of
               Inl e \<Rightarrow> if has_code HTTP_CONFLICT e then io_return (Requeue BIND_RACE_RETRY_SECS) else io_throw (Kube e)
             | Inr _ \<Rightarrow>
                 (let (bound_at, expires_at) = expiry (env_jiff (ctx_env ctx)) now (vcls_ttl_seconds (vcl_spec claim))
                  in io_bind (patch_claim_status ctx claim_api name Bound BOUND (''bound to '' @ member) generation
                       (bound_status member bound_at expires_at))
                     (\<lambda>_. io_return requeue_default)))))"

definition hold ::
  "'w ctx \<Rightarrow> 'w claim_api \<Rightarrow> string \<Rightarrow> string \<Rightarrow> virtual_machine \<Rightarrow> int \<Rightarrow> ('w, error, action) io" where
  "hold ctx claim_api name member vm generation =
     (let mirrored = mirrored_member_state_of vm
      in io_bind (patch_claim_status ctx claim_api name Bound BOUND (''bound to '' @ member) generation
           (\<lambda>p. p\<lparr>csp_addresses := Some (mms_addresses mirrored),
             csp_tpm_endorsement_certificates := Some (mms_tpm_endorsement_certificates mirrored)\<rparr>))
         (\<lambda>_. io_return requeue_default))"

text \<open>The end of \<^verbatim>\<open>release\<close>, once the member is known to be gone, and \<^verbatim>\<open>release\<close> itself.\<close>

definition let_go :: "'w claim_api \<Rightarrow> virtual_machine_claim \<Rightarrow> string \<Rightarrow> bool \<Rightarrow> ('w, error, action) io" where
  "let_go claim_api claim name deleting =
     (if deleting
      then io_bind (io_err Sdk (remove_finalizer claim_api (vcl_meta claim) CLAIM_FINALIZER)) (\<lambda>_. io_return no_requeue)
      else io_bind (io_attempt (kdelete claim_api name))
        (\<lambda>r. case r of
           Inr _ \<Rightarrow> io_return requeue_long
         | Inl e \<Rightarrow> if has_code HTTP_NOT_FOUND e then io_return requeue_long else io_throw (Kube e)))"

definition release ::
  "'w ctx \<Rightarrow> 'w claim_api \<Rightarrow> 'w vm_api \<Rightarrow> virtual_machine_claim \<Rightarrow> string \<Rightarrow> string option \<Rightarrow> bool \<Rightarrow> int
     \<Rightarrow> ('w, error, action) io" where
  "release ctx claim_api vm_api claim name member deleting generation =
     (case member of
        None \<Rightarrow> let_go claim_api claim name deleting
      | Some vm \<Rightarrow>
          io_bind (io_attempt (kdelete vm_api vm))
          (\<lambda>r. case r of
             Inr _ \<Rightarrow> io_bind (patch_claim_status ctx claim_api name Releasing (if deleting then RELEASED else EXPIRED)
                 (''destroying member '' @ vm) generation (\<lambda>p. p))
               (\<lambda>_. io_return requeue_default)
           | Inl e \<Rightarrow> if has_code HTTP_NOT_FOUND e then let_go claim_api claim name deleting else io_throw (Kube e)))"

definition bound_name :: "virtual_machine_claim \<Rightarrow> string option" where
  "bound_name claim = map_option lor_name (Option.bind (vcl_status claim) vclst_virtual_machine_ref)"

definition claim_inputs_of :: "virtual_machine_claim \<Rightarrow> virtual_machine option \<Rightarrow> timestamp \<Rightarrow> claim_inputs" where
  "claim_inputs_of claim bound_vm now =
     \<lparr>ci_deleting = (om_deletion_timestamp (vcl_meta claim) \<noteq> None),
      ci_expired = (case Option.bind (vcl_status claim) vclst_expires_at of Some t \<Rightarrow> is_expired t now | None \<Rightarrow> False),
      ci_bound = map_option (\<lambda>n. \<lparr>bm_name = n, bm_exists = (bound_vm \<noteq> None)\<rparr>) (bound_name claim)\<rparr>"

text \<open>The \<^verbatim>\<open>match\<close> on the step.\<close>

definition take_step ::
  "'w ctx \<Rightarrow> string \<Rightarrow> virtual_machine_claim \<Rightarrow> virtual_machine option \<Rightarrow> virtual_machine_pool option \<Rightarrow> timestamp
     \<Rightarrow> claim_step \<Rightarrow> ('w, error, action) io" where
  "take_step ctx namespace claim bound_vm pool now step =
     (let claim_api = claims_in ctx namespace; vm_api = vms_in ctx namespace;
          name = name_any (vcl_meta claim); generation = generation_or_zero (vcl_meta claim);
          ensure = io_err Sdk (ensure_finalizer claim_api (vcl_meta claim) CLAIM_FINALIZER)
      in case step of
           Release member deleting \<Rightarrow> release ctx claim_api vm_api claim name member deleting generation
         | Hold member \<Rightarrow> io_bind ensure (\<lambda>_. case bound_vm of
               None \<Rightarrow> io_throw (Missing ''bound member'')
             | Some vm \<Rightarrow> hold ctx claim_api name member vm generation)
         | Fail member \<Rightarrow> io_bind ensure (\<lambda>_. io_bind (patch_claim_status ctx claim_api name Failed MEMBER_LOST
               (''bound member '' @ member @ '' no longer exists; claims are never rebound'') generation (\<lambda>p. p))
             (\<lambda>_. io_return AwaitChange))
         | Bind member \<Rightarrow> io_bind ensure (\<lambda>_. bind ctx claim_api vm_api claim name member now generation)
         | Wait \<Rightarrow> io_bind ensure (\<lambda>_.
             (let (reason, message) = wait_reason \<lparr>pw_pool_name = lor_name (vcls_pool_ref (vcl_spec claim)),
                    pw_pool_exists = (pool \<noteq> None), pw_warm = Option.bind pool warm_condition\<rparr>
              in io_bind (patch_claim_status ctx claim_api name Pending reason message generation (\<lambda>p. p))
                 (\<lambda>_. io_return (Requeue PENDING_RETRY_SECS)))))"

definition reconcile_claim :: "'w ctx \<Rightarrow> virtual_machine_claim \<Rightarrow> ('w, error, action) io" where
  "reconcile_claim ctx claim =
     (case om_namespace (vcl_meta claim) of
        None \<Rightarrow> io_throw (Missing ''namespace'')
      | Some namespace \<Rightarrow>
          io_bind (case bound_name claim of
              Some vm \<Rightarrow> io_err Kube (kget_opt (vms_in ctx namespace) vm)
            | None \<Rightarrow> io_return None)
          (\<lambda>bound_vm. io_bind (now_of ctx)
          (\<lambda>now. case next_step (claim_inputs_of claim bound_vm now) None of
             Wait \<Rightarrow> io_bind (pick ctx namespace claim) (\<lambda>(candidate, pool).
               take_step ctx namespace claim bound_vm pool now (next_step (claim_inputs_of claim bound_vm now) candidate))
           | other \<Rightarrow> take_step ctx namespace claim bound_vm None now other)))"

definition claim_error_policy :: "error \<Rightarrow> action" where
  "claim_error_policy _ = requeue_on_error"

subsection \<open>What a reconcile may ask for\<close>

text \<open>
  A removal of the claim's finalizer, a bind of a member, and the events that are neither, nor a deletion
  of anything but the given objects.
\<close>

definition drops_finalizer :: "virtual_machine_claim \<Rightarrow> event \<Rightarrow> bool" where
  "drops_finalizer claim e =
     (ev_kind e = KVirtualMachineClaim \<and> ev_name e = name_any (vcl_meta claim)
      \<and> (case ev_verb e of MergePatch (MergeFinalizers fs) \<Rightarrow> CLAIM_FINALIZER \<notin> set fs | _ \<Rightarrow> False))"

definition is_bind :: "event \<Rightarrow> bool" where
  "is_bind e = (case ev_verb e of MergePatch (MergeBind _) \<Rightarrow> True | _ \<Rightarrow> False)"

definition quiet :: "virtual_machine_claim \<Rightarrow> event \<Rightarrow> bool" where
  "quiet claim e = (ev_verb e \<noteq> Delete \<and> \<not> drops_finalizer claim e \<and> \<not> is_bind e)"

lemma quiet_simps [simp]:
  "quiet claim (Event k n Get a)" "quiet claim (Event k n (ListBy s) a)" "quiet claim (Event k n (ClaimStatus p) a)"
  "CLAIM_FINALIZER \<in> set fs \<Longrightarrow> quiet claim (Event k n (MergePatch (MergeFinalizers fs)) a)"
  by (simp_all add: quiet_def drops_finalizer_def is_bind_def)

lemma emits_patch_claim_status:
  assumes "\<And>p r. A (Event (api_kind api) name (ClaimStatus p) r)"
  shows "emits A (patch_claim_status ctx api name phase reason msg g extra)"
  unfolding patch_claim_status_def by (auto intro!: emits_bind emits_err emits_calls assms)

lemma emits_hold:
  "(\<And>p r. A (Event (api_kind api) name (ClaimStatus p) r)) \<Longrightarrow> emits A (hold ctx api name member vm g)"
  unfolding hold_def Let_def by (auto intro!: emits_bind emits_patch_claim_status)

lemma ensure_finalizer_quiet: "emits (quiet claim) (ensure_finalizer (claims_in ctx ns) (vcl_meta claim) CLAIM_FINALIZER)"
  unfolding ensure_finalizer_def
  by (auto intro!: emits_bind emits_err emits_calls simp: finalizer_list_with_def split: option.split if_splits)

lemma emits_pick:
  assumes "\<And>k n r. A (Event k n Get r)" and "\<And>k n s r. A (Event k n (ListBy s) r)"
  shows "emits A (pick ctx ns claim)"
  unfolding pick_def Let_def
  by (auto intro!: emits_bind emits_err emits_calls assms split: option.split)

text \<open>Every step but a release and a bind is quiet.\<close>

lemma take_step_quiet:
  assumes "\<And>m d. step \<noteq> Release m d" and "\<And>m. step \<noteq> Bind m"
  shows "emits (quiet claim) (take_step ctx ns claim bound_vm pool now step)"
proof (cases step)
  case (Hold member)
  then show ?thesis
    by (auto simp: take_step_def Let_def intro!: emits_bind emits_err ensure_finalizer_quiet emits_hold split: option.split)
next
  case (Fail member)
  then show ?thesis
    by (auto simp: take_step_def Let_def intro!: emits_bind emits_err ensure_finalizer_quiet emits_patch_claim_status)
next
  case Wait
  then show ?thesis
    by (auto simp: take_step_def Let_def intro!: emits_bind emits_err ensure_finalizer_quiet emits_patch_claim_status split: prod.split)
qed (use assms in auto)


lemma next_step_release:
  assumes "next_step (claim_inputs_of claim bound_vm now) candidate = Release m d"
  shows "m = bound_name claim" and "d = (om_deletion_timestamp (vcl_meta claim) \<noteq> None)"
  using assms by (auto simp: next_step_def claim_inputs_of_def option.map_comp comp_def option.map_ident split: if_splits option.splits)

lemma next_step_bind:
  assumes "next_step (claim_inputs_of claim bound_vm now) candidate = Bind m"
  shows "bound_name claim = None" and "om_deletion_timestamp (vcl_meta claim) = None"
  using assms by (auto simp: next_step_def claim_inputs_of_def split: if_splits option.splits)

text \<open>An invariant of the trace that quiet events keep is kept by a reconcile if releases and binds keep it.\<close>

lemma reconcile_claim_keeps:
  assumes quiet: "\<And>tr e. I tr \<Longrightarrow> quiet claim e \<Longrightarrow> I (tr @ [e])"
    and rel: "\<And>ns. triple I (release ctx (claims_in ctx ns) (vms_in ctx ns) claim (name_any (vcl_meta claim)) (bound_name claim)
        (om_deletion_timestamp (vcl_meta claim) \<noteq> None) (generation_or_zero (vcl_meta claim))) (\<lambda>_. I)"
    and bnd: "\<And>ns m now. bound_name claim = None \<Longrightarrow> om_deletion_timestamp (vcl_meta claim) = None \<Longrightarrow>
        triple I (bind ctx (claims_in ctx ns) (vms_in ctx ns) claim (name_any (vcl_meta claim)) m now
          (generation_or_zero (vcl_meta claim))) (\<lambda>_. I)"
  shows "triple I (reconcile_claim ctx claim) (\<lambda>_. I)"
proof -
  note q = triple_inv_emits [where I = I and A = "quiet claim", OF _ quiet]
  have step: "triple I (take_step ctx ns claim bound_vm pool now (next_step (claim_inputs_of claim bound_vm now') c)) (\<lambda>_. I)"
    for ns bound_vm pool now now' c
  proof (cases "next_step (claim_inputs_of claim bound_vm now') c")
    case (Release m d)
    with next_step_release [OF Release] rel show ?thesis
      by (simp add: take_step_def Let_def)
  next
    case (Bind m)
    have "triple I (io_err Sdk (ensure_finalizer (claims_in ctx ns) (vcl_meta claim) CLAIM_FINALIZER)) (\<lambda>_. I)"
      by (intro q emits_err ensure_finalizer_quiet)
    from triple_inv_bind [OF this bnd [OF next_step_bind [OF Bind]]] Bind show ?thesis
      by (simp add: take_step_def Let_def)
  qed (auto intro!: q take_step_quiet)
  have pick: "triple I (pick ctx ns claim) (\<lambda>_. I)" for ns
    by (auto intro!: q emits_pick)
  show ?thesis
  proof (cases "om_namespace (vcl_meta claim)")
    case None
    then show ?thesis
      by (auto simp: reconcile_claim_def intro: triple_throw)
  next
    case (Some ns)
    have after: "triple I (case next_step (claim_inputs_of claim bound_vm now) None of
             Wait \<Rightarrow> io_bind (pick ctx ns claim) (\<lambda>(candidate, pool).
               take_step ctx ns claim bound_vm pool now (next_step (claim_inputs_of claim bound_vm now) candidate))
           | other \<Rightarrow> take_step ctx ns claim bound_vm None now other) (\<lambda>_. I)" for bound_vm now
      using step [of ns bound_vm None now now None] step pick
      by (cases "next_step (claim_inputs_of claim bound_vm now) None") (auto intro!: triple_inv_bind)
    have get: "triple I (case bound_name claim of
              Some vm \<Rightarrow> io_err Kube (kget_opt (vms_in ctx ns) vm)
            | None \<Rightarrow> io_return None) (\<lambda>_. I)"
      by (cases "bound_name claim") (auto intro!: q emits_err emits_calls triple_return)
    show ?thesis
      unfolding reconcile_claim_def Some option.case
      by (intro triple_inv_bind get after triple_now_of)
  qed
qed


subsection \<open>Deletions\<close>

definition claim_owned :: "virtual_machine_claim \<Rightarrow> (obj_kind \<times> string) set" where
  "claim_owned claim = {KVirtualMachine} \<times> set_option (bound_name claim) \<union> {(KVirtualMachineClaim, name_any (vcl_meta claim))}"

definition claim_deletes_owned :: "virtual_machine_claim \<Rightarrow> event \<Rightarrow> bool" where
  "claim_deletes_owned claim e = (ev_verb e = Delete \<longrightarrow> (ev_kind e, ev_name e) \<in> claim_owned claim)"

lemma release_emits:
  assumes "\<And>m r. member = Some m \<Longrightarrow> A (Event (api_kind va) m Delete r)" and "\<And>r. A (Event (api_kind ca) name Delete r)"
    and "\<And>p r. A (Event (api_kind ca) name (ClaimStatus p) r)"
    and "\<And>fs r. A (Event (api_kind ca) (name_any (vcl_meta claim)) (MergePatch (MergeFinalizers fs)) r)"
  shows "emits A (release ctx ca va claim name member deleting g)"
proof -
  have "emits A (let_go ca claim name deleting)"
    unfolding let_go_def
    by (auto intro!: emits_bind emits_err emits_attempt emits_calls emits_remove_finalizer assms(2,4) split: sum.split)
  then show ?thesis
    unfolding release_def
    by (auto intro!: emits_bind emits_attempt emits_calls emits_patch_claim_status assms(1,3) split: option.split sum.split)
qed

lemma bind_emits:
  assumes "\<And>r. A (Event (api_kind va) m Get r)" and "\<And>p r. A (Event (api_kind va) m (MergePatch (MergeBind p)) r)"
    and "\<And>p r. A (Event (api_kind ca) name (ClaimStatus p) r)"
  shows "emits A (bind ctx ca va claim name m now g)"
  unfolding bind_def
  by (auto intro!: emits_bind emits_err emits_attempt emits_calls emits_patch_claim_status assms
      simp: Let_def split: option.split sum.split prod.split)

text \<open>
  Whatever the API server answers, a reconcile of a claim asks for the deletion of no virtual machine
  but the one its own status records as bound, and of no claim but itself.
\<close>

theorem reconcile_claim_deletes_owned:
  "deletions (trace_of (reconcile_claim ctx claim) w) \<subseteq> claim_owned claim"
proof -
  have "triple (list_all (claim_deletes_owned claim)) (reconcile_claim ctx claim) (\<lambda>_. list_all (claim_deletes_owned claim))"
    by (rule reconcile_claim_keeps)
      (auto intro!: triple_list_all release_emits bind_emits simp: claim_deletes_owned_def claim_owned_def quiet_def)
  then have "list_all (claim_deletes_owned claim) (trace_of (reconcile_claim ctx claim) w)"
    by (rule triple_trace [OF triple_conseq]) auto
  then show ?thesis
    by (force simp: list_all_iff deletions_def claim_deletes_owned_def)
qed


subsection \<open>The order of a release\<close>

definition member_gone :: "virtual_machine_claim \<Rightarrow> event list \<Rightarrow> bool" where
  "member_gone claim tr =
     (\<forall>m. bound_name claim = Some m \<longrightarrow> (\<exists>e. has_code HTTP_NOT_FOUND e \<and> Event KVirtualMachine m Delete (Refused e) \<in> set tr))"

definition release_order :: "virtual_machine_claim \<Rightarrow> event list \<Rightarrow> bool" where
  "release_order claim tr =
     (list_ex (drops_finalizer claim) tr \<longrightarrow> om_deletion_timestamp (vcl_meta claim) \<noteq> None \<and> member_gone claim tr)"

lemma member_gone_mono: "member_gone claim tr \<Longrightarrow> member_gone claim (tr @ evs)"
  by (fastforce simp: member_gone_def)

lemma release_order_other: "release_order claim tr \<Longrightarrow> list_all (\<lambda>e. \<not> drops_finalizer claim e) evs \<Longrightarrow> release_order claim (tr @ evs)"
  using member_gone_mono by (auto simp: release_order_def list_ex_iff list_all_iff)

lemma drops_finalizer_simps [simp]:
  "\<not> drops_finalizer claim (Event k n Get r)" "\<not> drops_finalizer claim (Event k n Delete r)"
  "\<not> drops_finalizer claim (Event k n (ClaimStatus p) r)" "\<not> drops_finalizer claim (Event k n (MergePatch (MergeBind b)) r)"
  by (simp_all add: drops_finalizer_def)

lemma let_go_order:
  "triple (\<lambda>tr. release_order claim tr \<and> member_gone claim tr)
     (let_go (claims_in ctx ns) claim (name_any (vcl_meta claim)) (om_deletion_timestamp (vcl_meta claim) \<noteq> None))
     (\<lambda>_. release_order claim)"
proof (cases "om_deletion_timestamp (vcl_meta claim) = None")
  case True
  have "emits (\<lambda>e. \<not> drops_finalizer claim e) (let_go (claims_in ctx ns) claim (name_any (vcl_meta claim)) False)"
    unfolding let_go_def by (auto intro!: emits_bind emits_attempt emits_calls split: sum.split)
  then show ?thesis
    using True by (auto intro: triple_emits release_order_other)
next
  case False
  have "emits (\<lambda>_. True) (let_go (claims_in ctx ns) claim (name_any (vcl_meta claim)) True)"
    unfolding let_go_def by (auto intro!: emits_bind emits_err emits_remove_finalizer)
  then show ?thesis
    using False by (auto intro!: triple_emits simp: release_order_def member_gone_mono)
qed

lemma release_keeps_order:
  "triple (release_order claim) (release ctx (claims_in ctx ns) (vms_in ctx ns) claim (name_any (vcl_meta claim)) (bound_name claim)
     (om_deletion_timestamp (vcl_meta claim) \<noteq> None) g) (\<lambda>_. release_order claim)"
proof (cases "bound_name claim")
  case None
  then show ?thesis
    using let_go_order [of claim ctx ns] by (simp add: release_def member_gone_def)
next
  case (Some m)
  let ?R = "\<lambda>r tr. release_order claim tr
      \<and> (case r of Inr (Inl e) \<Rightarrow> has_code HTTP_NOT_FOUND e \<longrightarrow> member_gone claim tr | _ \<Rightarrow> True)"
  have delete: "triple (release_order claim) (io_attempt (kdelete (vms_in ctx ns) m)) ?R"
    unfolding kdelete_def
    by (rule triple_attempt, rule triple_request)
      (auto simp: release_order_other answer_of_def member_gone_def Some split: sum.split)
  have status: "triple (release_order claim) (io_bind (patch_claim_status ctx (claims_in ctx ns) (name_any (vcl_meta claim)) phase reason msg g extra)
      (\<lambda>_. io_return x)) (\<lambda>_. release_order claim)" for phase reason msg extra and x :: action
  proof (rule triple_emits)
    show "emits (\<lambda>e. \<not> drops_finalizer claim e) (io_bind (patch_claim_status ctx (claims_in ctx ns) (name_any (vcl_meta claim))
        phase reason msg g extra) (\<lambda>_. io_return x))"
      by (auto intro!: emits_bind emits_patch_claim_status)
  qed (rule release_order_other)
  show ?thesis
    unfolding release_def Some option.case
  proof (rule triple_bind [OF delete])
    fix r :: "(kube_error, unit) result"
    show "triple (?R (Inr r)) (case r of
             Inr _ \<Rightarrow> io_bind (patch_claim_status ctx (claims_in ctx ns) (name_any (vcl_meta claim)) Releasing
                 (if om_deletion_timestamp (vcl_meta claim) \<noteq> None then RELEASED else EXPIRED)
                 (''destroying member '' @ m) g (\<lambda>p. p)) (\<lambda>_. io_return requeue_default)
           | Inl e \<Rightarrow> if has_code HTTP_NOT_FOUND e
               then let_go (claims_in ctx ns) claim (name_any (vcl_meta claim)) (om_deletion_timestamp (vcl_meta claim) \<noteq> None)
               else io_throw (Kube e)) (\<lambda>_. release_order claim)"
      using let_go_order [of claim ctx ns] status
      by (cases r) (auto intro: triple_throw)
  qed simp
qed

text \<open>
  (C30) Claim gone means member gone: if a reconcile asks to drop the claim's finalizer, then the claim is
  being deleted, and either its status records no member or the server has just answered the deletion of
  that member with \<^verbatim>\<open>404\<close>, whatever the server answers otherwise.
\<close>

theorem claim_finalizer_dropped_last:
  assumes "list_ex (drops_finalizer claim) (trace_of (reconcile_claim ctx claim) w)"
  shows "om_deletion_timestamp (vcl_meta claim) \<noteq> None \<and> member_gone claim (trace_of (reconcile_claim ctx claim) w)"
proof -
  have "triple (release_order claim) (reconcile_claim ctx claim) (\<lambda>_. release_order claim)"
  proof (rule reconcile_claim_keeps)
    show "release_order claim (tr @ [e])" if "release_order claim tr" "quiet claim e" for tr e
      using that by (auto intro: release_order_other simp: quiet_def)
    show "triple (release_order claim) (bind ctx (claims_in ctx ns) (vms_in ctx ns) claim (name_any (vcl_meta claim)) m now
          (generation_or_zero (vcl_meta claim))) (\<lambda>_. release_order claim)" for ns m now
      by (rule triple_emits [OF bind_emits [where A = "\<lambda>e. \<not> drops_finalizer claim e"]]) (simp_all add: release_order_other)
  qed (rule release_keeps_order)
  then have "release_order claim (trace_of (reconcile_claim ctx claim) w)"
    by (rule triple_trace [OF triple_conseq]) (auto simp: release_order_def)
  with assms show ?thesis
    by (simp add: release_order_def)
qed

text \<open>
  (C31) A claim takes at most one member in its life: a reconcile that sends a bind is that of a claim with
  no recorded member that is not being deleted.
\<close>

theorem claim_never_rebinds:
  assumes "list_ex is_bind (trace_of (reconcile_claim ctx claim) w)"
  shows "bound_name claim = None \<and> om_deletion_timestamp (vcl_meta claim) = None"
proof -
  let ?A = "\<lambda>e. \<not> is_bind e \<or> bound_name claim = None \<and> om_deletion_timestamp (vcl_meta claim) = None"
  have "triple (list_all ?A) (reconcile_claim ctx claim) (\<lambda>_. list_all ?A)"
    by (rule reconcile_claim_keeps) (auto intro!: triple_list_all release_emits bind_emits simp: quiet_def is_bind_def)
  then have "list_all ?A (trace_of (reconcile_claim ctx claim) w)"
    by (rule triple_trace [OF triple_conseq]) auto
  with assms show ?thesis
    by (auto simp: list_all_iff list_ex_iff)
qed


subsection \<open>Examples\<close>

definition demo_claim :: "string \<Rightarrow> string option \<Rightarrow> bool \<Rightarrow> virtual_machine_claim" where
  "demo_claim n ref deleting = \<lparr>vcl_meta = (demo_meta n [])\<lparr>om_uid := Some (n @ ''-uid''), om_finalizers := Some [CLAIM_FINALIZER],
       om_deletion_timestamp := (if deleting then Some 1 else None)\<rparr>,
     vcl_spec = \<lparr>vcls_pool_ref = \<lparr>lor_name = ''pool''\<rparr>, vcls_subject = \<lparr>csu_issuer = ''iss'', csu_id = n\<rparr>, vcls_ttl_seconds = 60\<rparr>,
     vcl_status = Some \<lparr>vclst_phase = Bound, vclst_virtual_machine_ref = map_option (\<lambda>r. \<lparr>lor_name = r\<rparr>) ref, vclst_addresses = [],
       vclst_tpm_endorsement_certificates = [], vclst_nonce = None, vclst_bound_at = None, vclst_expires_at = None,
       vclst_conditions = [demo_condition BOUND TRUE], vclst_observed_generation = None\<rparr>\<rparr>"

definition claim_ctx :: "virtual_machine list \<Rightarrow> 'w ctx" where
  "claim_ctx vms = ctx_new (fixed_client vms [demo_pool None 1] [demo_claim ''a'' None False] [] [] [demo_image]) None demo_env"

theorem claim_finalizer_dropped_last_witness:
  "list_ex (drops_finalizer (demo_claim ''a'' (Some ''vm-7'') True))
     (trace_of (reconcile_claim (claim_ctx []) (demo_claim ''a'' (Some ''vm-7'') True)) ())
   \<and> member_gone (demo_claim ''a'' (Some ''vm-7'') True)
     (trace_of (reconcile_claim (claim_ctx []) (demo_claim ''a'' (Some ''vm-7'') True)) ())"
proof -
  have *: "list_ex (drops_finalizer (demo_claim ''a'' (Some ''vm-7'') True))
     (trace_of (reconcile_claim (claim_ctx []) (demo_claim ''a'' (Some ''vm-7'') True)) ())"
    by code_simp
  with claim_finalizer_dropped_last [OF *] show ?thesis
    by blast
qed

theorem claim_never_rebinds_witness:
  "list_ex is_bind (trace_of (reconcile_claim (claim_ctx [ready_member]) (demo_claim ''a'' None False)) ())
   \<and> bound_name (demo_claim ''a'' None False) = None"
proof -
  have *: "list_ex is_bind (trace_of (reconcile_claim (claim_ctx [ready_member]) (demo_claim ''a'' None False)) ())"
    by code_simp
  with claim_never_rebinds [OF *] show ?thesis
    by blast
qed

text \<open>
  A server that keeps resource versions: a bind with a version that is not the current one is refused with
  \<^verbatim>\<open>409\<close>, an accepted one sets label and owner and advances the version.
\<close>

definition take_bind :: "bind_patch \<Rightarrow> virtual_machine \<Rightarrow> virtual_machine" where
  "take_bind b vm = vm\<lparr>vm_meta := (vm_meta vm)\<lparr>om_labels := Some (bt_insert LABEL_CLAIM (bp_claim b) (meta_labels (vm_meta vm))),
     om_owner_references := Some [bp_owner b], om_resource_version := map_option (\<lambda>v. v @ ''1'') (om_resource_version (vm_meta vm))\<rparr>\<rparr>"

definition versioned_vms :: "virtual_machine vm_api" where
  "versioned_vms = (fixed_api KVirtualMachine [])
     \<lparr>api_list := (\<lambda>_ vm. (Inr [vm], vm)), api_get_opt := (\<lambda>_ vm. (Inr (Some vm), vm)),
      api_patch := (\<lambda>_ p vm. case p of
          Merge (MergeBind b) \<Rightarrow>
            if bp_resource_version b = None \<or> bp_resource_version b = om_resource_version (vm_meta vm)
            then (Inr (take_bind b vm), take_bind b vm)
            else (Inl (ApiErr 409 ''Conflict''), vm)
        | _ \<Rightarrow> (Inr vm, vm))\<rparr>"

definition versioned_ctx :: "virtual_machine ctx" where
  "versioned_ctx = ctx_new ((fixed_client [] [demo_pool None 1] [demo_claim ''a'' None False] [] [] [demo_image])
     \<lparr>cl_vms := (\<lambda>_. versioned_vms)\<rparr>) None demo_env"

definition bound_refs :: "event list \<Rightarrow> (string \<times> string) list" where
  "bound_refs tr = List.map_filter (\<lambda>e. case ev_verb e of
     ClaimStatus p \<Rightarrow> map_option (\<lambda>r. (ev_name e, lor_name r)) (csp_virtual_machine_ref p) | _ \<Rightarrow> None) tr"

text \<open>
  Two claims can bind one member: claim \<^verbatim>\<open>b\<close> picks a Ready member, claim \<^verbatim>\<open>a\<close> reconciles and binds
  it, and \<^verbatim>\<open>b\<close> goes on.  Its bind reads the member again and sends the version it has just read, so the
  server accepts it although the member already carries \<^verbatim>\<open>a\<close>'s label: both claims record the member and
  the label ends as \<^verbatim>\<open>b\<close>.
\<close>

theorem two_claims_bind_one_member:
  "(let (picked, s1) = pick versioned_ctx ''ns'' (demo_claim ''b'' None False)
          (ready_member\<lparr>vm_meta := (vm_meta ready_member)\<lparr>om_resource_version := Some ''100''\<rparr>\<rparr>, []);
        (ra, s2) = reconcile_claim versioned_ctx (demo_claim ''a'' None False) s1;
        (rb, s3) = take_step versioned_ctx ''ns'' (demo_claim ''b'' None False) None None 0 (Bind ''pool-1'') s2
    in (map_sum id fst picked, map_of (meta_labels (vm_meta (fst s2))) LABEL_CLAIM, rb,
        map_of (meta_labels (vm_meta (fst s3))) LABEL_CLAIM, bound_refs (snd s3)))
   = (Inr (Some ''pool-1''), Some ''a'', Inr requeue_default, Some ''b'', [(''a'', ''pool-1''), (''b'', ''pool-1'')])"
  by code_simp

text \<open>
  A release can leave the member behind: a claim whose bind labelled the member, but whose status patch
  was lost, is deleted.  Its reconcile drops the finalizer without asking for the member's deletion,
  although the member still carries the claim's label.
\<close>

theorem release_forgets_labelled_member:
  "(let tr = trace_of (reconcile_claim (claim_ctx [claim_label ready_member]) (demo_claim ''mine'' None True)) ()
    in (list_ex (drops_finalizer (demo_claim ''mine'' None True)) tr, filter (\<lambda>e. ev_verb e = Delete) tr,
        map_of (meta_labels (vm_meta (claim_label ready_member))) LABEL_CLAIM)) = (True, [], Some ''mine'')"
  by code_simp

text \<open>
  Every reconcile of a bound claim resets the transition time: the claim's recorded \<^verbatim>\<open>Bound\<close>
  condition is true since time \<open>0\<close>, and holding it at time \<open>7\<close> writes a condition that is true since
  \<open>7\<close>, because the condition is built from an empty list.
\<close>

theorem hold_resets_transition_time:
  "(let ctx = (claim_ctx [ready_member])\<lparr>ctx_env := demo_env\<lparr>env_clock := (\<lambda>w. (7, w))\<rparr>\<rparr>;
        claim = demo_claim ''a'' (Some ''pool-1'') False;
        tr = trace_of (reconcile_claim ctx claim) ()
    in (map c_last_transition_time (vclst_conditions (the (vcl_status claim))),
        concat (map (\<lambda>e. case ev_verb e of ClaimStatus p \<Rightarrow> map (\<lambda>c. (c_status c, c_last_transition_time c)) (csp_conditions p) | _ \<Rightarrow> []) tr)))
   = ([0], [(TRUE, 7)])"
  by code_simp

end
