(* ===== verification/Address_Conflict.thy ===== *)
theory Address_Conflict
  imports Scheduler Claim_Plan Net
begin

section \<open>Duplicate static addresses\<close>

text \<open>
  Model of \<^verbatim>\<open>crates/banlieue-controller/src/reconciler/address_conflict.rs\<close>.  A \<^verbatim>\<open>BTreeSet\<close> of addresses is a
  set, the \<^verbatim>\<open>BTreeMap\<close> of blocked machines a map; \<^verbatim>\<open>Timestamp::MAX\<close> is a field of the parameter
  \<^typ>\<open>jiff\<close>.  The lemmas show that two machines admitted on the same snapshot never share an address, that
  looking at the contending machines only gives the same answer as looking at all of them, and which
  machines contend.
\<close>

subsection \<open>Claims\<close>

definition REASON_DUPLICATE_ADDRESS :: string where "REASON_DUPLICATE_ADDRESS = ''DuplicateAddress''"

datatype holder = SameNamespace string | OtherNamespace

record duplicate_address =
  da_address :: string
  da_network_class :: string
  da_interface :: string
  da_holder :: holder

definition duplicate_message :: "duplicate_address \<Rightarrow> string" where
  "duplicate_message d =
     ''address '' @ da_address d @ '' on interface '' @ da_interface d @ '' (networkClass '' @ da_network_class d
     @ '') is already claimed by '' @ (case da_holder d of SameNamespace q \<Rightarrow> ''VirtualMachine '' @ q
       | OtherNamespace \<Rightarrow> ''a VirtualMachine in another namespace'')
     @ ''; choose a free address or delete the holder (ADR-0083)''"

record addr_claim =
  ac_interface :: string
  ac_network_class :: "string option"
  ac_address :: string

definition claim_matches :: "addr_claim \<Rightarrow> addr_claim \<Rightarrow> bool" where
  "claim_matches c d \<longleftrightarrow> ac_address c = ac_address d \<and>
     (case (ac_network_class c, ac_network_class d) of (Some a, Some b) \<Rightarrow> a = b | _ \<Rightarrow> True)"

type_synonym vm_key = "string \<times> string"

definition key_of :: "virtual_machine \<Rightarrow> vm_key" where
  "key_of vm = ((case om_namespace (vm_meta vm) of Some n \<Rightarrow> n | None \<Rightarrow> ''''), name_any (vm_meta vm))"

definition normalize_address :: "string \<Rightarrow> string" where
  "normalize_address address = (case parse_ip (trim address) of Some ip \<Rightarrow> show_ip ip | None \<Rightarrow> trim address)"

definition created :: "jiff \<Rightarrow> virtual_machine \<Rightarrow> timestamp" where
  "created j vm = (case om_creation_timestamp (vm_meta vm) of Some t \<Rightarrow> t | None \<Rightarrow> jf_max j)"

definition held_claims :: "virtual_machine \<Rightarrow> addr_claim list" where
  "held_claims vm =
     (case vm_status vm of None \<Rightarrow> []
      | Some s \<Rightarrow> map (\<lambda>h. \<lparr>ac_interface = ha_interface h, ac_network_class = Some (ha_network_class h),
          ac_address = normalize_address (ha_address h)\<rparr>) (vst_held_addresses s))"

definition declared_claim :: "vm_class option \<Rightarrow> network_interface_override \<Rightarrow> addr_claim option" where
  "declared_claim cls ov =
     (case cls of
        None \<Rightarrow> Some \<lparr>ac_interface = nio_name ov, ac_network_class = None, ac_address = normalize_address (sic_address (nio_static ov))\<rparr>
      | Some c \<Rightarrow> map_option (\<lambda>nic. \<lparr>ac_interface = nio_name ov, ac_network_class = Some (nis_network_class nic),
            ac_address = normalize_address (sic_address (nio_static ov))\<rparr>)
          (find (\<lambda>nic. nis_name nic = nio_name ov) (ns_interfaces (vcs_network (vc_spec c)))))"

definition declared_claims :: "virtual_machine \<Rightarrow> vm_class option \<Rightarrow> addr_claim list" where
  "declared_claims vm cls = List.map_filter (declared_claim cls) (vs_network_overrides (vm_spec vm))"

definition addresses_of :: "virtual_machine \<Rightarrow> string set" where
  "addresses_of vm = set (map (\<lambda>ov. normalize_address (sic_address (nio_static ov))) (vs_network_overrides (vm_spec vm))
     @ map ac_address (held_claims vm))"

definition held_addresses_of :: "virtual_machine \<Rightarrow> vm_class \<Rightarrow> held_address list" where
  "held_addresses_of vm cls =
     map (\<lambda>c. \<lparr>ha_interface = ac_interface c,
       ha_network_class = (case ac_network_class c of Some n \<Rightarrow> n | None \<Rightarrow> ''''), ha_address = ac_address c\<rparr>)
       (declared_claims vm (Some cls))"

subsection \<open>The machines that contend\<close>

function contend :: "virtual_machine list \<Rightarrow> string set \<Rightarrow> virtual_machine list \<Rightarrow> virtual_machine list" where
  "contend pending addresses found =
     (let sharing = filter (\<lambda>v. addresses_of v \<inter> addresses \<noteq> {}) pending;
          others = filter (\<lambda>v. \<not> addresses_of v \<inter> addresses \<noteq> {}) pending
      in if sharing = [] then found
         else contend others (addresses \<union> \<Union> (set (map addresses_of sharing))) (found @ sharing))"
  by pat_completeness auto
termination
proof (relation "measure (\<lambda>(pending, addresses, found). length pending)", goal_cases)
  case 1
  then show ?case by simp
next
  case (2 pending addresses found sharing others)
  then obtain v where "v \<in> set pending" "addresses_of v \<inter> addresses \<noteq> {}"
    by (metis (mono_tags, lifting) filter_False)
  then show ?case
    using 2 length_filter_less [of v pending "\<lambda>v. \<not> addresses_of v \<inter> addresses \<noteq> {}"] by simp
qed

declare contend.simps [simp del]

definition contending_vms :: "virtual_machine \<Rightarrow> virtual_machine list \<Rightarrow> virtual_machine list" where
  "contending_vms vm vms = contend (filter (\<lambda>v. key_of v \<noteq> key_of vm) vms) (addresses_of vm) []"

subsection \<open>The greedy admission\<close>

type_synonym reservations = "(addr_claim \<times> vm_key) list"
type_synonym blocks = "vm_key \<rightharpoonup> addr_claim \<times> vm_key"

definition created_le :: "jiff \<Rightarrow> virtual_machine \<Rightarrow> virtual_machine \<Rightarrow> bool" where
  "created_le j a b \<longleftrightarrow> created j a < created j b \<or> created j a = created j b \<and>
     (fst (key_of a) < fst (key_of b) \<or> fst (key_of a) = fst (key_of b) \<and> snd (key_of a) \<le> snd (key_of b))"

definition class_of :: "vm_class list \<Rightarrow> virtual_machine \<Rightarrow> vm_class option" where
  "class_of classes v = find (\<lambda>c. name_any (vc_meta c) = lor_name (vs_class_ref (vm_spec v))) classes"

definition owner_of :: "vm_key \<Rightarrow> reservations \<Rightarrow> addr_claim \<Rightarrow> vm_key option" where
  "owner_of k reserved claim = map_option snd (find (\<lambda>(r, own). own \<noteq> k \<and> claim_matches r claim) reserved)"

definition reserve_one :: "vm_key \<Rightarrow> addr_claim \<Rightarrow> reservations \<times> blocks \<Rightarrow> reservations \<times> blocks" where
  "reserve_one k claim st =
     (case st of (reserved, blocked) \<Rightarrow>
      case owner_of k reserved claim of
        Some own \<Rightarrow> (reserved, case blocked k of None \<Rightarrow> blocked(k \<mapsto> (claim, own)) | Some _ \<Rightarrow> blocked)
      | None \<Rightarrow> (reserved @ [(claim, k)], blocked))"

definition reserve_held :: "vm_key \<Rightarrow> addr_claim list \<Rightarrow> reservations \<times> blocks \<Rightarrow> reservations \<times> blocks" where
  "reserve_held k claims = fold (reserve_one k) claims"

fun find_conflict :: "vm_key \<Rightarrow> reservations \<Rightarrow> addr_claim list \<Rightarrow> (addr_claim \<times> vm_key) option" where
  "find_conflict k reserved [] = None"
| "find_conflict k reserved (claim # claims) =
     (case owner_of k reserved claim of Some own \<Rightarrow> Some (claim, own) | None \<Rightarrow> find_conflict k reserved claims)"

definition admit_declared ::
  "vm_class list \<Rightarrow> virtual_machine \<Rightarrow> reservations \<times> blocks \<Rightarrow> reservations \<times> blocks" where
  "admit_declared classes v st =
     (case st of (reserved, blocked) \<Rightarrow>
      if blocked (key_of v) \<noteq> None then (reserved, blocked)
      else let declared = declared_claims v (class_of classes v)
           in case find_conflict (key_of v) reserved declared of
                Some c \<Rightarrow> (reserved, blocked(key_of v \<mapsto> c))
              | None \<Rightarrow> (reserved @ map (\<lambda>c. (c, key_of v)) declared, blocked))"

definition held_pass :: "virtual_machine list \<Rightarrow> reservations \<times> blocks" where
  "held_pass everyone = fold (\<lambda>v. reserve_held (key_of v) (held_claims v)) everyone ([], \<lambda>_. None)"

definition admission :: "vm_class list \<Rightarrow> virtual_machine list \<Rightarrow> reservations \<times> blocks" where
  "admission classes everyone = fold (admit_declared classes) everyone (held_pass everyone)"

definition everyone_of :: "jiff \<Rightarrow> virtual_machine \<Rightarrow> virtual_machine list \<Rightarrow> virtual_machine list" where
  "everyone_of j vm contenders = sort_by (created_le j) (filter (\<lambda>c. key_of c \<noteq> key_of vm) contenders @ [vm])"

definition find_duplicate_address ::
  "jiff \<Rightarrow> virtual_machine \<Rightarrow> virtual_machine list \<Rightarrow> vm_class list \<Rightarrow> duplicate_address option" where
  "find_duplicate_address j vm contenders classes =
     map_option (\<lambda>(claim, holder).
        let mine = (case find (\<lambda>c. claim_matches c claim) (declared_claims vm (class_of classes vm)) of
              Some c \<Rightarrow> c | None \<Rightarrow> claim)
        in \<lparr>da_address = ac_address mine,
            da_network_class = (case ac_network_class mine of Some n \<Rightarrow> n | None \<Rightarrow> ''''),
            da_interface = ac_interface mine,
            da_holder = (if fst holder = fst (key_of vm) then SameNamespace (fst holder @ ''/'' @ snd holder)
              else OtherNamespace)\<rparr>)
       (snd (admission classes (everyone_of j vm contenders)) (key_of vm))"


subsection \<open>Who contends\<close>

definition shares :: "virtual_machine \<Rightarrow> virtual_machine \<Rightarrow> bool" where
  "shares u v \<longleftrightarrow> addresses_of u \<inter> addresses_of v \<noteq> {}"

definition share_rel :: "virtual_machine list \<Rightarrow> (virtual_machine \<times> virtual_machine) set" where
  "share_rel vms = {(u, v). v \<in> set vms \<and> shares u v}"

abbreviation sharing :: "string set \<Rightarrow> virtual_machine list \<Rightarrow> virtual_machine list" where
  "sharing addresses vms \<equiv> filter (\<lambda>v. addresses_of v \<inter> addresses \<noteq> {}) vms"

abbreviation apart :: "string set \<Rightarrow> virtual_machine list \<Rightarrow> virtual_machine list" where
  "apart addresses vms \<equiv> filter (\<lambda>v. addresses_of v \<inter> addresses = {}) vms"

lemma contend_done: "sharing A p = [] \<Longrightarrow> contend p A f = f"
  by (subst contend.simps) simp

lemma contend_step:
  "sharing A p \<noteq> [] \<Longrightarrow> contend p A f = contend (apart A p) (A \<union> \<Union> (addresses_of ` set (sharing A p))) (f @ sharing A p)"
  by (subst contend.simps) (simp add: Let_def)

lemma contend_induct [case_names Done Step]:
  assumes fin: "\<And>p A f. sharing A p = [] \<Longrightarrow> P p A f"
    and step: "\<And>p A f. sharing A p \<noteq> [] \<Longrightarrow> P (apart A p) (A \<union> \<Union> (addresses_of ` set (sharing A p))) (f @ sharing A p) \<Longrightarrow> P p A f"
  shows "P p A f"
proof (induction p A f rule: contend.induct)
  case (1 p A f)
  then show ?case
    using fin [where p = p and A = A and f = f] step [where p = p and A = A and f = f] by (cases "sharing A p = []") simp_all
qed

lemma contend_set: "set f \<subseteq> set (contend p A f) \<and> set (contend p A f) \<subseteq> set f \<union> set p"
  by (induction p A f rule: contend_induct) (fastforce simp: contend_done contend_step)+

lemma distinct_filter_append:
  assumes "distinct (f @ p)" and "\<And>v. \<not> (P v \<and> Q v)"
  shows "distinct ((f @ filter P p) @ filter Q p)"
  using assms by auto

lemma contend_distinct: "distinct (f @ p) \<Longrightarrow> distinct (contend p A f)"
proof (induction p A f rule: contend_induct)
  case (Step p A f)
  then show ?case
    by (subst contend_step) (auto intro!: Step.IH)
qed (simp add: contend_done)

lemma contend_closed:
  "v \<in> set p \<Longrightarrow> v \<notin> set (contend p A f)
   \<Longrightarrow> addresses_of v \<inter> (A \<union> \<Union> (addresses_of ` (set (contend p A f) - set f))) = {}"
proof (induction p A f rule: contend_induct)
  case (Done p A f)
  then have "addresses_of v \<inter> A = {}"
    by (metis (mono_tags, lifting) filter_empty_conv)
  with Done show ?case by (simp add: contend_done)
next
  case (Step p A f)
  let ?A = "A \<union> \<Union> (addresses_of ` set (sharing A p))"
  have eq: "contend p A f = contend (apart A p) ?A (f @ sharing A p)"
    by (rule contend_step [OF Step.hyps])
  have "set (sharing A p) \<subseteq> set (contend p A f)"
    using contend_set [of "f @ sharing A p" "apart A p" ?A] by (simp add: eq)
  with Step.prems have "v \<in> set (apart A p)"
    by auto
  moreover define R where "R = set (contend (apart A p) ?A (f @ sharing A p))"
  ultimately have "addresses_of v \<inter> (?A \<union> \<Union> (addresses_of ` (R - set (f @ sharing A p)))) = {}"
    using Step.IH Step.prems(2) by (simp add: eq)
  moreover have "R - set f \<subseteq> (R - set (f @ sharing A p)) \<union> set (sharing A p)"
    by auto
  ultimately have "addresses_of v \<inter> (A \<union> \<Union> (addresses_of ` (R - set f))) = {}"
    by blast
  then show ?case
    by (simp only: eq R_def)
qed

lemma contend_reached:
  assumes "\<And>v. v \<in> set f \<Longrightarrow> (vm, v) \<in> (share_rel vms)\<^sup>+" and "set p \<subseteq> set vms"
    and "A \<subseteq> addresses_of vm \<union> \<Union> (addresses_of ` set f)" and "v \<in> set (contend p A f)"
  shows "(vm, v) \<in> (share_rel vms)\<^sup>+"
  using assms
proof (induction p A f rule: contend_induct)
  case (Step p A f)
  have "(vm, u) \<in> (share_rel vms)\<^sup>+" if u: "u \<in> set (sharing A p)" for u
  proof -
    from u Step.prems(2) have mem: "u \<in> set vms" and "addresses_of u \<inter> A \<noteq> {}"
      by auto
    then consider "shares vm u" | w where "w \<in> set f" "shares w u"
      using Step.prems(3) unfolding shares_def by blast
    then show ?thesis
    proof cases
      case 1
      with mem show ?thesis by (auto simp: share_rel_def)
    next
      case (2 w)
      with mem have "(w, u) \<in> share_rel vms" by (simp add: share_rel_def)
      with Step.prems(1) [OF 2(1)] show ?thesis by (rule trancl_into_trancl)
    qed
  qed
  with Step.prems(1) have "\<And>u. u \<in> set (f @ sharing A p) \<Longrightarrow> (vm, u) \<in> (share_rel vms)\<^sup>+"
    by auto
  moreover have "set (apart A p) \<subseteq> set vms"
    using Step.prems(2) by auto
  moreover have "A \<union> \<Union> (addresses_of ` set (sharing A p)) \<subseteq> addresses_of vm \<union> \<Union> (addresses_of ` set (f @ sharing A p))"
    using Step.prems(3) by auto
  ultimately show ?case
    using Step.IH Step.prems(4) contend_step [OF Step.hyps] by simp
qed (simp add: contend_done)

lemma contending_vms_set: "v \<in> set (contending_vms vm vms) \<Longrightarrow> v \<in> set vms \<and> key_of v \<noteq> key_of vm"
  using contend_set [of "[]" "filter (\<lambda>v. key_of v \<noteq> key_of vm) vms" "addresses_of vm"]
  by (auto simp: contending_vms_def)

lemma contending_vms_closed:
  assumes "v \<in> set vms" and "key_of v \<noteq> key_of vm" and "v \<notin> set (contending_vms vm vms)"
  shows "\<not> shares vm v" and "w \<in> set (contending_vms vm vms) \<Longrightarrow> \<not> shares w v"
proof -
  have "v \<in> set (filter (\<lambda>v. key_of v \<noteq> key_of vm) vms)"
    using assms by simp
  from contend_closed [OF this, of "addresses_of vm" "[]"] assms(3)
  have "addresses_of v \<inter> (addresses_of vm \<union> \<Union> (addresses_of ` set (contending_vms vm vms))) = {}"
    by (simp add: contending_vms_def)
  then show "\<not> shares vm v" and "w \<in> set (contending_vms vm vms) \<Longrightarrow> \<not> shares w v"
    unfolding shares_def by blast+
qed

text \<open>
  (C19) The machines that contend with \<open>vm\<close> are exactly the other machines of the store that a chain of
  shared addresses leads to from \<open>vm\<close>; the search ends for every store.
\<close>

theorem contending_vms_exact:
  "v \<in> set (contending_vms vm vms)
   \<longleftrightarrow> (vm, v) \<in> (share_rel (filter (\<lambda>u. key_of u \<noteq> key_of vm) vms))\<^sup>+"
proof
  assume "v \<in> set (contending_vms vm vms)"
  then show "(vm, v) \<in> (share_rel (filter (\<lambda>u. key_of u \<noteq> key_of vm) vms))\<^sup>+"
    unfolding contending_vms_def by (rule contend_reached [rotated 3]) simp_all
next
  assume "(vm, v) \<in> (share_rel (filter (\<lambda>u. key_of u \<noteq> key_of vm) vms))\<^sup>+"
  then show "v \<in> set (contending_vms vm vms)"
  proof (induction rule: trancl_induct)
    case (base v)
    then show ?case
      using contending_vms_closed(1) by (auto simp: share_rel_def)
  next
    case (step u v)
    then show ?case
      using contending_vms_closed(2) by (auto simp: share_rel_def)
  qed
qed


subsection \<open>The oldest-first order\<close>

context comparator_le
begin

lemma sorted_unique:
  assumes "sorted_wrt le xs" "sorted_wrt le ys" "mset xs = mset ys"
    and "\<And>x y. x \<in> set xs \<Longrightarrow> y \<in> set xs \<Longrightarrow> le x y \<Longrightarrow> le y x \<Longrightarrow> x = y"
  shows "xs = ys"
  using assms
proof (induction xs arbitrary: ys)
  case (Cons x xs)
  then obtain y ys' where ys: "ys = y # ys'"
    by (cases ys) auto
  have sets: "set (x # xs) = set ys"
    using Cons.prems(3) by (metis set_mset_mset)
  then have mem: "y \<in> set (x # xs)" "x \<in> set (y # ys')"
    using ys by (metis list.set_intros(1))+
  then have "le x y" and "le y x"
    using ys Cons.prems(1,2) le_refl by auto
  then have "x = y"
    using Cons.prems(4) [of x y] mem(1) by simp
  moreover from this have "mset xs = mset ys'"
    using Cons.prems(3) ys by simp
  then have "xs = ys'"
    using Cons.IH [of ys'] Cons.prems ys by simp
  ultimately show ?case
    by (simp add: ys)
qed simp

lemma filter_sort_by:
  assumes "mset ys = mset (filter P xs)"
    and "\<And>x y. x \<in> set xs \<Longrightarrow> y \<in> set xs \<Longrightarrow> le x y \<Longrightarrow> le y x \<Longrightarrow> x = y"
  shows "filter P (sort_by le xs) = sort_by le ys"
proof (rule sorted_unique)
  show "sorted_wrt le (filter P (sort_by le xs))"
    using sorted_sort_by by (rule sorted_wrt_filter)
qed (use assms sorted_sort_by in \<open>simp_all add: mset_filter\<close>)

end

interpretation by_age: comparator_le "created_le j" for j
  by unfold_locales (auto simp: created_le_def)

lemma created_le_antisym: "created_le j u v \<Longrightarrow> created_le j v u \<Longrightarrow> key_of u = key_of v"
  by (auto simp: created_le_def prod_eq_iff)

lemma distinct_keys_antisym:
  assumes "distinct (map key_of vms)" "u \<in> set vms" "v \<in> set vms" "created_le j u v" "created_le j v u"
  shows "u = v"
  using assms distinct_keys_eq created_le_antisym by metis

subsection \<open>Reservations\<close>

lemma claim_matches_sym: "claim_matches c d \<longleftrightarrow> claim_matches d c"
  by (auto simp: claim_matches_def split: option.splits)

lemma claim_matches_address: "claim_matches c d \<Longrightarrow> ac_address c = ac_address d"
  by (simp add: claim_matches_def)

lemma owner_of_None: "owner_of k reserved c = None \<longleftrightarrow> (\<forall>(r, own) \<in> set reserved. own \<noteq> k \<longrightarrow> \<not> claim_matches r c)"
  by (auto simp: owner_of_def find_None_iff)

lemma find_conflict_None: "find_conflict k reserved cs = None \<longleftrightarrow> (\<forall>c \<in> set cs. owner_of k reserved c = None)"
  by (induction cs) (auto split: option.splits)

definition consistent :: "reservations \<Rightarrow> bool" where
  "consistent reserved \<longleftrightarrow>
     (\<forall>(c, own) \<in> set reserved. \<forall>(d, own') \<in> set reserved. own \<noteq> own' \<longrightarrow> \<not> claim_matches c d)"

lemma consistentD:
  "consistent reserved \<Longrightarrow> (c, own) \<in> set reserved \<Longrightarrow> (d, own') \<in> set reserved \<Longrightarrow> own \<noteq> own'
   \<Longrightarrow> \<not> claim_matches c d"
  unfolding consistent_def by fastforce

lemma consistent_extend:
  assumes "consistent reserved" and "\<And>c. c \<in> set cs \<Longrightarrow> owner_of k reserved c = None"
  shows "consistent (reserved @ map (\<lambda>c. (c, k)) cs)"
  using assms claim_matches_sym unfolding consistent_def owner_of_None by fastforce

lemma reserve_one_consistent: "consistent (fst st) \<Longrightarrow> consistent (fst (reserve_one k c st))"
  using consistent_extend [of "fst st" "[c]" k] by (auto simp: reserve_one_def split: prod.splits option.splits)

lemma fold_invariant: "I st \<Longrightarrow> (\<And>v st. I st \<Longrightarrow> I (f v st)) \<Longrightarrow> I (fold f vms st)"
  by (induction vms arbitrary: st) auto

lemma fold_establishes:
  assumes "v \<in> set vms" and est: "\<And>st. P v (f v st)" and keep: "\<And>u st. P v st \<Longrightarrow> P v (f u st)"
  shows "P v (fold f vms st)"
  using assms(1)
proof (induction vms arbitrary: st)
  case (Cons u vms)
  have "P v (fold f vms (f v st))"
    by (rule fold_invariant [where I = "P v"]) (use est keep in blast)+
  with Cons show ?case by auto
qed simp

lemma reserve_held_consistent: "consistent (fst st) \<Longrightarrow> consistent (fst (reserve_held k cs st))"
  unfolding reserve_held_def by (rule fold_invariant [where I = "\<lambda>st. consistent (fst st)"]) (auto intro: reserve_one_consistent)

lemma admit_declared_consistent:
  "consistent (fst st) \<Longrightarrow> consistent (fst (admit_declared classes v st))"
  by (auto simp: admit_declared_def Let_def find_conflict_None intro: consistent_extend split: prod.splits option.splits)

text \<open>Reservations are never taken back and a block is never lifted.\<close>

definition grows :: "reservations \<times> blocks \<Rightarrow> reservations \<times> blocks \<Rightarrow> bool" where
  "grows st st' \<longleftrightarrow> set (fst st) \<subseteq> set (fst st') \<and> (\<forall>k. snd st' k = None \<longrightarrow> snd st k = None)"

lemma grows_refl: "grows st st"
  by (simp add: grows_def)

lemma growsD: "grows st st' \<Longrightarrow> x \<in> set (fst st) \<Longrightarrow> x \<in> set (fst st')"
  "grows st st' \<Longrightarrow> snd st' k = None \<Longrightarrow> snd st k = None"
  by (cases k, auto simp: grows_def)+

lemma grows_trans: "grows r s \<Longrightarrow> grows s t \<Longrightarrow> grows r t"
  by (auto simp: grows_def)

lemma reserve_one_grows: "grows st (reserve_one k c st)"
  by (auto simp: grows_def reserve_one_def split: prod.splits option.splits if_splits)

lemma reserve_held_grows: "grows st (reserve_held k cs st)"
  unfolding reserve_held_def
  by (rule fold_invariant [where I = "grows st"]) (auto intro: grows_refl grows_trans reserve_one_grows)

lemma reserve_held_reserves:
  assumes "c \<in> set cs"
  shows "snd (reserve_held k cs st) k = None \<longrightarrow> (c, k) \<in> set (fst (reserve_held k cs st))"
  unfolding reserve_held_def
proof (rule fold_establishes [OF assms, where P = "\<lambda>c st. snd st k = None \<longrightarrow> (c, k) \<in> set (fst st)"])
  show "snd (reserve_one k c st) k = None \<longrightarrow> (c, k) \<in> set (fst (reserve_one k c st))" for st
    by (auto simp: reserve_one_def split: prod.splits option.splits if_splits)
  show "snd st k = None \<longrightarrow> (c, k) \<in> set (fst st) \<Longrightarrow>
    snd (reserve_one k d st) k = None \<longrightarrow> (c, k) \<in> set (fst (reserve_one k d st))" for d st
    using reserve_one_grows [of st k d] by (auto dest: growsD)
qed

lemma admit_declared_grows: "grows st (admit_declared classes v st)"
  by (auto simp: grows_def admit_declared_def Let_def split: prod.splits option.splits)

lemma admit_declared_reserves:
  "c \<in> set (declared_claims v (class_of classes v)) \<Longrightarrow> snd (admit_declared classes v st) (key_of v) = None
   \<Longrightarrow> (c, key_of v) \<in> set (fst (admit_declared classes v st))"
  by (auto simp: admit_declared_def Let_def split: prod.splits option.splits if_splits)

lemma admission_consistent: "consistent (fst (admission classes vms))"
  unfolding admission_def held_pass_def
  by (intro fold_invariant [where I = "\<lambda>st. consistent (fst st)"] reserve_held_consistent admit_declared_consistent)
    (simp_all add: consistent_def)

lemma admission_grows: "grows (held_pass vms) (admission classes vms)"
  unfolding admission_def
  by (rule fold_invariant [where I = "grows (held_pass vms)"]) (auto intro: grows_refl grows_trans admit_declared_grows)

lemma held_pass_reserves:
  assumes "v \<in> set vms"
  shows "snd (held_pass vms) (key_of v) = None \<longrightarrow> (\<forall>c \<in> set (held_claims v). (c, key_of v) \<in> set (fst (held_pass vms)))"
  unfolding held_pass_def
proof (rule fold_establishes [OF assms, where
    P = "\<lambda>v st. snd st (key_of v) = None \<longrightarrow> (\<forall>c \<in> set (held_claims v). (c, key_of v) \<in> set (fst st))"])
  fix u :: virtual_machine and st :: "reservations \<times> blocks"
  assume "snd st (key_of v) = None \<longrightarrow> (\<forall>c \<in> set (held_claims v). (c, key_of v) \<in> set (fst st))"
  then show "snd (reserve_held (key_of u) (held_claims u) st) (key_of v) = None \<longrightarrow>
    (\<forall>c \<in> set (held_claims v). (c, key_of v) \<in> set (fst (reserve_held (key_of u) (held_claims u) st)))"
    using reserve_held_grows [of st "key_of u" "held_claims u"] by (auto dest: growsD)
qed (simp add: reserve_held_reserves)

lemma admission_reserves:
  assumes "v \<in> set vms" and "snd (admission classes vms) (key_of v) = None"
    and "c \<in> set (held_claims v) \<union> set (declared_claims v (class_of classes v))"
  shows "(c, key_of v) \<in> set (fst (admission classes vms))"
proof -
  have "snd (admission classes vms) (key_of v) = None \<longrightarrow>
    (\<forall>c \<in> set (declared_claims v (class_of classes v)). (c, key_of v) \<in> set (fst (admission classes vms)))"
    unfolding admission_def
  proof (rule fold_establishes [OF assms(1), where
      P = "\<lambda>v st. snd st (key_of v) = None \<longrightarrow> (\<forall>c \<in> set (declared_claims v (class_of classes v)). (c, key_of v) \<in> set (fst st))"])
    fix u :: virtual_machine and st :: "reservations \<times> blocks"
    assume "snd st (key_of v) = None \<longrightarrow> (\<forall>c \<in> set (declared_claims v (class_of classes v)). (c, key_of v) \<in> set (fst st))"
    then show "snd (admit_declared classes u st) (key_of v) = None \<longrightarrow>
      (\<forall>c \<in> set (declared_claims v (class_of classes v)). (c, key_of v) \<in> set (fst (admit_declared classes u st)))"
      using admit_declared_grows [of st classes u] by (auto dest: growsD)
  qed (simp add: admit_declared_reserves)
  then show ?thesis
    using assms admission_grows [of vms classes] held_pass_reserves [OF assms(1)] by (auto dest: growsD)
qed


subsection \<open>Contenders are enough\<close>

text \<open>
  The part of a state that belongs to the machines with keys in \<open>K\<close>.  When those machines own exactly the
  reservations of the addresses in \<open>A\<close>, a step of one of them only looks at that part, and a step of
  another machine leaves it alone.
\<close>

definition part_of :: "vm_key set \<Rightarrow> reservations \<times> blocks \<Rightarrow> reservations \<times> blocks" where
  "part_of K st = (filter (\<lambda>(c, own). own \<in> K) (fst st), snd st |` K)"

definition separated :: "string set \<Rightarrow> vm_key set \<Rightarrow> reservations \<times> blocks \<Rightarrow> bool" where
  "separated A K st \<longleftrightarrow> (\<forall>(c, own) \<in> set (fst st). own \<in> K \<longleftrightarrow> ac_address c \<in> A)"

definition local_step :: "string set \<Rightarrow> vm_key set \<Rightarrow> bool \<Rightarrow> (reservations \<times> blocks \<Rightarrow> reservations \<times> blocks) \<Rightarrow> bool" where
  "local_step A K inside f \<longleftrightarrow> (\<forall>st. separated A K st \<longrightarrow> separated A K (f st) \<and>
     part_of K (f st) = (if inside then f (part_of K st) else part_of K st))"

lemma local_stepD:
  assumes "local_step A K inside f" and "separated A K st"
  shows "separated A K (f st)" and "part_of K (f st) = (if inside then f (part_of K st) else part_of K st)"
  using assms unfolding local_step_def by blast+

lemma local_step_fold:
  assumes "\<And>v. v \<in> set vms \<Longrightarrow> local_step A K (P v) (f v)" and "separated A K st"
  shows "part_of K (fold f vms st) = fold f (filter P vms) (part_of K st) \<and> separated A K (fold f vms st)"
  using assms
proof (induction vms arbitrary: st)
  case (Cons v vms)
  then have "separated A K (f v st)" "part_of K (f v st) = (if P v then f v (part_of K st) else part_of K st)"
    using local_stepD [of A K "P v" "f v" st] by simp_all
  with Cons show ?case by simp
qed simp

lemma owner_of_part:
  assumes "separated A K (reserved, blocked)" and "ac_address c \<in> A"
  shows "owner_of k (filter (\<lambda>(c, own). own \<in> K) reserved) c = owner_of k reserved c"
proof -
  have "find (\<lambda>(r, own). own \<noteq> k \<and> claim_matches r c) (filter (\<lambda>(c, own). own \<in> K) reserved)
      = find (\<lambda>(r, own). own \<noteq> k \<and> claim_matches r c) reserved"
    using assms(1)
  proof (induction reserved)
    case (Cons x xs)
    then show ?case
      using assms(2) claim_matches_address [of "fst x" c] by (auto simp: separated_def split: prod.splits)
  qed simp
  then show ?thesis by (simp add: owner_of_def)
qed

lemma find_conflict_part:
  assumes "separated A K (reserved, blocked)" and "ac_address ` set cs \<subseteq> A"
  shows "find_conflict k (filter (\<lambda>(c, own). own \<in> K) reserved) cs = find_conflict k reserved cs"
  using assms(2) by (induction cs) (simp_all add: owner_of_part [OF assms(1)] split: option.split)

lemma local_step_reserve_one:
  assumes "k \<in> K \<longleftrightarrow> inside" and "ac_address c \<in> A \<longleftrightarrow> inside"
  shows "local_step A K inside (reserve_one k c)"
  unfolding local_step_def
proof (intro allI impI)
  fix st assume sep: "separated A K st"
  obtain reserved blocked where st: "st = (reserved, blocked)" by (cases st)
  show "separated A K (reserve_one k c st) \<and>
     part_of K (reserve_one k c st) = (if inside then reserve_one k c (part_of K st) else part_of K st)"
    using sep assms owner_of_part [of A K reserved blocked c k]
    by (cases inside) (auto simp: st reserve_one_def part_of_def separated_def restrict_map_def fun_eq_iff split: option.splits)
qed

lemma local_step_reserve_held:
  assumes "k \<in> K \<longleftrightarrow> inside" and "\<And>c. c \<in> set cs \<Longrightarrow> ac_address c \<in> A \<longleftrightarrow> inside"
  shows "local_step A K inside (reserve_held k cs)"
proof -
  have "local_step A K inside (reserve_one k c)" if "c \<in> set cs" for c
    using assms that by (intro local_step_reserve_one) auto
  then have "part_of K (fold (reserve_one k) cs st) = fold (reserve_one k) (filter (\<lambda>_. inside) cs) (part_of K st)
      \<and> separated A K (fold (reserve_one k) cs st)" if "separated A K st" for st
    using local_step_fold [of cs A K "\<lambda>_. inside" "reserve_one k" st] that by blast
  moreover have "filter (\<lambda>_. inside) cs = (if inside then cs else [])"
    by simp
  ultimately show ?thesis
    unfolding local_step_def reserve_held_def by (auto simp del: split_paired_All)
qed

lemma local_step_admit_declared:
  assumes "key_of v \<in> K \<longleftrightarrow> inside"
    and "\<And>c. c \<in> set (declared_claims v (class_of classes v)) \<Longrightarrow> ac_address c \<in> A \<longleftrightarrow> inside"
  shows "local_step A K inside (admit_declared classes v)"
  unfolding local_step_def
proof (intro allI impI)
  fix st assume sep: "separated A K st"
  obtain reserved blocked where st: "st = (reserved, blocked)" by (cases st)
  show "separated A K (admit_declared classes v st) \<and>
     part_of K (admit_declared classes v st) = (if inside then admit_declared classes v (part_of K st) else part_of K st)"
  proof (cases inside)
    case True
    then have "find_conflict (key_of v) (filter (\<lambda>(c, own). own \<in> K) reserved) (declared_claims v (class_of classes v))
        = find_conflict (key_of v) reserved (declared_claims v (class_of classes v))"
      using sep st assms(2) by (intro find_conflict_part) auto
    then show ?thesis
      using True sep assms
      by (auto simp: st admit_declared_def Let_def part_of_def separated_def restrict_map_def fun_eq_iff filter_map o_def
          split: option.splits)
  next
    case False
    then show ?thesis
      using sep assms
      by (auto simp: st admit_declared_def Let_def part_of_def separated_def restrict_map_def fun_eq_iff filter_map o_def
          split: option.splits)
  qed
qed

lemma claims_in_addresses:
  "c \<in> set (held_claims v) \<union> set (declared_claims v cls) \<Longrightarrow> ac_address c \<in> addresses_of v"
  by (auto simp: addresses_of_def declared_claims_def declared_claim_def List.map_filter_def split: option.splits)

lemma admission_part:
  assumes K: "\<And>v. v \<in> set vms \<Longrightarrow> key_of v \<in> K \<longleftrightarrow> P v"
    and A: "\<And>v a. v \<in> set vms \<Longrightarrow> a \<in> addresses_of v \<Longrightarrow> a \<in> A \<longleftrightarrow> P v"
  shows "part_of K (admission classes vms) = admission classes (filter P vms)"
proof -
  have init: "separated A K ([], \<lambda>_. None)" "part_of K ([], \<lambda>_. None) = ([], \<lambda>_. None)"
    by (simp_all add: separated_def part_of_def restrict_map_def)
  have "local_step A K (P v) (reserve_held (key_of v) (held_claims v))" if "v \<in> set vms" for v
    using K A that claims_in_addresses by (intro local_step_reserve_held) blast+
  from local_step_fold [of vms A K P "\<lambda>v. reserve_held (key_of v) (held_claims v)", OF this init(1)]
  have held: "part_of K (held_pass vms) = held_pass (filter P vms)" "separated A K (held_pass vms)"
    unfolding held_pass_def init(2) by blast+
  have "local_step A K (P v) (admit_declared classes v)" if "v \<in> set vms" for v
    using K A that claims_in_addresses by (intro local_step_admit_declared) blast+
  from local_step_fold [of vms A K P "admit_declared classes", OF this held(2)] held(1)
  show ?thesis
    unfolding admission_def by simp
qed


definition cohort :: "virtual_machine \<Rightarrow> virtual_machine list \<Rightarrow> virtual_machine list" where
  "cohort vm vms = filter (\<lambda>c. key_of c \<noteq> key_of vm) vms @ [vm]"

lemma everyone_of_cohort: "everyone_of j vm vms = sort_by (created_le j) (cohort vm vms)"
  by (simp add: everyone_of_def cohort_def)

lemma distinct_cohort: "distinct (map key_of vms) \<Longrightarrow> distinct (map key_of (cohort vm vms))"
  by (auto simp: cohort_def distinct_map_filter_key)

lemma distinct_contending:
  assumes "distinct (map key_of vms)"
  shows "distinct (contending_vms vm vms)"
  using assms by (auto simp: contending_vms_def distinct_map intro!: contend_distinct)

definition contends :: "virtual_machine \<Rightarrow> virtual_machine list \<Rightarrow> virtual_machine \<Rightarrow> bool" where
  "contends vm vms v \<longleftrightarrow> key_of v = key_of vm \<or> v \<in> set (contending_vms vm vms)"

lemma contenders_sorted:
  assumes "distinct (map key_of vms)"
  shows "filter (contends vm vms) (everyone_of j vm vms) = everyone_of j vm (contending_vms vm vms)"
  unfolding everyone_of_cohort
proof (rule by_age.filter_sort_by)
  have "distinct (cohort vm (contending_vms vm vms))"
    using distinct_contending [OF assms] by (auto simp: cohort_def)
  moreover have "distinct (filter (contends vm vms) (cohort vm vms))"
    using distinct_cohort [OF assms] by (auto simp: distinct_map)
  moreover have "set (cohort vm (contending_vms vm vms)) = set (filter (contends vm vms) (cohort vm vms))"
    using contending_vms_set [of _ vm vms] by (auto simp: cohort_def contends_def)
  ultimately show "mset (cohort vm (contending_vms vm vms)) = mset (filter (contends vm vms) (cohort vm vms))"
    using set_eq_iff_mset_eq_distinct by blast
qed (use distinct_keys_antisym [OF distinct_cohort [OF assms]] in blast)

lemma admission_contenders:
  assumes "distinct (map key_of vms)"
  shows "snd (admission classes (everyone_of j vm (contending_vms vm vms))) (key_of vm)
    = snd (admission classes (everyone_of j vm vms)) (key_of vm)"
proof -
  let ?vms = "everyone_of j vm vms" and ?P = "contends vm vms"
  define inside where "inside = {v \<in> set ?vms. ?P v}"
  have keys: "u = v" if "u \<in> set ?vms" "v \<in> set ?vms" "key_of u = key_of v" for u v
    using that distinct_keys_eq [OF distinct_cohort [OF assms]] by (simp add: everyone_of_cohort)
  have mem: "v = vm \<or> v \<in> set vms \<and> key_of v \<noteq> key_of vm" if "v \<in> set ?vms" for v
    using that by (auto simp: everyone_of_cohort cohort_def)
  have apart: "\<not> shares u v" if "u \<in> inside" "v \<in> set ?vms" "\<not> ?P v" for u v
  proof -
    have "v \<in> set vms" "key_of v \<noteq> key_of vm" "v \<notin> set (contending_vms vm vms)"
      using that mem [of v] by (auto simp: contends_def)
    from contending_vms_closed [OF this] show ?thesis
      using that(1) mem [of u] by (auto simp: inside_def contends_def)
  qed
  have "part_of (key_of ` inside) (admission classes ?vms) = admission classes (filter ?P ?vms)"
  proof (rule admission_part [where A = "\<Union> (addresses_of ` inside)"])
    show "key_of v \<in> key_of ` inside \<longleftrightarrow> ?P v" if "v \<in> set ?vms" for v
      using that keys by (auto simp: inside_def)
    show "a \<in> \<Union> (addresses_of ` inside) \<longleftrightarrow> ?P v" if "v \<in> set ?vms" "a \<in> addresses_of v" for v a
      using that apart [of _ v] by (auto simp: inside_def shares_def)
  qed
  moreover have "key_of vm \<in> key_of ` inside"
    by (auto simp: inside_def everyone_of_cohort cohort_def contends_def)
  ultimately show ?thesis
    by (auto simp: contenders_sorted [OF assms] part_of_def dest: arg_cong [where f = "\<lambda>st. snd st (key_of vm)"])
qed

text \<open>
  (C18) Looking at the contending machines only gives the answer that looking at every machine of the store
  gives: machines without a chain of shared addresses to \<open>vm\<close> do not influence whether \<open>vm\<close> is blocked, nor by
  whom.
\<close>

theorem contenders_suffice:
  assumes "distinct (map key_of vms)"
  shows "find_duplicate_address j vm (contending_vms vm vms) classes = find_duplicate_address j vm vms classes"
  by (simp add: find_duplicate_address_def admission_contenders [OF assms])

subsection \<open>No shared address\<close>

lemma everyone_of_member:
  assumes "distinct (map key_of vms)" "vm \<in> set vms"
  shows "everyone_of j vm vms = sort_by (created_le j) vms"
proof -
  have "mset (cohort vm vms) = mset vms"
  proof -
    have "distinct (cohort vm vms)" "distinct vms"
      using assms distinct_cohort by (auto simp: distinct_map)
    moreover have "set (cohort vm vms) = set vms"
      using assms distinct_keys_eq [OF assms(1)] by (auto simp: cohort_def)
    ultimately show ?thesis using set_eq_iff_mset_eq_distinct by blast
  qed
  then have "filter (\<lambda>_. True) (sort_by (created_le j) vms) = sort_by (created_le j) (cohort vm vms)"
    using distinct_keys_antisym [OF assms(1)] by (intro by_age.filter_sort_by) (simp, blast)
  then show ?thesis by (simp add: everyone_of_cohort)
qed

lemma find_duplicate_address_None:
  "find_duplicate_address j vm vms classes = None
   \<longleftrightarrow> snd (admission classes (everyone_of j vm vms)) (key_of vm) = None"
  by (simp add: find_duplicate_address_def)

text \<open>
  (C17) Two machines that both pass the check on the same store never claim one address on one network: no
  address that the one holds or declares matches an address that the other holds or declares.
\<close>

theorem admitted_vms_share_no_address:
  assumes "distinct (map key_of vms)" "a \<in> set vms" "b \<in> set vms" "a \<noteq> b"
    and "find_duplicate_address j a (contending_vms a vms) classes = None"
    and "find_duplicate_address j b (contending_vms b vms) classes = None"
    and "c \<in> set (held_claims a) \<union> set (declared_claims a (class_of classes a))"
    and "d \<in> set (held_claims b) \<union> set (declared_claims b (class_of classes b))"
  shows "\<not> claim_matches c d"
proof -
  let ?st = "admission classes (sort_by (created_le j) vms)"
  have "snd ?st (key_of a) = None" "snd ?st (key_of b) = None"
    using assms(5,6) assms(1-3)
    by (simp_all add: find_duplicate_address_def admission_contenders everyone_of_member)
  then have "(c, key_of a) \<in> set (fst ?st)" "(d, key_of b) \<in> set (fst ?st)"
    using assms(2,3,7,8) by (simp_all add: admission_reserves)
  moreover have "key_of a \<noteq> key_of b"
    using distinct_keys_eq [OF assms(1-3)] assms(4) by blast
  ultimately show ?thesis
    by (rule consistentD [OF admission_consistent])
qed


subsection \<open>The oldest machine gets its address\<close>

lemma reserve_held_block_other: "k \<noteq> k' \<Longrightarrow> snd (reserve_held k' cs st) k = snd st k"
  unfolding reserve_held_def
  by (rule fold_invariant [where I = "\<lambda>st'. snd st' k = snd st k"]) (auto simp: reserve_one_def split: prod.splits option.splits)

lemma admit_declared_block_other: "k \<noteq> key_of v \<Longrightarrow> snd (admit_declared classes v st) k = snd st k"
  by (auto simp: admit_declared_def Let_def split: prod.splits option.splits)

lemma reserve_held_source: "set (fst (reserve_held k cs st)) \<subseteq> set (fst st) \<union> set cs \<times> {k}"
proof (induction cs arbitrary: st)
  case (Cons c cs)
  have "set (fst (reserve_one k c st)) \<subseteq> set (fst st) \<union> {(c, k)}"
    by (auto simp: reserve_one_def split: prod.splits option.splits)
  with Cons [of "reserve_one k c st"] show ?case
    by (auto simp: reserve_held_def)
qed (simp add: reserve_held_def)

lemma owner_of_alone: "\<forall>x \<in> set reserved. snd x = k \<Longrightarrow> owner_of k reserved c = None"
  unfolding owner_of_None by fastforce

lemma reserve_held_alone:
  assumes "\<forall>x \<in> set (fst st). snd x = k" and "snd st k = None"
  shows "snd (reserve_held k cs st) k = None"
proof -
  have "(\<forall>x \<in> set (fst (fold (reserve_one k) cs st)). snd x = k) \<and> snd (fold (reserve_one k) cs st) k = None"
  proof (rule fold_invariant [where I = "\<lambda>st. (\<forall>x \<in> set (fst st). snd x = k) \<and> snd st k = None"])
    show "(\<forall>x \<in> set (fst (reserve_one k c st)). snd x = k) \<and> snd (reserve_one k c st) k = None"
      if "(\<forall>x \<in> set (fst st). snd x = k) \<and> snd st k = None" for c st
      using that owner_of_alone [of "fst st" k c] by (auto simp: reserve_one_def split: prod.splits)
  qed (use assms in blast)
  then show ?thesis
    by (simp add: reserve_held_def)
qed

lemma held_pass_source:
  "(c, own) \<in> set (fst (held_pass vms)) \<Longrightarrow> \<exists>v \<in> set vms. own = key_of v \<and> c \<in> set (held_claims v)"
proof -
  have "set (fst (fold (\<lambda>v. reserve_held (key_of v) (held_claims v)) vms st))
      \<subseteq> set (fst st) \<union> (\<Union>v \<in> set vms. set (held_claims v) \<times> {key_of v})" for st
  proof (induction vms arbitrary: st)
    case (Cons v vms)
    then show ?case
      using reserve_held_source [of "key_of v" "held_claims v" st] by fastforce
  qed simp
  then show "(c, own) \<in> set (fst (held_pass vms)) \<Longrightarrow> ?thesis"
    by (fastforce simp: held_pass_def)
qed

lemma fold_block_other:
  assumes "\<And>v st. v \<in> set vms \<Longrightarrow> snd (f v st) k = snd st k"
  shows "snd (fold f vms st) k = snd st k"
  using assms by (induction vms arbitrary: st) auto

lemma first_admitted:
  assumes others: "\<And>v. v \<in> set vms \<Longrightarrow> key_of v \<noteq> key_of vm"
    and free: "\<And>v c d. v \<in> set vms \<Longrightarrow> c \<in> set (held_claims v) \<Longrightarrow> d \<in> set (declared_claims vm (class_of classes vm))
      \<Longrightarrow> \<not> claim_matches c d"
  shows "snd (admission classes (vm # vms)) (key_of vm) = None"
proof -
  let ?held = "held_pass (vm # vms)"
  have "snd (reserve_held (key_of vm) (held_claims vm) ([], \<lambda>_. None)) (key_of vm) = None"
    by (rule reserve_held_alone) simp_all
  then have unblocked: "snd ?held (key_of vm) = None"
    using fold_block_other [of vms "\<lambda>v. reserve_held (key_of v) (held_claims v)" "key_of vm"]
      reserve_held_block_other [OF others [symmetric]] by (simp add: held_pass_def)
  have "owner_of (key_of vm) (fst ?held) d = None" if "d \<in> set (declared_claims vm (class_of classes vm))" for d
    using that free held_pass_source [of _ _ "vm # vms"] by (fastforce simp: owner_of_None)
  then have "find_conflict (key_of vm) (fst ?held) (declared_claims vm (class_of classes vm)) = None"
    by (simp add: find_conflict_None)
  then have "snd (admit_declared classes vm ?held) (key_of vm) = None"
    using unblocked by (simp add: admit_declared_def Let_def case_prod_unfold)
  then show ?thesis
    using fold_block_other [of vms "admit_declared classes" "key_of vm"] admit_declared_block_other [OF others [symmetric]]
    by (simp add: admission_def)
qed

lemma everyone_of_oldest:
  assumes "\<And>v. v \<in> set vms \<Longrightarrow> key_of v \<noteq> key_of vm \<Longrightarrow> created_le j vm v"
  obtains others where "everyone_of j vm vms = vm # others"
    and "\<And>v. v \<in> set others \<Longrightarrow> v \<in> set vms \<and> key_of v \<noteq> key_of vm"
proof -
  have ms: "mset (everyone_of j vm vms) = add_mset vm (mset (filter (\<lambda>c. key_of c \<noteq> key_of vm) vms))"
    by (simp add: everyone_of_def)
  then obtain h others where eq: "everyone_of j vm vms = h # others"
    by (cases "everyone_of j vm vms") auto
  have sorted: "sorted_wrt (created_le j) (h # others)"
    using by_age.sorted_sort_by eq by (metis everyone_of_def)
  have members: "set (h # others) = insert vm {v \<in> set vms. key_of v \<noteq> key_of vm}"
    using arg_cong [OF ms, of set_mset] unfolding eq by simp
  have "h = vm"
  proof (rule ccontr)
    assume "h \<noteq> vm"
    with members have "vm \<in> set others" "key_of h \<noteq> key_of vm" "h \<in> set vms"
      by auto
    with sorted assms [of h] show False
      using created_le_antisym [of j vm h] by auto
  qed
  then have "mset others = mset (filter (\<lambda>c. key_of c \<noteq> key_of vm) vms)"
    using ms unfolding eq by simp
  then have "set others = {v \<in> set vms. key_of v \<noteq> key_of vm}"
    by (metis set_filter set_mset_mset)
  with that [of others] eq \<open>h = vm\<close> show thesis
    by auto
qed

text \<open>
  The check makes progress: a machine that is the oldest of the machines it contends with, and none of
  whose declared addresses another machine holds, is never blocked.
\<close>

theorem oldest_vm_admitted:
  assumes "\<And>v. v \<in> set vms \<Longrightarrow> key_of v \<noteq> key_of vm \<Longrightarrow> created_le j vm v"
    and "\<And>v c d. v \<in> set vms \<Longrightarrow> key_of v \<noteq> key_of vm \<Longrightarrow> c \<in> set (held_claims v)
      \<Longrightarrow> d \<in> set (declared_claims vm (class_of classes vm)) \<Longrightarrow> \<not> claim_matches c d"
  shows "find_duplicate_address j vm vms classes = None"
proof -
  obtain others where "everyone_of j vm vms = vm # others"
    and "\<And>v. v \<in> set others \<Longrightarrow> v \<in> set vms \<and> key_of v \<noteq> key_of vm"
    using everyone_of_oldest assms(1) by blast
  moreover from this(2) assms(2) have "snd (admission classes (vm # others)) (key_of vm) = None"
    by (intro first_admitted) blast+
  ultimately show ?thesis
    by (simp add: find_duplicate_address_None)
qed

subsection \<open>Examples\<close>

definition demo_override :: "string \<Rightarrow> network_interface_override" where
  "demo_override a = \<lparr>nio_name = ''eth0'', nio_static = \<lparr>sic_address = a, sic_prefix = 24, sic_gateway = None,
     sic_nameservers = [], sic_domain = None\<rparr>\<rparr>"

definition static_vm :: "string \<Rightarrow> timestamp \<Rightarrow> string list \<Rightarrow> string list \<Rightarrow> virtual_machine" where
  "static_vm n t declared held = \<lparr>vm_meta = (demo_meta n [])\<lparr>om_creation_timestamp := Some t\<rparr>,
     vm_spec = (demo_vm_spec [])\<lparr>vs_network_overrides := map demo_override declared\<rparr>,
     vm_status = Some (default_vm_status\<lparr>vst_held_addresses := map (\<lambda>a. \<lparr>ha_interface = ''eth0'',
       ha_network_class = ''lan'', ha_address = a\<rparr>) held\<rparr>)\<rparr>"

definition lan_class :: vm_class where
  "lan_class = (demo_class Bios 1024)\<lparr>vc_spec := (vc_spec (demo_class Bios 1024))\<lparr>vcs_network :=
     \<lparr>ns_interfaces = [\<lparr>nis_name = ''eth0'', nis_network_class = ''lan'',
       nis_ipam = \<lparr>ish_static = None, ish_pool = None\<rparr>, nis_mtu = None\<rparr>]\<rparr>\<rparr>\<rparr>"

theorem contenders_suffice_witness:
  "find_duplicate_address demo_jiff (static_vm ''b'' 2 [''::1''] [])
     (contending_vms (static_vm ''b'' 2 [''::1''] [])
       [static_vm ''a'' 1 [''::1''] [], static_vm ''b'' 2 [''::1''] [], static_vm ''c'' 3 [''::9''] []]) [lan_class]
   = Some \<lparr>da_address = ''::1'', da_network_class = ''lan'', da_interface = ''eth0'', da_holder = SameNamespace ''ns/a''\<rparr>"
proof -
  let ?vms = "[static_vm ''a'' 1 [''::1''] [], static_vm ''b'' 2 [''::1''] [], static_vm ''c'' 3 [''::9''] []]"
  have "distinct (map key_of ?vms)"
    by code_simp
  from contenders_suffice [OF this, of demo_jiff "static_vm ''b'' 2 [''::1''] []" "[lan_class]"] show ?thesis
    by (simp only:) code_simp
qed

theorem admitted_vms_share_no_address_witness:
  "\<not> claim_matches \<lparr>ac_interface = ''eth0'', ac_network_class = Some ''lan'', ac_address = ''::1''\<rparr>
       \<lparr>ac_interface = ''eth0'', ac_network_class = Some ''lan'', ac_address = ''::9''\<rparr>"
  by (rule admitted_vms_share_no_address [where vms = "[static_vm ''a'' 1 [''::1''] [], static_vm ''c'' 3 [''::9''] []]"
      and a = "static_vm ''a'' 1 [''::1''] []" and b = "static_vm ''c'' 3 [''::9''] []" and j = demo_jiff
      and classes = "[lan_class]"]) code_simp+

theorem oldest_vm_admitted_witness:
  "find_duplicate_address demo_jiff (static_vm ''a'' 1 [''::1''] [])
     [static_vm ''b'' 2 [''::1''] [''::7'']] [lan_class] = None"
proof (rule oldest_vm_admitted)
  fix v assume "v \<in> set [static_vm ''b'' 2 [''::1''] [''::7'']]"
  then have v: "v = static_vm ''b'' 2 [''::1''] [''::7'']" by simp
  show "created_le demo_jiff (static_vm ''a'' 1 [''::1''] []) v"
    unfolding v by code_simp
  have "list_all (\<lambda>c. list_all (\<lambda>d. \<not> claim_matches c d)
      (declared_claims (static_vm ''a'' 1 [''::1''] []) (class_of [lan_class] (static_vm ''a'' 1 [''::1''] []))))
    (held_claims v)"
    unfolding v by code_simp
  then show "c \<in> set (held_claims v) \<Longrightarrow> d \<in> set (declared_claims (static_vm ''a'' 1 [''::1''] [])
      (class_of [lan_class] (static_vm ''a'' 1 [''::1''] []))) \<Longrightarrow> \<not> claim_matches c d" for c d
    by (simp add: list_all_iff)
qed

text \<open>
  Two machines can block each other for good: both hold \<^verbatim>\<open>::1\<close>, the younger one also holds
  \<^verbatim>\<open>::2\<close>, and the older one is edited to declare that address as well.  The younger is blocked by the
  older on the first address and the older by the younger on the second.
\<close>

lemma holders_block_each_other:
  "(let a = static_vm ''a'' 1 [''::1'', ''::2''] [''::1''];
        b = static_vm ''b'' 2 [''::1'', ''::2''] [''::1'', ''::2'']
    in (map_option (\<lambda>d. (da_address d, da_holder d)) (find_duplicate_address demo_jiff a [a, b] [lan_class]),
        map_option (\<lambda>d. (da_address d, da_holder d)) (find_duplicate_address demo_jiff b [a, b] [lan_class])))
   = (Some (''::2'', SameNamespace ''ns/b''), Some (''::1'', SameNamespace ''ns/a''))"
  by code_simp

end
