(* ===== verification/Infra_Build.thy ===== *)
theory Infra_Build
  imports Address_Conflict Infra_Types
begin

section \<open>Building the infrastructure object of a machine\<close>

text \<open>
  Model of \<^verbatim>\<open>crates/banlieue-controller/src/reconciler/infra.rs\<close>: from the scheduler's decision, the machine,
  its class, its image and its provider, the object of one of the four backends.  The lemmas relate what
  is built to the machine (name, owner, labels, sizes, overrides), to the decision (one interface and one
  disk for each of the class, each on the backend identifier the scheduler resolved for it) and to the
  addresses that are recorded as held.
\<close>

subsection \<open>Names\<close>

definition PROVIDER_CLASS_VSPHERE :: string where "PROVIDER_CLASS_VSPHERE = ''vsphere''"
definition PROVIDER_CLASS_LIBVIRT :: string where "PROVIDER_CLASS_LIBVIRT = ''libvirt''"
definition PROVIDER_CLASS_CLOUD_HYPERVISOR :: string where "PROVIDER_CLASS_CLOUD_HYPERVISOR = ''cloud-hypervisor''"
definition PROVIDER_CLASS_PROXMOX :: string where "PROVIDER_CLASS_PROXMOX = ''proxmox''"

datatype infra_kind = IVSphere | ILibvirt | ICloudHypervisor | IProxmox

definition from_provider_class :: "string \<Rightarrow> infra_kind option" where
  "from_provider_class c =
     (if c = PROVIDER_CLASS_VSPHERE then Some IVSphere
      else if c = PROVIDER_CLASS_LIBVIRT then Some ILibvirt
      else if c = PROVIDER_CLASS_CLOUD_HYPERVISOR then Some ICloudHypervisor
      else if c = PROVIDER_CLASS_PROXMOX then Some IProxmox
      else None)"

fun kind_name :: "infra_kind \<Rightarrow> string" where
  "kind_name IVSphere = ''VSphereMachine''"
| "kind_name ILibvirt = ''LibvirtMachine''"
| "kind_name ICloudHypervisor = ''CloudHypervisorMachine''"
| "kind_name IProxmox = ''ProxmoxMachine''"

definition FD_RAW_VSPHERE_DATACENTER :: string where "FD_RAW_VSPHERE_DATACENTER = ''datacenter''"
definition FD_RAW_VSPHERE_CLUSTER :: string where "FD_RAW_VSPHERE_CLUSTER = ''cluster''"
definition FD_RAW_PROXMOX_NODE :: string where "FD_RAW_PROXMOX_NODE = ''node''"
definition TARGET_KEY_LIBVIRT_NETWORK :: string where "TARGET_KEY_LIBVIRT_NETWORK = ''network''"
definition TARGET_KEY_LIBVIRT_BRIDGE :: string where "TARGET_KEY_LIBVIRT_BRIDGE = ''bridge''"
definition PROXMOX_SEED_STORAGE_CLASS :: string where "PROXMOX_SEED_STORAGE_CLASS = ''seed-iso''"
definition TARGET_KEY_PROXMOX_STORAGE :: string where "TARGET_KEY_PROXMOX_STORAGE = ''storage''"
definition TARGET_KEY_PROXMOX_BRIDGE :: string where "TARGET_KEY_PROXMOX_BRIDGE = ''bridge''"
definition TARGET_KEY_PROXMOX_VLAN :: string where "TARGET_KEY_PROXMOX_VLAN = ''vlan''"
definition PROXMOX_SOCKETS :: nat where "PROXMOX_SOCKETS = 1"
definition ANNOTATION_CREATED_BY :: string where "ANNOTATION_CREATED_BY = ''banlieue.io/created-by''"

datatype infra_build_error =
    MissingFdRaw string string
  | MissingResolvedImageRef string string string
  | UnresolvedClass string
  | Unsupported string string
  | InvalidTemplateVmid string string
  | InvalidVlan string string
  | InvalidSpec string

fun infra_build_error_text :: "infra_build_error \<Rightarrow> string" where
  "infra_build_error_text (MissingFdRaw fd k) = ''failure domain '' @ fd @ '' missing raw attribute '' @ [CHR 0x27] @ k @ [CHR 0x27]"
| "infra_build_error_text (MissingResolvedImageRef img p z) =
     ''VMImage '' @ img @ '' has no resolved_ref for provider '' @ p @ '' (zone '' @ z @ '')''"
| "infra_build_error_text (UnresolvedClass c) =
     ''decision did not resolve class '' @ [CHR 0x27] @ c @ [CHR 0x27] @ '' to a backend identifier''"
| "infra_build_error_text (Unsupported backend what) = backend @ '' does not support '' @ what @ '' yet''"
| "infra_build_error_text (InvalidTemplateVmid img r) =
     ''VMImage '' @ img @ '' resolvedRef '' @ debug_str r @ '' is not a Proxmox template VMID''"
| "infra_build_error_text (InvalidVlan c v) = ''network class '' @ c @ '' has vlan '' @ debug_str v @ '', which is not a VLAN id''"
| "infra_build_error_text (InvalidSpec e) = ''built spec is invalid: '' @ e"

fun proxmox_spec_error_text :: "proxmox_spec_error \<Rightarrow> string" where
  "proxmox_spec_error_text IsoStorageMissing = ''isoStorage must be set when userData is set''"
| "proxmox_spec_error_text TooManyDataDisks = ''at most 30 dataDisks are supported''"
| "proxmox_spec_error_text (DuplicateDataDisk n) = ''duplicate dataDisk name '' @ debug_str n"
| "proxmox_spec_error_text (DuplicateNic n) = ''duplicate nic name '' @ debug_str n"
| "proxmox_spec_error_text (VlanOutOfRange n v) = ''nic '' @ debug_str n @ '': vlan '' @ show_nat v @ '' outside 1..=4094''"

subsection \<open>The parts the builders share\<close>

definition first_boot_sealing_for :: "vm_class \<Rightarrow> vm_image \<Rightarrow> first_boot_sealing option" where
  "first_boot_sealing_for cls img =
     (if \<not> vcs_tpm_enabled (vc_spec cls) then None else vi_first_boot_sealing (vmi_spec img))"

definition owner_reference_for :: "virtual_machine \<Rightarrow> owner_reference" where
  "owner_reference_for vm =
     \<lparr>or_api_version = ''banlieue.io/v1alpha1'', or_kind = ''VirtualMachine'', or_name = name_any (vm_meta vm),
      or_uid = (case om_uid (vm_meta vm) of Some u \<Rightarrow> u | None \<Rightarrow> ''''), or_controller = Some True,
      or_block_owner_deletion = Some True\<rparr>"

definition propagate_labels :: "virtual_machine \<Rightarrow> btmap" where
  "propagate_labels vm = bt_insert ''banlieue.io/owned-by'' (name_any (vm_meta vm)) (meta_labels (vm_meta vm))"

definition infra_meta :: "virtual_machine \<Rightarrow> object_meta" where
  "infra_meta vm = empty_meta\<lparr>om_name := Some (name_any (vm_meta vm)), om_namespace := om_namespace (vm_meta vm),
     om_owner_references := Some [owner_reference_for vm], om_labels := Some (propagate_labels vm)\<rparr>"

definition merge_ipam_override :: "ipam_shape \<Rightarrow> static_ipam_config option \<Rightarrow> subnet_shape option \<Rightarrow> ipam_spec" where
  "merge_ipam_override class_ipam ov zone_subnet =
     (case ov of
        Some cfg \<Rightarrow> \<lparr>is_static = Some \<lparr>sic_address = sic_address cfg, sic_prefix = sic_prefix cfg,
            sic_gateway = option_or (sic_gateway cfg) (Option.bind zone_subnet ss_gateway),
            sic_nameservers = (if sic_nameservers cfg = []
              then (case zone_subnet of Some s \<Rightarrow> ss_nameservers s | None \<Rightarrow> []) else sic_nameservers cfg),
            sic_domain = option_or (sic_domain cfg) (Option.bind zone_subnet ss_domain)\<rparr>, is_pool = None\<rparr>
      | None \<Rightarrow> \<lparr>is_static = None, is_pool = ish_pool class_ipam\<rparr>)"

definition merge_disk_size_override :: "disk_spec \<Rightarrow> hardware_override option \<Rightarrow> nat" where
  "merge_disk_size_override disk ov =
     (case Option.bind ov (\<lambda>h. find (\<lambda>d. do_name d = ds_name disk) (ho_disk_overrides h)) of
        Some d \<Rightarrow> do_size_gib d | None \<Rightarrow> ds_size_gib disk)"

definition cpus_for :: "virtual_machine \<Rightarrow> vm_class \<Rightarrow> nat" where
  "cpus_for vm cls = (case Option.bind (vs_hardware_override (vm_spec vm)) ho_cpus of
     Some n \<Rightarrow> n | None \<Rightarrow> hs_cpus (vcs_hardware (vc_spec cls)))"

definition memory_for :: "virtual_machine \<Rightarrow> vm_class \<Rightarrow> nat" where
  "memory_for vm cls = (case Option.bind (vs_hardware_override (vm_spec vm)) ho_memory_mib of
     Some n \<Rightarrow> n | None \<Rightarrow> hs_memory_mib (vcs_hardware (vc_spec cls)))"

definition override_for :: "virtual_machine \<Rightarrow> network_interface_spec \<Rightarrow> static_ipam_config option" where
  "override_for vm nic = map_option nio_static (find (\<lambda>ov. nio_name ov = nis_name nic) (vs_network_overrides (vm_spec vm)))"

definition mapping_for :: "provider \<Rightarrow> network_interface_spec \<Rightarrow> network_class_mapping option" where
  "mapping_for p nic = find (\<lambda>c. ncm_name c = nis_network_class nic) (pcap_network_classes (prs_capabilities (p_spec p)))"

definition ipam_for ::
  "virtual_machine \<Rightarrow> provider \<Rightarrow> string \<Rightarrow> string \<Rightarrow> network_interface_spec \<Rightarrow> ipam_spec" where
  "ipam_for vm p datacenter cluster nic =
     merge_ipam_override (nis_ipam nic) (override_for vm nic)
       (Option.bind (mapping_for p nic) (\<lambda>c. subnet_for c datacenter cluster))"

definition resolve_template_ref :: "vm_image \<Rightarrow> string \<Rightarrow> string \<Rightarrow> (string \<times> string option) option" where
  "resolve_template_ref img provider_name failure_domain_name =
     Option.bind (vmi_status img) (\<lambda>s.
       Option.bind (find (\<lambda>p. ipp_provider_name p = provider_name) (vist_per_provider s)) (\<lambda>row.
         case find (\<lambda>z. zis_name z = failure_domain_name) (ipp_zones row) of
           Some zone \<Rightarrow> map_option (\<lambda>name. (name, zis_template_folder zone)) (zis_resolved_ref zone)
         | None \<Rightarrow> map_option (\<lambda>r. (r, None)) (ipp_resolved_ref row)))"

definition bare_template_name :: "string \<Rightarrow> string" where
  "bare_template_name resolved_ref =
     (case resolved_ref of
        c # cs \<Rightarrow> if c = CHR ''['' then (case split_once_str ''] '' cs of Some (_, name) \<Rightarrow> name | None \<Rightarrow> resolved_ref)
                  else resolved_ref
      | [] \<Rightarrow> resolved_ref)"

definition missing_image_ref :: "vm_image \<Rightarrow> decision \<Rightarrow> infra_build_error" where
  "missing_image_ref img d =
     MissingResolvedImageRef (name_any (vmi_meta img)) (d_provider_name d) (d_failure_domain_name d)"

definition install_mode_of :: "vm_image \<Rightarrow> install_mode" where
  "install_mode_of img = (case vi_template (vmi_spec img) of Some t \<Rightarrow> vit_install_mode t | None \<Rightarrow> Immediate)"


subsection \<open>The four builders\<close>

definition build_vsphere_machine ::
  "virtual_machine \<Rightarrow> vm_class \<Rightarrow> vm_image \<Rightarrow> decision \<Rightarrow> provider \<Rightarrow> string option
     \<Rightarrow> (infra_build_error, vsphere_machine) result" where
  "build_vsphere_machine vm cls img d p user_data =
     (case map_of (d_failure_domain_raw d) FD_RAW_VSPHERE_DATACENTER of
        None \<Rightarrow> Inl (MissingFdRaw (d_failure_domain_name d) FD_RAW_VSPHERE_DATACENTER)
      | Some datacenter \<Rightarrow>
     (case map_of (d_failure_domain_raw d) FD_RAW_VSPHERE_CLUSTER of
        None \<Rightarrow> Inl (MissingFdRaw (d_failure_domain_name d) FD_RAW_VSPHERE_CLUSTER)
      | Some cluster \<Rightarrow>
     (case d_resolved_storage d of
        [] \<Rightarrow> Inl (UnresolvedClass ''(no disks)'')
      | os_storage # _ \<Rightarrow>
     (case resolve_template_ref img (d_provider_name d) (d_failure_domain_name d) of
        None \<Rightarrow> Inl (missing_image_ref img d)
      | Some (template, template_folder) \<Rightarrow>
          Inr \<lparr>vsm_meta = infra_meta vm,
            vsm_spec = \<lparr>vms_provider_id = None, vms_failure_domain = Some (d_failure_domain_name d),
              vms_provider_ref = \<lparr>lor_name = d_provider_name d\<rparr>, vms_template = bare_template_name template,
              vms_template_folder = template_folder, vms_datacenter = datacenter, vms_cluster = cluster,
              vms_datastore = rr_backend_id os_storage,
              vms_folder = option_or (vs_folder (vm_spec vm)) template_folder, vms_resource_pool = None,
              vms_num_cpus = cpus_for vm cls, vms_memory_mib = memory_for vm cls,
              vms_firmware = vcs_firmware (vc_spec cls), vms_tpm_enabled = vcs_tpm_enabled (vc_spec cls),
              vms_disks = map (\<lambda>disk. \<lparr>vsd_name = ds_name disk,
                  vsd_size_gib = merge_disk_size_override disk (vs_hardware_override (vm_spec vm)),
                  vsd_provisioning = ds_provisioning disk\<rparr>) (hs_disks (vcs_hardware (vc_spec cls))),
              vms_network = map (\<lambda>(nic, resolved). \<lparr>vsn_name = nis_name nic, vsn_port_group = rr_backend_id resolved,
                  vsn_mac_address = None, vsn_ipam = ipam_for vm p datacenter cluster nic\<rparr>)
                (zip (ns_interfaces (vcs_network (vc_spec cls))) (d_resolved_networks d)),
              vms_user_data = user_data, vms_desired_power_state = vs_desired_power_state (vm_spec vm),
              vms_created_by = map_of (meta_annotations (vm_meta vm)) ANNOTATION_CREATED_BY,
              vms_first_boot_sealing = first_boot_sealing_for cls img\<rparr>,
            vsm_status = None\<rparr>))))"

definition domain_name_for :: "virtual_machine \<Rightarrow> string" where
  "domain_name_for vm = (case om_namespace (vm_meta vm) of
     Some ns \<Rightarrow> ns @ ''-'' @ name_any (vm_meta vm) | None \<Rightarrow> name_any (vm_meta vm))"

definition boot_source_kind :: "vm_image \<Rightarrow> libvirt_boot_source_kind" where
  "boot_source_kind img = (case install_mode_of img of Immediate \<Rightarrow> BackingVolume | _ \<Rightarrow> InstallMedia)"

definition nic_source_kind :: "network_class_mapping option \<Rightarrow> libvirt_nic_source_kind" where
  "nic_source_kind mapping =
     (case Option.bind mapping (\<lambda>m. network_target_for m '''' '''') of
        Some t \<Rightarrow> if map_of t TARGET_KEY_LIBVIRT_BRIDGE \<noteq> None then Bridge
                  else if map_of t TARGET_KEY_LIBVIRT_NETWORK \<noteq> None then Network else Network
      | None \<Rightarrow> Network)"

definition build_libvirt_machine ::
  "virtual_machine \<Rightarrow> vm_class \<Rightarrow> vm_image \<Rightarrow> decision \<Rightarrow> provider \<Rightarrow> string option
     \<Rightarrow> (infra_build_error, libvirt_machine) result" where
  "build_libvirt_machine vm cls img d p user_data =
     (case d_resolved_storage d of
        [] \<Rightarrow> Inl (UnresolvedClass ''(no disks)'')
      | os_storage # _ \<Rightarrow>
     (case resolve_template_ref img (d_provider_name d) (d_failure_domain_name d) of
        None \<Rightarrow> Inl (missing_image_ref img d)
      | Some (volume, _) \<Rightarrow>
          Inr \<lparr>lm_meta = infra_meta vm,
            lm_spec = \<lparr>lms_provider_id = None, lms_failure_domain = Some (d_failure_domain_name d),
              lms_provider_ref = \<lparr>lor_name = d_provider_name d\<rparr>, lms_pool = rr_backend_id os_storage,
              lms_domain_name = domain_name_for vm,
              lms_boot_source = \<lparr>lbs_kind = boot_source_kind img, lbs_volume = volume\<rparr>,
              lms_vcpus = cpus_for vm cls, lms_memory_mib = memory_for vm cls,
              lms_firmware = vcs_firmware (vc_spec cls), lms_machine_type = None,
              lms_tpm_enabled = vcs_tpm_enabled (vc_spec cls),
              lms_disks = map (\<lambda>disk. \<lparr>lds_name = ds_name disk,
                  lds_size_gib = merge_disk_size_override disk (vs_hardware_override (vm_spec vm)),
                  lds_bus = Virtio\<rparr>) (hs_disks (vcs_hardware (vc_spec cls))),
              lms_network = map (\<lambda>(nic, resolved). \<lparr>lnc_name = nis_name nic,
                  lnc_source = \<lparr>lns_kind = nic_source_kind (mapping_for p nic), lns_name = rr_backend_id resolved\<rparr>,
                  lnc_model = None, lnc_mac_address = None, lnc_ipam = ipam_for vm p '''' '''' nic\<rparr>)
                (zip (ns_interfaces (vcs_network (vc_spec cls))) (d_resolved_networks d)),
              lms_user_data = user_data, lms_desired_power_state = vs_desired_power_state (vm_spec vm),
              lms_first_boot_sealing = first_boot_sealing_for cls img\<rparr>,
            lm_status = None\<rparr>))"

definition ch_boot_source_kind_of :: "vm_image \<Rightarrow> ch_boot_source_kind" where
  "ch_boot_source_kind_of img = (case install_mode_of img of Immediate \<Rightarrow> ChImage | _ \<Rightarrow> ChInstallMedia)"

definition build_cloud_hypervisor_machine ::
  "virtual_machine \<Rightarrow> vm_class \<Rightarrow> vm_image \<Rightarrow> decision \<Rightarrow> provider \<Rightarrow> string option
     \<Rightarrow> (infra_build_error, cloud_hypervisor_machine) result" where
  "build_cloud_hypervisor_machine vm cls img d p user_data =
     (case hs_disks (vcs_hardware (vc_spec cls)) of
        [] \<Rightarrow> Inl (UnresolvedClass ''(no disks)'')
      | os_disk # extra \<Rightarrow>
     if extra \<noteq> []
     then Inl (Unsupported PROVIDER_CLASS_CLOUD_HYPERVISOR (''data disks (class '' @ name_any (vc_meta cls) @ '' declares ''
         @ show_nat (length (hs_disks (vcs_hardware (vc_spec cls)))) @ '')''))
     else
     (case d_resolved_storage d of
        [] \<Rightarrow> Inl (UnresolvedClass (ds_storage_class os_disk))
      | os_storage # _ \<Rightarrow>
     (case resolve_template_ref img (d_provider_name d) (d_failure_domain_name d) of
        None \<Rightarrow> Inl (missing_image_ref img d)
      | Some (image_ref, _) \<Rightarrow>
          Inr \<lparr>chm_meta = infra_meta vm,
            chm_spec = \<lparr>cms_provider_id = None, cms_failure_domain = Some (d_failure_domain_name d),
              cms_provider_ref = \<lparr>lor_name = d_provider_name d\<rparr>,
              cms_cpus = \<lparr>ccp_boot = cpus_for vm cls, ccp_max = None\<rparr>,
              cms_memory = \<lparr>cme_size_mib = memory_for vm cls, cme_hugepages = False\<rparr>,
              cms_storage_class = rr_backend_id os_storage,
              cms_boot_source = \<lparr>cbo_kind = ch_boot_source_kind_of img, cbo_image = image_ref\<rparr>,
              cms_os_disk_size_gib = merge_disk_size_override os_disk (vs_hardware_override (vm_spec vm)),
              cms_nics = map (\<lambda>(nic, resolved). \<lparr>cni_name = nis_name nic, cni_network_class = rr_backend_id resolved,
                  cni_mac_address = None, cni_ipam = ipam_for vm p '''' '''' nic\<rparr>)
                (zip (ns_interfaces (vcs_network (vc_spec cls))) (d_resolved_networks d)),
              cms_tpm_enabled = vcs_tpm_enabled (vc_spec cls), cms_user_data = user_data,
              cms_desired_power_state = vs_desired_power_state (vm_spec vm),
              cms_first_boot_sealing = first_boot_sealing_for cls img\<rparr>,
            chm_status = None\<rparr>)))"

text \<open>One interface of the Proxmox builder, and the \<^verbatim>\<open>collect\<close> that stops at the first error.\<close>

definition proxmox_nic ::
  "virtual_machine \<Rightarrow> provider \<Rightarrow> network_interface_spec \<times> resolved_resource \<Rightarrow> (infra_build_error, proxmox_nic_spec) result" where
  "proxmox_nic vm p = (\<lambda>(nic, resolved).
     let target = Option.bind (mapping_for p nic) (\<lambda>m. network_target_for m '''' '''');
         bridge = (case Option.bind target (\<lambda>t. map_of t TARGET_KEY_PROXMOX_BRIDGE) of
           Some b \<Rightarrow> b | None \<Rightarrow> rr_backend_id resolved);
         built = (\<lambda>vlan. \<lparr>pni_name = nis_name nic, pni_bridge = bridge, pni_vlan = vlan, pni_model = PveVirtio,
           pni_mac_address = None, pni_ipam = ipam_for vm p '''' '''' nic\<rparr>)
     in case Option.bind target (\<lambda>t. map_of t TARGET_KEY_PROXMOX_VLAN) of
          None \<Rightarrow> Inr (built None)
        | Some v \<Rightarrow> (case parse_u16 v of
            Inl _ \<Rightarrow> Inl (InvalidVlan (nis_network_class nic) v) | Inr n \<Rightarrow> Inr (built (Some n))))"

fun collect_results :: "('a \<Rightarrow> ('e, 'b) result) \<Rightarrow> 'a list \<Rightarrow> ('e, 'b list) result" where
  "collect_results f [] = Inr []"
| "collect_results f (x # xs) =
     (case f x of Inl e \<Rightarrow> Inl e
      | Inr y \<Rightarrow> (case collect_results f xs of Inl e \<Rightarrow> Inl e | Inr ys \<Rightarrow> Inr (y # ys)))"

definition seed_storage :: "provider \<Rightarrow> (infra_build_error, string) result" where
  "seed_storage p =
     (case Option.bind (find (\<lambda>c. scm_name c = PROXMOX_SEED_STORAGE_CLASS) (pcap_storage_classes (prs_capabilities (p_spec p))))
        (\<lambda>c. Option.bind (storage_target_for c '''' '''') (\<lambda>t. map_of t TARGET_KEY_PROXMOX_STORAGE)) of
        Some s \<Rightarrow> Inr s | None \<Rightarrow> Inl (UnresolvedClass PROXMOX_SEED_STORAGE_CLASS))"

definition proxmox_data_disks :: "virtual_machine \<Rightarrow> string \<Rightarrow> disk_spec list \<Rightarrow> resolved_resource list \<Rightarrow> proxmox_data_disk list" where
  "proxmox_data_disks vm storage disks resolved =
     map (\<lambda>(disk, r). \<lparr>pdd_name = ds_name disk,
         pdd_size_gib = merge_disk_size_override disk (vs_hardware_override (vm_spec vm)),
         pdd_storage = (if rr_backend_id r \<noteq> storage then Some (rr_backend_id r) else None),
         pdd_iothread = False, pdd_discard = False, pdd_ssd = False\<rparr>) (drop 1 (zip disks resolved))"

definition build_proxmox_machine ::
  "virtual_machine \<Rightarrow> vm_class \<Rightarrow> vm_image \<Rightarrow> decision \<Rightarrow> provider \<Rightarrow> string option
     \<Rightarrow> (infra_build_error, proxmox_machine) result" where
  "build_proxmox_machine vm cls img d p user_data =
     (case map_of (d_failure_domain_raw d) FD_RAW_PROXMOX_NODE of
        None \<Rightarrow> Inl (MissingFdRaw (d_failure_domain_name d) FD_RAW_PROXMOX_NODE)
      | Some node \<Rightarrow>
     (case hs_disks (vcs_hardware (vc_spec cls)) of
        [] \<Rightarrow> Inl (UnresolvedClass ''(no disks)'')
      | os_disk # extra \<Rightarrow>
     (case d_resolved_storage d of
        [] \<Rightarrow> Inl (UnresolvedClass (ds_storage_class os_disk))
      | os_storage # _ \<Rightarrow>
     (case resolve_template_ref img (d_provider_name d) (d_failure_domain_name d) of
        None \<Rightarrow> Inl (missing_image_ref img d)
      | Some (resolved_ref, _) \<Rightarrow>
     (case parse_u32 resolved_ref of
        Inl _ \<Rightarrow> Inl (InvalidTemplateVmid (name_any (vmi_meta img)) resolved_ref)
      | Inr template_vmid \<Rightarrow>
     let storage = rr_backend_id os_storage; disks = os_disk # extra;
         data_disks = proxmox_data_disks vm storage disks (d_resolved_storage d)
     in if length data_disks + 1 < length disks
        then Inl (UnresolvedClass (ds_storage_class (disks ! length (d_resolved_storage d))))
        else
     (case collect_results (proxmox_nic vm p) (zip (ns_interfaces (vcs_network (vc_spec cls))) (d_resolved_networks d)) of
        Inl e \<Rightarrow> Inl e
      | Inr nics \<Rightarrow>
     (case (case user_data of None \<Rightarrow> Inr None | Some _ \<Rightarrow> map_sum id Some (seed_storage p)) of
        Inl e \<Rightarrow> Inl e
      | Inr iso_storage \<Rightarrow>
     let spec = \<lparr>pms_provider_id = None, pms_failure_domain = Some (d_failure_domain_name d),
           pms_provider_ref = \<lparr>lor_name = d_provider_name d\<rparr>, pms_node = node, pms_template_vmid = template_vmid,
           pms_storage = storage, pms_pool = None, pms_cores = cpus_for vm cls, pms_sockets = PROXMOX_SOCKETS,
           pms_memory_mib = memory_for vm cls, pms_cpu_type = None, pms_firmware = vcs_firmware (vc_spec cls),
           pms_tpm_enabled = vcs_tpm_enabled (vc_spec cls),
           pms_os_disk_size_gib = merge_disk_size_override os_disk (vs_hardware_override (vm_spec vm)),
           pms_data_disks = data_disks, pms_nics = nics, pms_iso_storage = iso_storage, pms_user_data = user_data,
           pms_desired_power_state = vs_desired_power_state (vm_spec vm)\<rparr>
     in case proxmox_validate spec of
          Inl e \<Rightarrow> Inl (InvalidSpec (proxmox_spec_error_text e))
        | Inr _ \<Rightarrow> Inr \<lparr>pm_meta = infra_meta vm, pm_spec = spec, pm_status = None\<rparr>)))))))"


subsection \<open>What the builders have in common\<close>

text \<open>The interfaces of a class with what the scheduler resolved for them, and the name and address plan of each.\<close>

abbreviation interfaces_of :: "vm_class \<Rightarrow> network_interface_spec list" where
  "interfaces_of cls \<equiv> ns_interfaces (vcs_network (vc_spec cls))"

abbreviation disks_of :: "vm_class \<Rightarrow> disk_spec list" where
  "disks_of cls \<equiv> hs_disks (vcs_hardware (vc_spec cls))"

definition planned_nics ::
  "virtual_machine \<Rightarrow> vm_class \<Rightarrow> provider \<Rightarrow> string \<Rightarrow> string \<Rightarrow> decision \<Rightarrow> (string \<times> ipam_spec) list" where
  "planned_nics vm cls p datacenter cluster d =
     map (\<lambda>(nic, _). (nis_name nic, ipam_for vm p datacenter cluster nic)) (zip (interfaces_of cls) (d_resolved_networks d))"

definition vsphere_nics :: "vsphere_machine \<Rightarrow> (string \<times> ipam_spec) list" where
  "vsphere_nics m = map (\<lambda>n. (vsn_name n, vsn_ipam n)) (vms_network (vsm_spec m))"

definition libvirt_nics :: "libvirt_machine \<Rightarrow> (string \<times> ipam_spec) list" where
  "libvirt_nics m = map (\<lambda>n. (lnc_name n, lnc_ipam n)) (lms_network (lm_spec m))"

definition cloud_hypervisor_nics :: "cloud_hypervisor_machine \<Rightarrow> (string \<times> ipam_spec) list" where
  "cloud_hypervisor_nics m = map (\<lambda>n. (cni_name n, cni_ipam n)) (cms_nics (chm_spec m))"

definition proxmox_nics :: "proxmox_machine \<Rightarrow> (string \<times> ipam_spec) list" where
  "proxmox_nics m = map (\<lambda>n. (pni_name n, pni_ipam n)) (pms_nics (pm_spec m))"

lemma collect_results_Inr: "collect_results f xs = Inr ys \<Longrightarrow> list_all2 (\<lambda>x y. f x = Inr y) xs ys"
  by (induction xs arbitrary: ys) (auto split: sum.splits)

lemma proxmox_nic_plan:
  "proxmox_nic vm p x = Inr n \<Longrightarrow> (pni_name n, pni_ipam n) = (nis_name (fst x), ipam_for vm p '''' '''' (fst x))"
  by (cases x) (auto simp: proxmox_nic_def Let_def split: option.splits sum.splits)

lemma collect_proxmox_nics:
  assumes "collect_results (proxmox_nic vm p) xs = Inr nics"
  shows "map (\<lambda>n. (pni_name n, pni_ipam n)) nics = map (\<lambda>x. (nis_name (fst x), ipam_for vm p '''' '''' (fst x))) xs"
  using collect_results_Inr [OF assms] proxmox_nic_plan by (induction rule: list_all2_induct) (simp, fastforce)

lemma build_vsphere_facts:
  assumes "build_vsphere_machine vm cls img d p ud = Inr m"
  obtains datacenter cluster os_storage where
    "map_of (d_failure_domain_raw d) FD_RAW_VSPHERE_DATACENTER = Some datacenter"
    "map_of (d_failure_domain_raw d) FD_RAW_VSPHERE_CLUSTER = Some cluster"
    "vsm_meta m = infra_meta vm" "vms_num_cpus (vsm_spec m) = cpus_for vm cls" "vms_memory_mib (vsm_spec m) = memory_for vm cls"
    "vms_desired_power_state (vsm_spec m) = vs_desired_power_state (vm_spec vm)" "vms_user_data (vsm_spec m) = ud"
    "vms_tpm_enabled (vsm_spec m) = vcs_tpm_enabled (vc_spec cls)" "vms_firmware (vsm_spec m) = vcs_firmware (vc_spec cls)"
    "vms_provider_ref (vsm_spec m) = \<lparr>lor_name = d_provider_name d\<rparr>"
    "map (\<lambda>x. (vsd_name x, vsd_size_gib x)) (vms_disks (vsm_spec m))
      = map (\<lambda>x. (ds_name x, merge_disk_size_override x (vs_hardware_override (vm_spec vm)))) (disks_of cls)"
    "vsphere_nics m = planned_nics vm cls p datacenter cluster d"
    "map vsn_port_group (vms_network (vsm_spec m)) = map (\<lambda>x. rr_backend_id (snd x)) (zip (interfaces_of cls) (d_resolved_networks d))"
  using assms unfolding build_vsphere_machine_def
  by (auto simp: vsphere_nics_def planned_nics_def case_prod_unfold o_def split: option.splits list.splits)

lemma build_libvirt_facts:
  assumes "build_libvirt_machine vm cls img d p ud = Inr m"
  shows "lm_meta m = infra_meta vm" "lms_vcpus (lm_spec m) = cpus_for vm cls" "lms_memory_mib (lm_spec m) = memory_for vm cls"
    "lms_desired_power_state (lm_spec m) = vs_desired_power_state (vm_spec vm)" "lms_user_data (lm_spec m) = ud"
    "lms_tpm_enabled (lm_spec m) = vcs_tpm_enabled (vc_spec cls)" "lms_firmware (lm_spec m) = vcs_firmware (vc_spec cls)"
    "lms_provider_ref (lm_spec m) = \<lparr>lor_name = d_provider_name d\<rparr>"
    "map (\<lambda>x. (lds_name x, lds_size_gib x)) (lms_disks (lm_spec m))
      = map (\<lambda>x. (ds_name x, merge_disk_size_override x (vs_hardware_override (vm_spec vm)))) (disks_of cls)"
    "libvirt_nics m = planned_nics vm cls p '''' '''' d"
    "map (\<lambda>n. lns_name (lnc_source n)) (lms_network (lm_spec m))
      = map (\<lambda>x. rr_backend_id (snd x)) (zip (interfaces_of cls) (d_resolved_networks d))"
  using assms unfolding build_libvirt_machine_def
  by (auto simp: libvirt_nics_def planned_nics_def case_prod_unfold o_def split: option.splits list.splits)

lemma build_cloud_hypervisor_facts:
  assumes "build_cloud_hypervisor_machine vm cls img d p ud = Inr m"
  shows "chm_meta m = infra_meta vm" "ccp_boot (cms_cpus (chm_spec m)) = cpus_for vm cls"
    "cme_size_mib (cms_memory (chm_spec m)) = memory_for vm cls"
    "cms_desired_power_state (chm_spec m) = vs_desired_power_state (vm_spec vm)" "cms_user_data (chm_spec m) = ud"
    "cms_tpm_enabled (chm_spec m) = vcs_tpm_enabled (vc_spec cls)"
    "cms_provider_ref (chm_spec m) = \<lparr>lor_name = d_provider_name d\<rparr>"
    "[cms_os_disk_size_gib (chm_spec m)] = map (\<lambda>x. merge_disk_size_override x (vs_hardware_override (vm_spec vm))) (disks_of cls)"
    "cloud_hypervisor_nics m = planned_nics vm cls p '''' '''' d"
    "map cni_network_class (cms_nics (chm_spec m)) = map (\<lambda>x. rr_backend_id (snd x)) (zip (interfaces_of cls) (d_resolved_networks d))"
  using assms unfolding build_cloud_hypervisor_machine_def
  by (auto simp: cloud_hypervisor_nics_def planned_nics_def case_prod_unfold o_def split: option.splits list.splits if_splits)

lemma proxmox_data_disks_plan:
  assumes "\<not> length (proxmox_data_disks vm storage (x # xs) rs) + 1 < length (x # xs)" and "rs \<noteq> []"
  shows "map (\<lambda>y. (pdd_name y, pdd_size_gib y)) (proxmox_data_disks vm storage (x # xs) rs)
    = map (\<lambda>y. (ds_name y, merge_disk_size_override y (vs_hardware_override (vm_spec vm)))) xs"
proof -
  obtain r rs' where rs: "rs = r # rs'"
    using assms(2) by (cases rs) auto
  with assms(1) have "length xs \<le> length rs'"
    by (simp add: proxmox_data_disks_def)
  then have "map fst (zip xs rs') = xs"
    by (simp add: map_fst_zip_take)
  then have "map (\<lambda>z. g (fst z)) (zip xs rs') = map g xs" for g :: "disk_spec \<Rightarrow> string \<times> nat"
    by (drule_tac arg_cong [where f = "map g"]) (simp add: o_def)
  then show ?thesis
    by (simp add: proxmox_data_disks_def rs case_prod_unfold o_def)
qed

lemma build_proxmox_facts:
  assumes "build_proxmox_machine vm cls img d p ud = Inr m"
  shows "pm_meta m = infra_meta vm" "pms_cores (pm_spec m) = cpus_for vm cls" "pms_sockets (pm_spec m) = 1"
    "pms_memory_mib (pm_spec m) = memory_for vm cls"
    "pms_desired_power_state (pm_spec m) = vs_desired_power_state (vm_spec vm)" "pms_user_data (pm_spec m) = ud"
    "pms_tpm_enabled (pm_spec m) = vcs_tpm_enabled (vc_spec cls)" "pms_firmware (pm_spec m) = vcs_firmware (vc_spec cls)"
    "pms_provider_ref (pm_spec m) = \<lparr>lor_name = d_provider_name d\<rparr>"
    "pms_os_disk_size_gib (pm_spec m) # map pdd_size_gib (pms_data_disks (pm_spec m))
      = map (\<lambda>x. merge_disk_size_override x (vs_hardware_override (vm_spec vm))) (disks_of cls)"
    "proxmox_nics m = planned_nics vm cls p '''' '''' d"
    "proxmox_validate (pm_spec m) = Inr ()"
proof -
  obtain os_disk extra os_storage storages nics node vmid iso spec where
    eqs: "disks_of cls = os_disk # extra" "d_resolved_storage d = os_storage # storages"
      "\<not> length (proxmox_data_disks vm (rr_backend_id os_storage) (os_disk # extra) (d_resolved_storage d)) + 1 < length (os_disk # extra)"
      "collect_results (proxmox_nic vm p) (zip (interfaces_of cls) (d_resolved_networks d)) = Inr nics"
      "m = \<lparr>pm_meta = infra_meta vm, pm_spec = spec, pm_status = None\<rparr>" "proxmox_validate spec = Inr ()"
    and spec: "spec = \<lparr>pms_provider_id = None, pms_failure_domain = Some (d_failure_domain_name d),
           pms_provider_ref = \<lparr>lor_name = d_provider_name d\<rparr>, pms_node = node, pms_template_vmid = vmid,
           pms_storage = rr_backend_id os_storage, pms_pool = None, pms_cores = cpus_for vm cls, pms_sockets = PROXMOX_SOCKETS,
           pms_memory_mib = memory_for vm cls, pms_cpu_type = None, pms_firmware = vcs_firmware (vc_spec cls),
           pms_tpm_enabled = vcs_tpm_enabled (vc_spec cls),
           pms_os_disk_size_gib = merge_disk_size_override os_disk (vs_hardware_override (vm_spec vm)),
           pms_data_disks = proxmox_data_disks vm (rr_backend_id os_storage) (os_disk # extra) (d_resolved_storage d),
           pms_nics = nics, pms_iso_storage = iso, pms_user_data = ud,
           pms_desired_power_state = vs_desired_power_state (vm_spec vm)\<rparr>"
    using assms unfolding build_proxmox_machine_def Let_def
    by (auto split: option.splits list.splits sum.splits if_splits)
  show "pm_meta m = infra_meta vm" "pms_cores (pm_spec m) = cpus_for vm cls" "pms_sockets (pm_spec m) = 1"
    "pms_memory_mib (pm_spec m) = memory_for vm cls"
    "pms_desired_power_state (pm_spec m) = vs_desired_power_state (vm_spec vm)" "pms_user_data (pm_spec m) = ud"
    "pms_tpm_enabled (pm_spec m) = vcs_tpm_enabled (vc_spec cls)" "pms_firmware (pm_spec m) = vcs_firmware (vc_spec cls)"
    "pms_provider_ref (pm_spec m) = \<lparr>lor_name = d_provider_name d\<rparr>" "proxmox_validate (pm_spec m) = Inr ()"
    using eqs(5,6) by (simp_all add: spec PROXMOX_SOCKETS_def)
  have "map pdd_size_gib (proxmox_data_disks vm (rr_backend_id os_storage) (os_disk # extra) (d_resolved_storage d))
      = map (\<lambda>x. merge_disk_size_override x (vs_hardware_override (vm_spec vm))) extra"
    using arg_cong [OF proxmox_data_disks_plan [OF eqs(3)], of "map snd"] by (simp add: eqs(2) o_def)
  then show "pms_os_disk_size_gib (pm_spec m) # map pdd_size_gib (pms_data_disks (pm_spec m))
      = map (\<lambda>x. merge_disk_size_override x (vs_hardware_override (vm_spec vm))) (disks_of cls)"
    using eqs(1,5) by (simp add: spec)
  show "proxmox_nics m = planned_nics vm cls p '''' '''' d"
    using collect_proxmox_nics [OF eqs(4)] eqs(5)
    by (simp add: spec proxmox_nics_def planned_nics_def case_prod_unfold)
qed



subsection \<open>No interface is lost\<close>

lemma schedule_build_decision:
  "schedule vm cls img providers existing classes = Inr d \<Longrightarrow> \<exists>p fd. d = build_decision cls p fd"
  using schedule_pairs [where vm = vm and existing = existing and cls = cls and img = img and providers = providers and classes = classes] by (auto split: option.splits)

lemma resolved_networks_decision:
  "d_resolved_networks (build_decision cls p fd) = map (\<lambda>nic. \<lparr>rr_class_name = nis_network_class nic,
     rr_backend_id = (case first_network_target (prs_capabilities (p_spec p)) (nis_network_class nic)
         (get_or '''' (fda_raw (fd_attributes fd)) ''datacenter'') (get_or '''' (fda_raw (fd_attributes fd)) ''cluster'') of
       Some v \<Rightarrow> v | None \<Rightarrow> nis_network_class nic)\<rparr>) (interfaces_of cls)"
  by (simp add: build_decision_def Let_def)

lemma scheduled_networks:
  assumes "schedule vm cls img providers existing classes = Inr d"
  shows "length (d_resolved_networks d) = length (interfaces_of cls)"
    and "map rr_class_name (d_resolved_networks d) = map nis_network_class (interfaces_of cls)"
  using schedule_build_decision [OF assms] by (auto simp: resolved_networks_decision)

lemma zip_map_fst: "length xs = length ys \<Longrightarrow> map (\<lambda>x. f (fst x)) (zip xs ys) = map f xs"
  by (induction xs ys rule: list_induct2) simp_all

lemma zip_map_snd: "length xs = length ys \<Longrightarrow> map (\<lambda>x. f (snd x)) (zip xs ys) = map f ys"
  by (induction xs ys rule: list_induct2) simp_all

lemma planned_nics_names:
  "length (d_resolved_networks d) = length (interfaces_of cls)
   \<Longrightarrow> map fst (planned_nics vm cls p dc c d) = map nis_name (interfaces_of cls)"
  by (simp add: planned_nics_def case_prod_unfold o_def zip_map_fst)

text \<open>
  A machine built from a scheduling decision has one interface for each interface of its class, in
  the class's order, and (on the three backends that attach by it) each is attached to the backend identifier
  that the scheduler resolved for that interface's network class.
\<close>

theorem scheduled_machine_has_every_interface:
  assumes "schedule vm cls img providers existing classes = Inr d"
  shows "map rr_class_name (d_resolved_networks d) = map nis_network_class (interfaces_of cls)
    \<and> (\<forall>v. build_vsphere_machine vm cls img d p ud = Inr v \<longrightarrow> map fst (vsphere_nics v) = map nis_name (interfaces_of cls)
      \<and> map vsn_port_group (vms_network (vsm_spec v)) = map rr_backend_id (d_resolved_networks d))
    \<and> (\<forall>l. build_libvirt_machine vm cls img d p ud = Inr l \<longrightarrow> map fst (libvirt_nics l) = map nis_name (interfaces_of cls)
      \<and> map (\<lambda>n. lns_name (lnc_source n)) (lms_network (lm_spec l)) = map rr_backend_id (d_resolved_networks d))
    \<and> (\<forall>c. build_cloud_hypervisor_machine vm cls img d p ud = Inr c \<longrightarrow> map fst (cloud_hypervisor_nics c) = map nis_name (interfaces_of cls)
      \<and> map cni_network_class (cms_nics (chm_spec c)) = map rr_backend_id (d_resolved_networks d))
    \<and> (\<forall>x. build_proxmox_machine vm cls img d p ud = Inr x \<longrightarrow> map fst (proxmox_nics x) = map nis_name (interfaces_of cls))"
proof -
  note len = scheduled_networks(1) [OF assms]
  have "map fst (vsphere_nics v) = map nis_name (interfaces_of cls)
      \<and> map vsn_port_group (vms_network (vsm_spec v)) = map rr_backend_id (d_resolved_networks d)"
    if "build_vsphere_machine vm cls img d p ud = Inr v" for v
    by (rule build_vsphere_facts [OF that]) (simp add: planned_nics_names len zip_map_snd)
  then show ?thesis
    by (simp add: scheduled_networks(2) [OF assms] build_libvirt_facts build_cloud_hypervisor_facts build_proxmox_facts
        planned_nics_names len zip_map_snd)
qed

subsection \<open>Built addresses are held addresses\<close>

lemma findD: "find P xs = Some x \<Longrightarrow> x \<in> set xs \<and> P x"
  by (auto simp: find_Some_iff)

lemma ipam_for_static:
  assumes "is_static (ipam_for vm p dc c nic) = Some s"
  obtains ov where "ov \<in> set (vs_network_overrides (vm_spec vm))" "nio_name ov = nis_name nic"
    "sic_address s = sic_address (nio_static ov)"
  using assms by (auto simp: ipam_for_def merge_ipam_override_def override_for_def dest!: findD split: option.splits)

lemma override_held:
  assumes "ov \<in> set (vs_network_overrides (vm_spec vm))" and "nic \<in> set (interfaces_of cls)" and "nio_name ov = nis_name nic"
    and "distinct (map nis_name (interfaces_of cls))"
  shows "\<exists>h \<in> set (held_addresses_of vm cls). ha_interface h = nis_name nic \<and> ha_network_class h = nis_network_class nic
    \<and> ha_address h = normalize_address (sic_address (nio_static ov))"
proof -
  have "find (\<lambda>n. nis_name n = nio_name ov) (interfaces_of cls) = Some nic"
  proof -
    obtain n where n: "find (\<lambda>n. nis_name n = nio_name ov) (interfaces_of cls) = Some n"
      using assms(2,3) by (metis (mono_tags, lifting) find_None_iff not_Some_eq)
    then have "n \<in> set (interfaces_of cls)" "nis_name n = nis_name nic"
      using assms(3) by (auto simp: find_Some_iff)
    then show ?thesis
      using n assms(2) distinct_keys_eq [OF assms(4)] by blast
  qed
  then have "\<lparr>ac_interface = nio_name ov, ac_network_class = Some (nis_network_class nic),
      ac_address = normalize_address (sic_address (nio_static ov))\<rparr> \<in> set (declared_claims vm (Some cls))"
    using assms(1) unfolding declared_claims_def List.map_filter_def
    by (force simp: declared_claim_def)
  then show ?thesis
    using assms(3) unfolding held_addresses_of_def by force
qed

lemma planned_static_held:
  assumes "(name, ipam) \<in> set (planned_nics vm cls p dc c d)" and "is_static ipam = Some s"
    and "distinct (map nis_name (interfaces_of cls))"
  shows "\<exists>nic \<in> set (interfaces_of cls). \<exists>h \<in> set (held_addresses_of vm cls). nis_name nic = name \<and> ha_interface h = name
    \<and> ha_network_class h = nis_network_class nic \<and> ha_address h = normalize_address (sic_address s)"
proof -
  obtain nic where nic: "nic \<in> set (interfaces_of cls)" "name = nis_name nic" "ipam = ipam_for vm p dc c nic"
    using assms(1) by (auto simp: planned_nics_def dest: set_zip_leftD)
  obtain ov where ov: "ov \<in> set (vs_network_overrides (vm_spec vm))" "nio_name ov = nis_name nic"
    "sic_address s = sic_address (nio_static ov)"
    using ipam_for_static assms(2) nic(3) by metis
  show ?thesis
    using override_held [OF ov(1) nic(1) ov(2) assms(3)] nic ov(3) by metis
qed

text \<open>
  (C21) Every static address that a built machine is configured with, on any backend, is among the addresses
  that the controller records as held, under the same interface and that interface's network class.  Together
  with the admission of machines this is what keeps two guests from being configured with one address.
\<close>

theorem built_static_addresses_are_held:
  assumes "distinct (map nis_name (interfaces_of cls))"
    and "(\<exists>m. build_vsphere_machine vm cls img d p ud = Inr m \<and> nics = vsphere_nics m)
      \<or> (\<exists>m. build_libvirt_machine vm cls img d p ud = Inr m \<and> nics = libvirt_nics m)
      \<or> (\<exists>m. build_cloud_hypervisor_machine vm cls img d p ud = Inr m \<and> nics = cloud_hypervisor_nics m)
      \<or> (\<exists>m. build_proxmox_machine vm cls img d p ud = Inr m \<and> nics = proxmox_nics m)"
    and "(name, ipam) \<in> set nics" and "is_static ipam = Some s"
  shows "\<exists>nic \<in> set (interfaces_of cls). \<exists>h \<in> set (held_addresses_of vm cls). nis_name nic = name \<and> ha_interface h = name
    \<and> ha_network_class h = nis_network_class nic \<and> ha_address h = normalize_address (sic_address s)"
proof -
  obtain dc c where "nics = planned_nics vm cls p dc c d"
    using assms(2) build_vsphere_facts [of vm cls img d p ud] build_libvirt_facts(10) build_cloud_hypervisor_facts(9)
      build_proxmox_facts(11) by metis
  with planned_static_held assms(1,3,4) show ?thesis
    by blast
qed

subsection \<open>Examples\<close>

lemma not_isl: "\<not> isl x \<Longrightarrow> \<exists>y. x = Inr y"
  by (cases x) auto

text \<open>Inputs that every backend accepts.\<close>

definition wired_class :: vm_class where
  "wired_class = lan_class\<lparr>vc_spec := (vc_spec lan_class)\<lparr>vcs_hardware := \<lparr>hs_cpus = 2, hs_memory_mib = 1024,
     hs_disks = [\<lparr>ds_name = ''os'', ds_size_gib = 20, ds_storage_class = ''fast'', ds_provisioning = Thin\<rparr>]\<rparr>\<rparr>\<rparr>"

definition everywhere_image :: vm_image where
  "everywhere_image = demo_image\<lparr>vmi_status := map_option (\<lambda>s. s\<lparr>vist_per_provider :=
     map (\<lambda>r. r\<lparr>ipp_resolved_ref := Some ''100''\<rparr>) (vist_per_provider s)\<rparr>) (vmi_status demo_image)\<rparr>"

definition everywhere_domain :: failure_domain where
  "everywhere_domain = (demo_domain ''z1'' [] [] None)\<lparr>fd_attributes := (fd_attributes (demo_domain ''z1'' [] [] None))
     \<lparr>fda_raw := [(''cluster'', ''c1''), (''datacenter'', ''d1''), (''node'', ''n1'')],
      fda_available_storage_classes := [''fast''], fda_available_network_classes := [''lan'']\<rparr>\<rparr>"

definition everywhere_decision :: decision where
  "everywhere_decision = build_decision wired_class (demo_provider [everywhere_domain]) everywhere_domain"


theorem scheduled_machine_has_every_interface_witness:
  "let vm = static_vm ''a'' 1 [''192.0.2.1''] []; p = demo_provider [everywhere_domain]
   in \<exists>d v. schedule vm wired_class everywhere_image [p] [] [wired_class] = Inr d
     \<and> build_vsphere_machine vm wired_class everywhere_image d p None = Inr v \<and> map fst (vsphere_nics v) = [''eth0'']"
proof -
  let ?vm = "static_vm ''a'' 1 [''192.0.2.1''] []" and ?p = "demo_provider [everywhere_domain]"
  have "schedule ?vm wired_class everywhere_image [?p] [] [wired_class] = Inr everywhere_decision"
    by code_simp
  moreover have "\<not> isl (build_vsphere_machine ?vm wired_class everywhere_image everywhere_decision ?p None)"
    by code_simp
  moreover from not_isl [OF this] obtain v
    where "build_vsphere_machine ?vm wired_class everywhere_image everywhere_decision ?p None = Inr v"
    by blast
  moreover have "map nis_name (interfaces_of wired_class) = [''eth0'']"
    by code_simp
  ultimately show ?thesis
    using scheduled_machine_has_every_interface [of ?vm wired_class everywhere_image "[?p]" "[]" "[wired_class]"
        everywhere_decision ?p None] by (auto simp: Let_def)
qed

theorem built_static_addresses_are_held_witness:
  "let vm = static_vm ''a'' 1 [''::1''] []; p = demo_provider [everywhere_domain]
   in \<exists>m ipam s. build_libvirt_machine vm wired_class everywhere_image everywhere_decision p None = Inr m
     \<and> (''eth0'', ipam) \<in> set (libvirt_nics m) \<and> is_static ipam = Some s
     \<and> (\<exists>h \<in> set (held_addresses_of vm wired_class). ha_interface h = ''eth0'' \<and> ha_address h = normalize_address (sic_address s))"
proof -
  let ?vm = "static_vm ''a'' 1 [''::1''] []" and ?p = "demo_provider [everywhere_domain]"
  have "\<not> isl (build_libvirt_machine ?vm wired_class everywhere_image everywhere_decision ?p None)"
    by code_simp
  from not_isl [OF this] obtain m where m: "build_libvirt_machine ?vm wired_class everywhere_image everywhere_decision ?p None = Inr m"
    by blast
  have nics: "libvirt_nics m = planned_nics ?vm wired_class ?p '''' '''' everywhere_decision"
    by (rule build_libvirt_facts(10) [OF m])
  have "\<exists>ipam s. (''eth0'', ipam) \<in> set (planned_nics ?vm wired_class ?p '''' '''' everywhere_decision) \<and> is_static ipam = Some s"
    by (intro exI [of _ "ipam_for ?vm ?p '''' '''' (hd (interfaces_of wired_class))"] exI [of _ "nio_static (demo_override ''::1'')"])
      code_simp
  then obtain ipam s where "(''eth0'', ipam) \<in> set (libvirt_nics m)" "is_static ipam = Some s"
    unfolding nics by blast
  moreover have "distinct (map nis_name (interfaces_of wired_class))"
    by code_simp
  ultimately show ?thesis
    using built_static_addresses_are_held [of wired_class ?vm everywhere_image everywhere_decision ?p None "libvirt_nics m" "''eth0''" ipam s] m
    unfolding Let_def by blast
qed

text \<open>
  The name of a libvirt domain does not determine the machine: a machine \<^verbatim>\<open>b-c\<close> in namespace \<^verbatim>\<open>a\<close> and a
  machine \<^verbatim>\<open>c\<close> in namespace \<^verbatim>\<open>a-b\<close> get the same one.
\<close>

definition named_vm :: "string \<Rightarrow> string \<Rightarrow> virtual_machine" where
  "named_vm ns n = (demo_vm n [] [] None)\<lparr>vm_meta := (demo_meta n [])\<lparr>om_namespace := Some ns\<rparr>\<rparr>"

theorem domain_names_collide:
  "key_of (named_vm ''a'' ''b-c'') \<noteq> key_of (named_vm ''a-b'' ''c'')
   \<and> domain_name_for (named_vm ''a'' ''b-c'') = domain_name_for (named_vm ''a-b'' ''c'')"
  by code_simp

text \<open>
  The template is looked up by the provider's name alone: with two providers of that name in two namespaces,
  the machine is built from the row that comes first, whatever namespace the decision names.
\<close>

theorem template_of_other_namespace:
  "resolve_template_ref (img\<lparr>vmi_status := Some (s\<lparr>vist_per_provider := r # rs\<rparr>)\<rparr>) (ipp_provider_name r) fd
   = resolve_template_ref (img\<lparr>vmi_status := Some (s\<lparr>vist_per_provider := r\<lparr>ipp_provider_namespace := ns\<rparr> # rs\<rparr>)\<rparr>)
       (ipp_provider_name r) fd"
  by (simp add: resolve_template_ref_def split: option.split)

text \<open>
  Only the first disk's storage class counts on vSphere and libvirt: what the scheduler resolved for the other
  disks does not appear in the object that is built.
\<close>

theorem data_disk_storage_ignored:
  "build_vsphere_machine vm cls img (d\<lparr>d_resolved_storage := r # rs\<rparr>) p ud
     = build_vsphere_machine vm cls img (d\<lparr>d_resolved_storage := [r]\<rparr>) p ud
   \<and> build_libvirt_machine vm cls img (d\<lparr>d_resolved_storage := r # rs\<rparr>) p ud
     = build_libvirt_machine vm cls img (d\<lparr>d_resolved_storage := [r]\<rparr>) p ud"
  by (simp add: build_vsphere_machine_def build_libvirt_machine_def missing_image_ref_def split: option.split)

end
