(* ===== verification/Guestdata.thy ===== *)
theory Guestdata
  imports Api_Types
begin

section \<open>Placeholders in user data\<close>

text \<open>
  Model of \<^verbatim>\<open>crates/banlieue-provider-sdk/src/guestdata.rs\<close>.  The code replaces seven placeholders one after
  the other; the theorem says what that amounts to for a text read as a sequence of literals, placeholders
  and other \<^verbatim>\<open>${...}\<close> groups.
\<close>

subsection \<open>The code\<close>

record guest_data_context =
  gdc_vm_name :: string
  gdc_static :: "static_ipam_config option"

definition from_static :: "string \<Rightarrow> static_ipam_config option \<Rightarrow> guest_data_context" where
  "from_static vm_name st = \<lparr>gdc_vm_name = vm_name, gdc_static = st\<rparr>"

text \<open>\<^verbatim>\<open>str::replace\<close> for a pattern that is not empty: occurrences from the left, not overlapping.\<close>

fun replace_str :: "nat \<Rightarrow> string \<Rightarrow> string \<Rightarrow> string \<Rightarrow> string" where
  "replace_str 0 pat val s = s"
| "replace_str (Suc n) pat val s =
     (if take (length pat) s = pat then val @ replace_str n pat val (drop (length pat) s)
      else case s of [] \<Rightarrow> [] | c # cs \<Rightarrow> c # replace_str n pat val cs)"

definition str_replace :: "string \<Rightarrow> string \<Rightarrow> string \<Rightarrow> string" where
  "str_replace pat val s = replace_str (Suc (length s)) pat val s"

definition ends_with_str :: "string \<Rightarrow> string \<Rightarrow> bool" where
  "ends_with_str s suffix = (length suffix \<le> length s \<and> drop (length s - length suffix) s = suffix)"

definition fqdn :: "string \<Rightarrow> string \<Rightarrow> string" where
  "fqdn vm_name domain =
     (if domain = [] then vm_name @ ''.''
      else if ends_with_str (to_ascii_lowercase vm_name) (''.'' @ to_ascii_lowercase domain) then vm_name
      else vm_name @ ''.'' @ domain)"

definition gd_domain :: "guest_data_context \<Rightarrow> string" where
  "gd_domain ctx = (case Option.bind (gdc_static ctx) sic_domain of Some d \<Rightarrow> d | None \<Rightarrow> '''')"

definition gd_address :: "guest_data_context \<Rightarrow> string" where
  "gd_address ctx = (case gdc_static ctx of Some s \<Rightarrow> sic_address s | None \<Rightarrow> '''')"

definition gd_prefix :: "guest_data_context \<Rightarrow> string" where
  "gd_prefix ctx = (case gdc_static ctx of Some s \<Rightarrow> show_nat (sic_prefix s) | None \<Rightarrow> '''')"

definition gd_gateway :: "guest_data_context \<Rightarrow> string" where
  "gd_gateway ctx = (case Option.bind (gdc_static ctx) sic_gateway of Some g \<Rightarrow> g | None \<Rightarrow> '''')"

definition gd_dns :: "guest_data_context \<Rightarrow> string" where
  "gd_dns ctx = (case gdc_static ctx of Some s \<Rightarrow> join_with '','' (sic_nameservers s) | None \<Rightarrow> '''')"

definition render_placeholders :: "string \<Rightarrow> guest_data_context \<Rightarrow> string" where
  "render_placeholders raw ctx =
     str_replace ''${DOMAIN}'' (gd_domain ctx)
     (str_replace ''${DNS}'' (gd_dns ctx)
     (str_replace ''${GATEWAY}'' (gd_gateway ctx)
     (str_replace ''${PREFIX}'' (gd_prefix ctx)
     (str_replace ''${IP}'' (gd_address ctx)
     (str_replace ''${FQDN}'' (fqdn (gdc_vm_name ctx) (gd_domain ctx))
     (str_replace ''${VM_NAME}'' (gdc_vm_name ctx) raw))))))"

subsection \<open>Replacing a placeholder\<close>

lemma replace_str_fuel:
  assumes "pat \<noteq> []"
  shows "length s < n \<Longrightarrow> length s < m \<Longrightarrow> replace_str n pat val s = replace_str m pat val s"
proof (induction n arbitrary: s m)
  case (Suc n)
  obtain m' where m: "m = Suc m'"
    using Suc.prems(2) by (cases m) auto
  show ?case
  proof (cases s)
    case Nil
    with assms show ?thesis by (simp add: m)
  next
    case (Cons c cs)
    have "length (drop (length pat) s) < length s"
      using Cons assms by (cases pat) auto
    then have "replace_str n pat val (drop (length pat) s) = replace_str m' pat val (drop (length pat) s)"
      using Suc.prems m by (intro Suc.IH) simp_all
    moreover have "replace_str n pat val cs = replace_str m' pat val cs"
      using Suc.prems m Cons by (intro Suc.IH) simp_all
    ultimately show ?thesis
      by (simp add: m Cons)
  qed
qed simp

lemma str_replace_simps:
  assumes "pat \<noteq> []"
  shows "str_replace pat val [] = []"
    and "str_replace pat val (pat @ s) = val @ str_replace pat val s"
    and "take (length pat) (c # s) \<noteq> pat \<Longrightarrow> str_replace pat val (c # s) = c # str_replace pat val s"
  using assms replace_str_fuel [OF assms, of s "length (pat @ s)" "Suc (length s)" val]
  by (auto simp: str_replace_def)

text \<open>The placeholders, as the text between the braces, and the other pieces of a text.\<close>

datatype piece = Literal string | Group string

fun piece_text :: "piece \<Rightarrow> string" where
  "piece_text (Literal s) = s"
| "piece_text (Group s) = ''${'' @ s @ ''}''"

definition piece_ok :: "piece \<Rightarrow> bool" where
  "piece_ok p = (case p of Literal s \<Rightarrow> CHR ''$'' \<notin> set s | Group s \<Rightarrow> CHR ''$'' \<notin> set s \<and> CHR ''}'' \<notin> set s)"

fun put :: "string \<Rightarrow> string \<Rightarrow> piece \<Rightarrow> piece" where
  "put name val (Literal s) = Literal s"
| "put name val (Group s) = (if s = name then Literal val else Group s)"

definition text_of :: "piece list \<Rightarrow> string" where
  "text_of ps = concat (map piece_text ps)"

lemma text_of_simps [simp]: "text_of [] = []" "text_of (p # ps) = piece_text p @ text_of ps"
  by (simp_all add: text_of_def)

definition placeholder :: "string \<Rightarrow> string" where
  "placeholder name = ''${'' @ name @ ''}''"

lemma placeholder_not_Nil [simp]: "placeholder name \<noteq> []"
  by (simp add: placeholder_def)

lemma str_replace_literal:
  assumes "CHR ''$'' \<notin> set xs"
  shows "str_replace (placeholder name) val (xs @ s) = xs @ str_replace (placeholder name) val s"
  using assms
proof (induction xs)
  case (Cons c cs)
  then have "str_replace (placeholder name) val (c # (cs @ s)) = c # str_replace (placeholder name) val (cs @ s)"
    by (intro str_replace_simps(3)) (auto simp: placeholder_def)
  with Cons show ?case by simp
qed simp

lemma take_group_other:
  assumes "CHR ''}'' \<notin> set name" "CHR ''}'' \<notin> set g" "g \<noteq> name"
  shows "take (length name + 1) (g @ ''}'' @ s) \<noteq> name @ ''}''"
  using assms
proof (induction name arbitrary: g)
  case Nil
  then show ?case by (cases g) auto
next
  case (Cons c cs)
  then show ?case by (cases g) auto
qed

lemma str_replace_group:
  assumes "CHR ''}'' \<notin> set name" "CHR ''}'' \<notin> set g" "CHR ''$'' \<notin> set g" "g \<noteq> name"
  shows "str_replace (placeholder name) val (placeholder g @ s) = placeholder g @ str_replace (placeholder name) val s"
proof -
  let ?rest = "''{'' @ g @ ''}''"
  have "take (length (placeholder name)) (CHR ''$'' # (?rest @ s)) \<noteq> placeholder name"
    using take_group_other [OF assms(1,2,4), of s] by (simp add: placeholder_def)
  then have "str_replace (placeholder name) val (CHR ''$'' # (?rest @ s)) = CHR ''$'' # str_replace (placeholder name) val (?rest @ s)"
    by (rule str_replace_simps(3) [OF placeholder_not_Nil])
  also have "\<dots> = CHR ''$'' # ?rest @ str_replace (placeholder name) val s"
    using assms(3) str_replace_literal [of ?rest name val s] by simp
  finally show ?thesis by (simp add: placeholder_def)
qed

lemma str_replace_pieces:
  assumes "list_all piece_ok ps" "CHR ''}'' \<notin> set name"
  shows "str_replace (placeholder name) val (text_of ps) = text_of (map (put name val) ps)"
  using assms(1)
proof (induction ps)
  case Nil
  then show ?case by (simp add: str_replace_simps(1))
next
  case (Cons p ps)
  show ?case
  proof (cases p)
    case (Literal s)
    with Cons show ?thesis
      by (simp add: piece_ok_def str_replace_literal)
  next
    case (Group s)
    with Cons have s: "CHR ''}'' \<notin> set s" "CHR ''$'' \<notin> set s"
      by (simp_all add: piece_ok_def)
    have txt_eq: "text_of (p # ps) = placeholder s @ text_of ps"
      by (simp add: Group placeholder_def)
    show ?thesis
    proof (cases "s = name")
      case True
      with txt_eq Cons show ?thesis
        by (simp add: str_replace_simps(2) Group del: text_of_simps piece_text.simps)
          (simp add: Group)
    next
      case False
      with txt_eq Cons s assms(2) show ?thesis
        by (simp add: str_replace_group Group del: text_of_simps piece_text.simps)
          (simp add: Group placeholder_def)
    qed
  qed
qed

lemma piece_ok_put: "piece_ok p \<Longrightarrow> CHR ''$'' \<notin> set val \<Longrightarrow> piece_ok (put name val p)"
  by (cases p) (auto simp: piece_ok_def)

lemma pieces_ok_put: "list_all piece_ok ps \<Longrightarrow> CHR ''$'' \<notin> set val \<Longrightarrow> list_all piece_ok (map (put name val) ps)"
  by (simp add: list_all_iff piece_ok_put)

subsection \<open>The whole substitution\<close>

definition value_of :: "guest_data_context \<Rightarrow> string \<Rightarrow> string option" where
  "value_of ctx = map_of
     [(''VM_NAME'', gdc_vm_name ctx), (''FQDN'', fqdn (gdc_vm_name ctx) (gd_domain ctx)), (''IP'', gd_address ctx),
      (''PREFIX'', gd_prefix ctx), (''GATEWAY'', gd_gateway ctx), (''DNS'', gd_dns ctx), (''DOMAIN'', gd_domain ctx)]"

fun substituted :: "guest_data_context \<Rightarrow> piece \<Rightarrow> string" where
  "substituted ctx (Literal s) = s"
| "substituted ctx (Group s) = (case value_of ctx s of Some v \<Rightarrow> v | None \<Rightarrow> ''${'' @ s @ ''}'')"

text \<open>
  Substitution is simultaneous and touches nothing else: in a text made of literals and \<^verbatim>\<open>${...}\<close>
  groups, each of the seven placeholders becomes its value and everything else stays, provided no
  value contains a dollar sign.
\<close>

theorem render_placeholders_exact:
  assumes "list_all piece_ok ps"
    and "\<And>name v. value_of ctx name = Some v \<Longrightarrow> CHR ''$'' \<notin> set v"
  shows "render_placeholders (text_of ps) ctx = concat (map (substituted ctx) ps)"
proof -
  have vals: "CHR ''$'' \<notin> set (gdc_vm_name ctx)" "CHR ''$'' \<notin> set (fqdn (gdc_vm_name ctx) (gd_domain ctx))"
    "CHR ''$'' \<notin> set (gd_address ctx)" "CHR ''$'' \<notin> set (gd_prefix ctx)" "CHR ''$'' \<notin> set (gd_gateway ctx)"
    "CHR ''$'' \<notin> set (gd_dns ctx)"
    using assms(2) [of "''VM_NAME''"] assms(2) [of "''FQDN''"] assms(2) [of "''IP''"] assms(2) [of "''PREFIX''"]
      assms(2) [of "''GATEWAY''"] assms(2) [of "''DNS''"] by (simp_all add: value_of_def)
  have names: "''${VM_NAME}'' = placeholder ''VM_NAME''" "''${FQDN}'' = placeholder ''FQDN''" "''${IP}'' = placeholder ''IP''"
    "''${PREFIX}'' = placeholder ''PREFIX''" "''${GATEWAY}'' = placeholder ''GATEWAY''" "''${DNS}'' = placeholder ''DNS''"
    "''${DOMAIN}'' = placeholder ''DOMAIN''"
    by (simp_all add: placeholder_def)
  have "render_placeholders (text_of ps) ctx
    = text_of (map (put ''DOMAIN'' (gd_domain ctx)) (map (put ''DNS'' (gd_dns ctx)) (map (put ''GATEWAY'' (gd_gateway ctx))
        (map (put ''PREFIX'' (gd_prefix ctx)) (map (put ''IP'' (gd_address ctx))
        (map (put ''FQDN'' (fqdn (gdc_vm_name ctx) (gd_domain ctx))) (map (put ''VM_NAME'' (gdc_vm_name ctx)) ps)))))))"
    unfolding render_placeholders_def names by (simp add: str_replace_pieces pieces_ok_put assms(1) vals del: map_map)
  moreover have "piece_text (put ''DOMAIN'' (gd_domain ctx) (put ''DNS'' (gd_dns ctx) (put ''GATEWAY'' (gd_gateway ctx)
        (put ''PREFIX'' (gd_prefix ctx) (put ''IP'' (gd_address ctx)
        (put ''FQDN'' (fqdn (gdc_vm_name ctx) (gd_domain ctx)) (put ''VM_NAME'' (gdc_vm_name ctx) p))))))) = substituted ctx p" for p
    by (cases p) (simp_all add: value_of_def)
  ultimately show ?thesis
    by (simp add: text_of_def o_def)
qed

theorem render_placeholders_exact_witness:
  "render_placeholders ''host=${VM_NAME} ip=${IP} keep=${OTHER}''
     (from_static ''db'' (Some \<lparr>sic_address = ''192.0.2.7'', sic_prefix = 24, sic_gateway = None, sic_nameservers = [], sic_domain = None\<rparr>))
   = ''host=db ip=192.0.2.7 keep=${OTHER}''"
proof -
  let ?ps = "[Literal ''host='', Group ''VM_NAME'', Literal '' ip='', Group ''IP'', Literal '' keep='', Group ''OTHER'']"
  let ?ctx = "from_static ''db'' (Some \<lparr>sic_address = ''192.0.2.7'', sic_prefix = 24, sic_gateway = None, sic_nameservers = [], sic_domain = None\<rparr>)"
  have "list_all piece_ok ?ps"
    by (simp add: piece_ok_def)
  moreover have "list_all (\<lambda>(_, v). CHR ''$'' \<notin> set v)
     [(''VM_NAME'', gdc_vm_name ?ctx), (''FQDN'', fqdn (gdc_vm_name ?ctx) (gd_domain ?ctx)), (''IP'', gd_address ?ctx),
      (''PREFIX'', gd_prefix ?ctx), (''GATEWAY'', gd_gateway ?ctx), (''DNS'', gd_dns ?ctx), (''DOMAIN'', gd_domain ?ctx)]"
    by code_simp
  then have "CHR ''$'' \<notin> set v" if "value_of ?ctx name = Some v" for name v
    using map_of_SomeD [OF that [unfolded value_of_def]] by (auto simp: list_all_iff)
  ultimately have "render_placeholders (text_of ?ps) ?ctx = concat (map (substituted ?ctx) ?ps)"
    by (rule render_placeholders_exact)
  moreover have "concat (map (substituted ?ctx) ?ps) = ''host=db ip=192.0.2.7 keep=${OTHER}''"
    by code_simp
  ultimately show ?thesis
    by simp
qed

text \<open>
  A value that contains a placeholder is substituted again by a later replacement: the gateway
  \<^verbatim>\<open>${DNS}\<close> becomes the name servers.
\<close>

theorem values_are_substituted_again:
  "render_placeholders ''${GATEWAY}'' (from_static ''db'' (Some \<lparr>sic_address = ''192.0.2.7'', sic_prefix = 24,
     sic_gateway = Some ''${DNS}'', sic_nameservers = [''192.0.2.1''], sic_domain = None\<rparr>)) = ''192.0.2.1''"
  by code_simp

end
