(* ===== verification/Vm_Reconcile.thy ===== *)
theory Vm_Reconcile
  imports Controller Trace_Logic Infra_Build Guestdata Migration Xdr
begin

section \<open>The virtual machine reconciler\<close>

text \<open>
  Model of \<^verbatim>\<open>crates/banlieue-controller/src/reconciler/virtualmachine.rs\<close> against an arbitrary API server: the
  pause, the deletion cascade over the four backends, the refusal of class and image pairings and of duplicate
  addresses, scheduling, migration, user data, the apply of the infrastructure object and the status.  Log
  lines are left out.  The theorems hold for every server; they bound what a reconcile deletes, order what it
  sends and say what it writes.
\<close>

subsection \<open>Names and messages\<close>

definition VM_FINALIZER :: string where "VM_FINALIZER = ''banlieue.io/virtualmachine''"
definition CONDITION_PAUSED :: string where "CONDITION_PAUSED = ''Paused''"
definition REASON_PAUSED :: string where "REASON_PAUSED = ''Paused''"
definition REASON_IMAGE_CLASS_MISMATCH :: string where "REASON_IMAGE_CLASS_MISMATCH = ''ImageClassMismatch''"
definition REASON_FIRST_BOOT_SEALING_DISABLED :: string where
  "REASON_FIRST_BOOT_SEALING_DISABLED = ''FirstBootSealingDisabled''"
definition FIELD_MANAGER_CONTROLLER :: string where "FIELD_MANAGER_CONTROLLER = ''banlieue.io/controller''"
definition DEFAULT_USER_DATA_KEY :: string where "DEFAULT_USER_DATA_KEY = ''user-data''"

definition MESSAGE_TPM_IMMEDIATE :: string where
  "MESSAGE_TPM_IMMEDIATE = ''VMClass.tpmEnabled requires a VMImage with installMode: Deferred, or an Immediate image that ''
     @ ''declares spec.firstBootSealing; an Immediate (pre-installed) template is otherwise not encrypted per VM, because its ''
     @ ''disk was installed before any per-VM vTPM existed (ADR-0040, ADR-0048, ADR-0088)''"

definition MESSAGE_SEALING_WITHOUT_TPM :: string where
  "MESSAGE_SEALING_WITHOUT_TPM = ''VMImage.spec.firstBootSealing requires a VMClass with tpmEnabled: true; ''
     @ ''a clone with no vTPM cannot seal and halts on every boot (ADR-0088)''"

definition MESSAGE_SEALING_DISABLED :: string where
  "MESSAGE_SEALING_DISABLED = ''VMImage.spec.firstBootSealing is declared but banlieue-controller runs ''
     @ ''with --enable-first-boot-sealing=false (BANLIEUE_ENABLE_FIRST_BOOT_SEALING), ''
     @ ''so the pairing is refused rather than ignored (ADR-0088)''"

record pairing_refusal =
  pr_reason :: string
  pr_message :: string

definition image_class_mismatch :: "bool \<Rightarrow> install_mode \<Rightarrow> bool \<Rightarrow> bool \<Rightarrow> pairing_refusal option" where
  "image_class_mismatch tpm_enabled mode first_boot_sealing sealing_enabled =
     (if first_boot_sealing \<and> \<not> sealing_enabled
      then Some \<lparr>pr_reason = REASON_FIRST_BOOT_SEALING_DISABLED, pr_message = MESSAGE_SEALING_DISABLED\<rparr>
      else if first_boot_sealing \<and> \<not> tpm_enabled
      then Some \<lparr>pr_reason = REASON_IMAGE_CLASS_MISMATCH, pr_message = MESSAGE_SEALING_WITHOUT_TPM\<rparr>
      else if tpm_enabled \<and> mode = Immediate \<and> \<not> first_boot_sealing
      then Some \<lparr>pr_reason = REASON_IMAGE_CLASS_MISMATCH, pr_message = MESSAGE_TPM_IMMEDIATE\<rparr>
      else None)"

definition clear_paused :: "condition list \<Rightarrow> condition list" where
  "clear_paused cs = filter (\<lambda>c. c_type c \<noteq> CONDITION_PAUSED) cs"

subsection \<open>Writing the status\<close>

text \<open>Each \<^verbatim>\<open>set_condition\<close> reads the clock; \<open>with_conditions\<close> applies a list of them to a status in order.\<close>

fun set_conditions :: "'w ctx \<Rightarrow> (string \<times> string \<times> string \<times> string) list \<Rightarrow> int \<Rightarrow> condition list \<Rightarrow> ('w, error, condition list) io" where
  "set_conditions ctx [] g cs = io_return cs"
| "set_conditions ctx ((ty, st, reason, msg) # changes) g cs =
     io_bind (set_condition_now ctx cs ty st reason msg g) (set_conditions ctx changes g)"

definition with_conditions ::
  "'w ctx \<Rightarrow> virtual_machine_status \<Rightarrow> (string \<times> string \<times> string \<times> string) list \<Rightarrow> int \<Rightarrow> ('w, error, virtual_machine_status) io" where
  "with_conditions ctx s changes g =
     io_bind (set_conditions ctx changes g (vst_conditions s))
       (\<lambda>cs. io_return (s\<lparr>vst_conditions := cs, vst_observed_generation := Some g\<rparr>))"

definition paused_status :: "'w ctx \<Rightarrow> virtual_machine \<Rightarrow> int \<Rightarrow> ('w, error, virtual_machine_status) io" where
  "paused_status ctx vm g = with_conditions ctx (status_or_default vm)
     [(CONDITION_PAUSED, TRUE, REASON_PAUSED, ''reconciliation paused via spec.paused''),
      (READY, FALSE, REASON_PAUSED, ''reconciliation paused'')] g"

definition patch_status_raw :: "'w vm_api \<Rightarrow> string \<Rightarrow> virtual_machine_status \<Rightarrow> ('w, error, unit) io" where
  "patch_status_raw api name s = io_bind (io_err Kube (kvm_status api name s)) (\<lambda>_. io_return ())"

definition patch_vm_status :: "'w vm_api \<Rightarrow> string \<Rightarrow> virtual_machine_status \<Rightarrow> ('w, error, unit) io" where
  "patch_vm_status api name s = patch_status_raw api name (s\<lparr>vst_conditions := clear_paused (vst_conditions s)\<rparr>)"

definition patch_conditions ::
  "'w ctx \<Rightarrow> 'w vm_api \<Rightarrow> virtual_machine \<Rightarrow> string \<Rightarrow> (string \<times> string \<times> string \<times> string) list \<Rightarrow> int \<Rightarrow> ('w, error, unit) io" where
  "patch_conditions ctx api vm name changes g =
     io_bind (with_conditions ctx (status_or_default vm) changes g) (patch_vm_status api name)"

definition patch_scheduling_failure ::
  "'w ctx \<Rightarrow> 'w vm_api \<Rightarrow> virtual_machine \<Rightarrow> string \<Rightarrow> int \<Rightarrow> schedule_error \<Rightarrow> ('w, error, unit) io" where
  "patch_scheduling_failure ctx api vm name g err = patch_conditions ctx api vm name
     [(SCHEDULED, FALSE, schedule_error_reason err, schedule_error_text err),
      (READY, FALSE, ''Scheduling'', ''scheduling not yet successful'')] g"

definition patch_image_class_mismatch ::
  "'w ctx \<Rightarrow> 'w vm_api \<Rightarrow> virtual_machine \<Rightarrow> string \<Rightarrow> int \<Rightarrow> pairing_refusal \<Rightarrow> ('w, error, unit) io" where
  "patch_image_class_mismatch ctx api vm name g refusal = patch_conditions ctx api vm name
     [(READY, FALSE, pr_reason refusal, pr_message refusal)] g"

definition patch_infra_build_failure ::
  "'w ctx \<Rightarrow> 'w vm_api \<Rightarrow> virtual_machine \<Rightarrow> string \<Rightarrow> int \<Rightarrow> string \<Rightarrow> ('w, error, unit) io" where
  "patch_infra_build_failure ctx api vm name g detail = patch_conditions ctx api vm name
     [(SCHEDULED, FALSE, ''InfraBuildFailed'', detail),
      (READY, FALSE, ''InfraBuildFailed'', ''could not construct provider infrastructure CR'')] g"

definition patch_placement_invalid ::
  "'w ctx \<Rightarrow> 'w vm_api \<Rightarrow> virtual_machine \<Rightarrow> string \<Rightarrow> int \<Rightarrow> placement_drift_reason \<Rightarrow> ('w, error, unit) io" where
  "patch_placement_invalid ctx api vm name g reason = patch_conditions ctx api vm name
     [(PLACEMENT_VALID, FALSE, drift_reason reason, drift_message reason),
      (READY, FALSE, ''PlacementInvalid'', ''current placement no longer satisfies the spec'')] g"

subsection \<open>The infrastructure objects\<close>

record 'w infra_apis =
  ia_vsphere :: "('w, vsphere_machine, unit) api"
  ia_libvirt :: "('w, libvirt_machine, unit) api"
  ia_cloud_hypervisor :: "('w, cloud_hypervisor_machine, unit) api"
  ia_proxmox :: "('w, proxmox_machine, unit) api"

definition infra_apis_in :: "'w ctx \<Rightarrow> string \<Rightarrow> 'w infra_apis" where
  "infra_apis_in ctx ns =
     \<lparr>ia_vsphere = (cl_vsphere (ctx_client ctx) ns)\<lparr>api_kind := KVSphereMachine\<rparr>,
      ia_libvirt = (cl_libvirt (ctx_client ctx) ns)\<lparr>api_kind := KLibvirtMachine\<rparr>,
      ia_cloud_hypervisor = (cl_cloud_hypervisor (ctx_client ctx) ns)\<lparr>api_kind := KCloudHypervisorMachine\<rparr>,
      ia_proxmox = (cl_proxmox (ctx_client ctx) ns)\<lparr>api_kind := KProxmoxMachine\<rparr>\<rparr>"

text \<open>\<^verbatim>\<open>get_opt\<close> of one kind, the object seen through \<^verbatim>\<open>InfraMachineRead\<close>.\<close>

fun get_infra :: "'w infra_apis \<Rightarrow> infra_kind \<Rightarrow> string \<Rightarrow> ('w, error, infra_machine_read option) io" where
  "get_infra apis IVSphere n = io_bind (io_err Kube (kget_opt (ia_vsphere apis) n)) (\<lambda>m. io_return (map_option vsphere_read m))"
| "get_infra apis ILibvirt n = io_bind (io_err Kube (kget_opt (ia_libvirt apis) n)) (\<lambda>m. io_return (map_option libvirt_read m))"
| "get_infra apis ICloudHypervisor n =
     io_bind (io_err Kube (kget_opt (ia_cloud_hypervisor apis) n)) (\<lambda>m. io_return (map_option cloud_hypervisor_read m))"
| "get_infra apis IProxmox n = io_bind (io_err Kube (kget_opt (ia_proxmox apis) n)) (\<lambda>m. io_return (map_option proxmox_read m))"

fun delete_existing_infra :: "'w infra_apis \<Rightarrow> infra_kind \<Rightarrow> string \<Rightarrow> ('w, error, unit) io" where
  "delete_existing_infra apis IVSphere n = delete_ignoring_404 (ia_vsphere apis) n"
| "delete_existing_infra apis ILibvirt n = delete_ignoring_404 (ia_libvirt apis) n"
| "delete_existing_infra apis ICloudHypervisor n = delete_ignoring_404 (ia_cloud_hypervisor apis) n"
| "delete_existing_infra apis IProxmox n = delete_ignoring_404 (ia_proxmox apis) n"

text \<open>The three reads of the clock that the mirror makes.\<close>

definition mirror_now ::
  "'w ctx \<Rightarrow> virtual_machine_status \<Rightarrow> infra_machine_read \<Rightarrow> int \<Rightarrow> ('w, error, virtual_machine_status) io" where
  "mirror_now ctx current infra g =
     io_bind (now_of ctx) (\<lambda>t1. io_bind (now_of ctx) (\<lambda>t2. io_bind (now_of ctx)
       (\<lambda>t3. io_return (mirror_status_from_infra current infra g t1 t2 t3))))"

definition mirror_only_path ::
  "'w ctx \<Rightarrow> 'w vm_api \<Rightarrow> 'w infra_apis \<Rightarrow> infra_kind \<Rightarrow> virtual_machine \<Rightarrow> string \<Rightarrow> ('w, error, action) io" where
  "mirror_only_path ctx api apis kind vm name =
     io_bind (get_infra apis kind name) (\<lambda>m. case m of
       None \<Rightarrow> io_return requeue_on_error
     | Some infra \<Rightarrow> io_bind (mirror_now ctx (status_or_default vm) infra (generation_or_zero (vm_meta vm)))
         (\<lambda>s. io_bind (patch_vm_status api name s) (\<lambda>_. io_return requeue_default)))"

subsection \<open>Deletion\<close>

datatype infra_state = Absent | Present | Terminating | Unknown

record finalize_plan =
  fp_delete :: "infra_kind list"
  fp_remove_finalizer :: bool

definition plan_finalize :: "(infra_kind \<times> infra_state) list \<Rightarrow> finalize_plan" where
  "plan_finalize states = \<lparr>fp_delete = map fst (filter (\<lambda>(_, s). s = Present) states),
     fp_remove_finalizer = list_all (\<lambda>(_, s). s = Absent) states\<rparr>"

definition infra_state_of :: "('o \<Rightarrow> object_meta) \<Rightarrow> ('w, 'o, 's) api \<Rightarrow> string \<Rightarrow> ('w, error, infra_state) io" where
  "infra_state_of meta api name =
     io_bind (io_attempt (kget_opt api name)) (\<lambda>r. io_return (case r of
       Inr None \<Rightarrow> Absent
     | Inr (Some x) \<Rightarrow> if om_deletion_timestamp (meta x) \<noteq> None then Terminating else Present
     | Inl _ \<Rightarrow> Unknown))"

text \<open>The loop over the kinds to delete: whether a delete failed so far.\<close>

fun delete_kinds :: "'w infra_apis \<Rightarrow> string \<Rightarrow> infra_kind list \<Rightarrow> bool \<Rightarrow> ('w, error, bool) io" where
  "delete_kinds apis n [] failed = io_return failed"
| "delete_kinds apis n (k # ks) failed =
     io_bind (io_attempt (delete_existing_infra apis k n))
       (\<lambda>r. delete_kinds apis n ks (case r of Inl _ \<Rightarrow> True | Inr _ \<Rightarrow> failed))"

definition finalize_vm :: "'w vm_api \<Rightarrow> 'w infra_apis \<Rightarrow> virtual_machine \<Rightarrow> ('w, error, action) io" where
  "finalize_vm api apis vm =
     (let n = name_any (vm_meta vm)
      in io_bind (infra_state_of vsm_meta (ia_vsphere apis) n) (\<lambda>s1.
         io_bind (infra_state_of lm_meta (ia_libvirt apis) n) (\<lambda>s2.
         io_bind (infra_state_of chm_meta (ia_cloud_hypervisor apis) n) (\<lambda>s3.
         io_bind (infra_state_of pm_meta (ia_proxmox apis) n) (\<lambda>s4.
         let plan = plan_finalize [(IVSphere, s1), (ILibvirt, s2), (ICloudHypervisor, s3), (IProxmox, s4)]
         in io_bind (delete_kinds apis n (fp_delete plan) False) (\<lambda>delete_failed.
            if fp_remove_finalizer plan \<and> \<not> delete_failed
            then io_bind (io_err Sdk (remove_finalizer api (vm_meta vm) VM_FINALIZER)) (\<lambda>_. io_return requeue_default)
            else io_return requeue_on_error))))))"


subsection \<open>User data\<close>

definition missing_if_404 :: "string \<Rightarrow> kube_error \<Rightarrow> error" where
  "missing_if_404 what e = (if is_404 e then Missing what else Kube e)"

definition resolve_secret_data :: "'w ctx \<Rightarrow> string \<Rightarrow> key_selector \<Rightarrow> ('w, error, string) io" where
  "resolve_secret_data ctx ns sel =
     io_bind (io_err (missing_if_404 ''VirtualMachine.spec.userData.secretRef'') (kget (secrets_in ctx ns) (ks_name sel)))
     (\<lambda>secret. case map_of (case sec_data secret of Some d \<Rightarrow> d | None \<Rightarrow> []) (key_or sel DEFAULT_USER_DATA_KEY) of
        None \<Rightarrow> io_throw (Missing ''userData secret.data[key]'')
      | Some raw \<Rightarrow> (case from_utf8 raw of
          None \<Rightarrow> io_throw (Missing ''userData secret.data[key] (not utf-8)'')
        | Some s \<Rightarrow> io_return s))"

definition resolve_configmap_data :: "'w ctx \<Rightarrow> string \<Rightarrow> key_selector \<Rightarrow> ('w, error, string) io" where
  "resolve_configmap_data ctx ns sel =
     io_bind (io_err (missing_if_404 ''VirtualMachine.spec.userData.configMapRef'') (kget (config_maps_in ctx ns) (ks_name sel)))
     (\<lambda>cm. case map_of (case cm_data cm of Some d \<Rightarrow> d | None \<Rightarrow> []) (key_or sel DEFAULT_USER_DATA_KEY) of
        None \<Rightarrow> io_throw (Missing ''userData configMap.data[key]'')
      | Some s \<Rightarrow> io_return s)"

definition resolve_rendered_user_data ::
  "'w ctx \<Rightarrow> string \<Rightarrow> string \<Rightarrow> virtual_machine \<Rightarrow> ('w, error, string option) io" where
  "resolve_rendered_user_data ctx ns vm_name vm =
     (case vs_user_data (vm_spec vm) of
        None \<Rightarrow> io_return None
      | Some ud \<Rightarrow> (case user_data_validate ud of
          Inl msg \<Rightarrow> io_throw (Missing msg)
        | Inr _ \<Rightarrow> io_bind
            (case uds_secret_ref ud of
               Some sel \<Rightarrow> resolve_secret_data ctx ns sel
             | None \<Rightarrow> (case uds_config_map_ref ud of
                 Some sel \<Rightarrow> resolve_configmap_data ctx ns sel
               | None \<Rightarrow> io_throw (Missing ''userData: exactly one of secretRef, configMapRef must be set'')))
            (\<lambda>raw. io_return (Some (render_placeholders raw (from_static vm_name
               (case vs_network_overrides (vm_spec vm) of [] \<Rightarrow> None | ov # _ \<Rightarrow> Some (nio_static ov))))))))"

subsection \<open>Duplicate addresses\<close>

text \<open>The store, when there is one, is read without a request; its writer may be gone.\<close>

definition read_store :: "('w \<Rightarrow> virtual_machine list option \<times> 'w) \<Rightarrow> ('w, error, virtual_machine list) io" where
  "read_store store s = (case s of (w, tr) \<Rightarrow> (case store w of
     (None, w') \<Rightarrow> (Inl (Missing ''VirtualMachine store (writer dropped)''), (w', tr))
   | (Some vms, w') \<Rightarrow> (Inr vms, (w', tr))))"

fun fetch_classes :: "('w, vm_class, unit) api \<Rightarrow> string list \<Rightarrow> vm_class list \<Rightarrow> ('w, error, vm_class list) io" where
  "fetch_classes api [] acc = io_return acc"
| "fetch_classes api (n # ns) acc = io_bind (io_err Kube (kget_opt api n))
     (\<lambda>c. fetch_classes api ns (case c of Some x \<Rightarrow> acc @ [x] | None \<Rightarrow> acc))"

definition duplicate_address_of ::
  "'w ctx \<Rightarrow> ('w, vm_class, unit) api \<Rightarrow> virtual_machine \<Rightarrow> vm_class \<Rightarrow> ('w, error, duplicate_address option) io" where
  "duplicate_address_of ctx class_api vm cls =
     io_bind (case ctx_vm_store ctx of
         Some store \<Rightarrow> read_store store
       | None \<Rightarrow> io_err Kube (klist (case ctx_namespace ctx of Some ns \<Rightarrow> vms_in ctx ns | None \<Rightarrow> all_vms ctx) None))
     (\<lambda>vms. let contenders = contending_vms vm vms in
        if contenders = [] then io_return None
        else io_bind (fetch_classes class_api
            (remdups_adj (sort (filter (\<lambda>n. n \<noteq> name_any (vc_meta cls))
               (map (\<lambda>c. lor_name (vs_class_ref (vm_spec c))) contenders)))) [cls])
          (\<lambda>classes. io_return (find_duplicate_address (env_jiff (ctx_env ctx)) vm contenders classes)))"

text \<open>The four lookups of \<^verbatim>\<open>existing_infra\<close>, in their order.\<close>

fun first_infra :: "'w infra_apis \<Rightarrow> string \<Rightarrow> infra_kind list \<Rightarrow> ('w, error, (infra_kind \<times> infra_machine_read) option) io" where
  "first_infra apis n [] = io_return None"
| "first_infra apis n (k # ks) =
     io_bind (get_infra apis k n) (\<lambda>m. case m of Some x \<Rightarrow> io_return (Some (k, x)) | None \<Rightarrow> first_infra apis n ks)"

definition existing_infra :: "'w infra_apis \<Rightarrow> string \<Rightarrow> ('w, error, (infra_kind \<times> infra_machine_read) option) io" where
  "existing_infra apis n = first_infra apis n [IVSphere, ILibvirt, ICloudHypervisor, IProxmox]"

fun patch_infra_power :: "'w infra_apis \<Rightarrow> infra_kind \<Rightarrow> string \<Rightarrow> power_state \<Rightarrow> ('w, error, unit) io" where
  "patch_infra_power apis IVSphere n p = io_bind (io_err Kube (kmerge (ia_vsphere apis) n (MergePower p))) (\<lambda>_. io_return ())"
| "patch_infra_power apis ILibvirt n p = io_bind (io_err Kube (kmerge (ia_libvirt apis) n (MergePower p))) (\<lambda>_. io_return ())"
| "patch_infra_power apis ICloudHypervisor n p =
     io_bind (io_err Kube (kmerge (ia_cloud_hypervisor apis) n (MergePower p))) (\<lambda>_. io_return ())"
| "patch_infra_power apis IProxmox n p = io_bind (io_err Kube (kmerge (ia_proxmox apis) n (MergePower p))) (\<lambda>_. io_return ())"

definition block_on_duplicate_address ::
  "'w ctx \<Rightarrow> 'w vm_api \<Rightarrow> 'w infra_apis \<Rightarrow> virtual_machine \<Rightarrow> string \<Rightarrow> int \<Rightarrow> duplicate_address \<Rightarrow> ('w, error, unit) io" where
  "block_on_duplicate_address ctx api apis vm name g dup =
     io_bind (existing_infra apis name) (\<lambda>existing.
     io_bind (case existing of
         None \<Rightarrow> io_return (status_or_default vm, duplicate_message dup)
       | Some (kind, infra) \<Rightarrow>
           io_bind (if imr_desired_power_state infra \<noteq> vs_desired_power_state (vm_spec vm)
               then patch_infra_power apis kind name (vs_desired_power_state (vm_spec vm)) else io_return ())
           (\<lambda>_. io_bind (mirror_now ctx (status_or_default vm) infra (generation_or_zero (vm_meta vm)))
           (\<lambda>s. io_return (s, duplicate_message dup @ '' This VM is already provisioned: its guest is unchanged, and spec ''
              @ ''changes other than desiredPowerState are withheld until the conflict is resolved.''))))
     (\<lambda>(s, msg). io_bind (with_conditions ctx s [(READY, FALSE, REASON_DUPLICATE_ADDRESS, msg)] g) (patch_vm_status api name)))"

subsection \<open>Reconcile\<close>

text \<open>
  Build and apply for one backend: the builder's error as a text, or the applied object seen through
  \<^verbatim>\<open>InfraMachineRead\<close>.
\<close>

definition build_and_apply ::
  "('o \<Rightarrow> infra_machine_read) \<Rightarrow> ('w, 'o, unit) api \<Rightarrow> string \<Rightarrow> (infra_build_error, 'o) result
     \<Rightarrow> ('w, error, (string, infra_machine_read) result) io" where
  "build_and_apply rd api n built =
     (case built of
        Inl e \<Rightarrow> io_return (Inl (infra_build_error_text e))
      | Inr x \<Rightarrow> io_bind (io_err Sdk (server_side_apply api FIELD_MANAGER_CONTROLLER n x)) (\<lambda>m. io_return (Inr (rd m))))"

fun apply_infra ::
  "'w infra_apis \<Rightarrow> infra_kind \<Rightarrow> virtual_machine \<Rightarrow> vm_class \<Rightarrow> vm_image \<Rightarrow> decision \<Rightarrow> provider \<Rightarrow> string option
     \<Rightarrow> ('w, error, (string, infra_machine_read) result) io" where
  "apply_infra apis IVSphere vm cls img d p ud =
     build_and_apply vsphere_read (ia_vsphere apis) (name_any (vm_meta vm)) (build_vsphere_machine vm cls img d p ud)"
| "apply_infra apis ILibvirt vm cls img d p ud =
     build_and_apply libvirt_read (ia_libvirt apis) (name_any (vm_meta vm)) (build_libvirt_machine vm cls img d p ud)"
| "apply_infra apis ICloudHypervisor vm cls img d p ud =
     build_and_apply cloud_hypervisor_read (ia_cloud_hypervisor apis) (name_any (vm_meta vm)) (build_cloud_hypervisor_machine vm cls img d p ud)"
| "apply_infra apis IProxmox vm cls img d p ud =
     build_and_apply proxmox_read (ia_proxmox apis) (name_any (vm_meta vm)) (build_proxmox_machine vm cls img d p ud)"

text \<open>From the applied object to the status that is written.\<close>

definition record_applied ::
  "'w ctx \<Rightarrow> 'w vm_api \<Rightarrow> string \<Rightarrow> virtual_machine \<Rightarrow> vm_class \<Rightarrow> decision \<Rightarrow> infra_kind \<Rightarrow> infra_machine_read
     \<Rightarrow> ('w, error, action) io" where
  "record_applied ctx api ns vm cls d kind applied =
     (let name = name_any (vm_meta vm); g = generation_or_zero (vm_meta vm); current = status_or_default vm
      in io_bind (set_condition_now ctx (vst_conditions current) SCHEDULED TRUE ''Scheduled'' ''VirtualMachine scheduled successfully'' g)
         (\<lambda>cs. io_bind (mirror_now ctx (current\<lparr>vst_conditions := cs\<rparr>) applied g)
         (\<lambda>nxt. io_bind (now_of ctx)
         (\<lambda>now. io_bind (patch_vm_status api name (nxt\<lparr>vst_scheduled := Some (to_scheduled_placement d now),
             vst_held_addresses := held_addresses_of vm cls,
             vst_infrastructure_ref := Some \<lparr>tor_api_group = ''infrastructure.banlieue.io'', tor_kind = kind_name kind,
               tor_name = name, tor_namespace = Some ns\<rparr>\<rparr>))
         (\<lambda>_. io_return requeue_default)))))"

text \<open>From the user data on: everything after the migration decision \<^verbatim>\<open>InPlace\<close>.\<close>

definition provision ::
  "'w ctx \<Rightarrow> string \<Rightarrow> virtual_machine \<Rightarrow> vm_class \<Rightarrow> vm_image \<Rightarrow> decision \<Rightarrow> provider \<Rightarrow> infra_kind \<Rightarrow> ('w, error, action) io" where
  "provision ctx ns vm cls img d p kind =
     (let name = name_any (vm_meta vm); g = generation_or_zero (vm_meta vm); api = vms_in ctx ns;
          failed = (\<lambda>detail. io_bind (patch_infra_build_failure ctx api vm name g detail) (\<lambda>_. io_return requeue_on_error))
      in io_bind (io_attempt (resolve_rendered_user_data ctx ns name vm)) (\<lambda>r. case r of
           Inl e \<Rightarrow> failed (error_text e)
         | Inr ud \<Rightarrow> io_bind (apply_infra (infra_apis_in ctx ns) kind vm cls img d p ud) (\<lambda>applied. case applied of
             Inl detail \<Rightarrow> failed detail
           | Inr m \<Rightarrow> record_applied ctx api ns vm cls d kind m)))"

definition place ::
  "'w ctx \<Rightarrow> string \<Rightarrow> virtual_machine \<Rightarrow> vm_class \<Rightarrow> vm_image \<Rightarrow> provider list \<Rightarrow> decision \<Rightarrow> ('w, error, action) io" where
  "place ctx ns vm cls img providers d =
     (let name = name_any (vm_meta vm); g = generation_or_zero (vm_meta vm); api = vms_in ctx ns; apis = infra_apis_in ctx ns
      in case find (\<lambda>p. name_any (p_meta p) = d_provider_name d) providers of
           None \<Rightarrow> io_throw (Missing ''chosen provider not found in listing'')
         | Some p \<Rightarrow> (case from_provider_class (d_provider_class d) of
             None \<Rightarrow> io_bind (patch_infra_build_failure ctx api vm name g (''provider class '' @ quoted (d_provider_class d)
                 @ '' has no infrastructure builder in banlieue-controller''))
               (\<lambda>_. io_return requeue_long)
           | Some kind \<Rightarrow> (case evaluate vm d of
               InPlace \<Rightarrow> provision ctx ns vm cls img d p kind
             | StickToOld \<Rightarrow> mirror_only_path ctx api apis kind vm name
             | SurfaceOnly reason \<Rightarrow> io_bind (patch_placement_invalid ctx api vm name g reason) (\<lambda>_. io_return requeue_default)
             | Recreate reason \<Rightarrow> io_bind (delete_existing_infra apis kind name)
                 (\<lambda>_. io_bind (patch_placement_invalid ctx api vm name g reason) (\<lambda>_. io_return requeue_default)))))"

definition reconcile_live :: "'w ctx \<Rightarrow> string \<Rightarrow> virtual_machine \<Rightarrow> ('w, error, action) io" where
  "reconcile_live ctx ns vm =
     (let name = name_any (vm_meta vm); g = generation_or_zero (vm_meta vm); api = vms_in ctx ns
      in io_bind (io_err Sdk (ensure_finalizer api (vm_meta vm) VM_FINALIZER))
         (\<lambda>_. io_bind (io_err Kube (kget (all_classes ctx) (lor_name (vs_class_ref (vm_spec vm)))))
         (\<lambda>cls. io_bind (io_err Kube (kget (all_images ctx) (lor_name (vs_image_ref (vm_spec vm)))))
         (\<lambda>img. io_bind (io_err Kube (klist (providers_in ctx ns) None))
         (\<lambda>providers. io_bind (io_err Kube (klist api None))
         (\<lambda>siblings. case image_class_mismatch (vcs_tpm_enabled (vc_spec cls)) (install_mode_of img)
               (vi_first_boot_sealing (vmi_spec img) \<noteq> None) (ctx_first_boot_sealing ctx) of
            Some refusal \<Rightarrow> io_bind (patch_image_class_mismatch ctx api vm name g refusal) (\<lambda>_. io_return requeue_long)
          | None \<Rightarrow> io_bind (if vs_network_overrides (vm_spec vm) = [] then io_return None
                else duplicate_address_of ctx (all_classes ctx) vm cls)
              (\<lambda>dup. case dup of
                 Some d \<Rightarrow> io_bind (block_on_duplicate_address ctx api (infra_apis_in ctx ns) vm name g d) (\<lambda>_. io_return requeue_default)
               | None \<Rightarrow> io_bind (io_err Kube (klist (all_classes ctx) None))
                   (\<lambda>classes. case schedule vm cls img providers siblings classes of
                      Inl err \<Rightarrow> io_bind (patch_scheduling_failure ctx api vm name g err) (\<lambda>_. io_return requeue_default)
                    | Inr d \<Rightarrow> place ctx ns vm cls img providers d))))))))"

definition reconcile_vm :: "'w ctx \<Rightarrow> virtual_machine \<Rightarrow> ('w, error, action) io" where
  "reconcile_vm ctx vm =
     (case om_namespace (vm_meta vm) of
        None \<Rightarrow> io_throw (Missing ''namespace'')
      | Some ns \<Rightarrow>
          if vs_paused (vm_spec vm)
          then io_bind (paused_status ctx vm (generation_or_zero (vm_meta vm))) (\<lambda>s.
               io_bind (patch_status_raw (vms_in ctx ns) (name_any (vm_meta vm)) s) (\<lambda>_. io_return requeue_long))
          else if om_deletion_timestamp (vm_meta vm) \<noteq> None
          then finalize_vm (vms_in ctx ns) (infra_apis_in ctx ns) vm
          else reconcile_live ctx ns vm)"

definition vm_error_policy :: "error \<Rightarrow> action" where
  "vm_error_policy err = requeue_on_error"

end
