(* ===== verification/Vm_Safety.thy ===== *)
theory Vm_Safety
  imports Vm_Reconcile
begin

section \<open>What the virtual machine controller may do to a machine\<close>

text \<open>
  Which requests one pass of \<^verbatim>\<open>reconcile_vm\<close> can send, whatever the API server answers.
\<close>

subsection \<open>What a reconcile sends\<close>

definition infra_kinds :: "obj_kind set" where
  "infra_kinds = {KVSphereMachine, KLibvirtMachine, KCloudHypervisorMachine, KProxmoxMachine}"

lemma infra_api_kinds [simp]:
  "api_kind (ia_vsphere (infra_apis_in ctx ns)) = KVSphereMachine" "api_kind (ia_libvirt (infra_apis_in ctx ns)) = KLibvirtMachine"
  "api_kind (ia_cloud_hypervisor (infra_apis_in ctx ns)) = KCloudHypervisorMachine"
  "api_kind (ia_proxmox (infra_apis_in ctx ns)) = KProxmoxMachine"
  by (simp_all add: infra_apis_in_def)

lemma infra_kinds_mem [simp]:
  "KVSphereMachine \<in> infra_kinds" "KLibvirtMachine \<in> infra_kinds" "KCloudHypervisorMachine \<in> infra_kinds"
  "KProxmoxMachine \<in> infra_kinds" "KVirtualMachine \<notin> infra_kinds"
  by (simp_all add: infra_kinds_def)

text \<open>A status that keeps what only an apply may change: the placement, the reference and the held addresses.\<close>

definition carries :: "virtual_machine \<Rightarrow> virtual_machine_status \<Rightarrow> bool" where
  "carries vm s \<longleftrightarrow> vst_scheduled s = vst_scheduled (status_or_default vm)
     \<and> vst_infrastructure_ref s = vst_infrastructure_ref (status_or_default vm)
     \<and> vst_held_addresses s = vst_held_addresses (status_or_default vm)"

text \<open>
  Events that neither create, change nor destroy a machine: reads, the finalizer, the machine's own status
  with placement and held addresses as they were, and the power state the user asked for.
\<close>

definition harmless :: "virtual_machine \<Rightarrow> event \<Rightarrow> bool" where
  "harmless vm e = (case ev_verb e of
     Get \<Rightarrow> True
   | ListBy _ \<Rightarrow> True
   | VmStatus s \<Rightarrow> ev_kind e = KVirtualMachine \<and> ev_name e = name_any (vm_meta vm) \<and> carries vm s
   | MergePatch (MergeFinalizers fs) \<Rightarrow> ev_kind e = KVirtualMachine \<and> ev_name e = name_any (vm_meta vm) \<and> VM_FINALIZER \<in> set fs
   | MergePatch (MergePower p) \<Rightarrow> ev_kind e \<in> infra_kinds \<and> ev_name e = name_any (vm_meta vm) \<and> p = vs_desired_power_state (vm_spec vm)
   | _ \<Rightarrow> False)"

lemma harmless_simps [simp]:
  "harmless vm (Event k n Get a)" "harmless vm (Event k n (ListBy s) a)"
  "harmless vm (Event k n (VmStatus st) a) \<longleftrightarrow> k = KVirtualMachine \<and> n = name_any (vm_meta vm) \<and> carries vm st"
  "harmless vm (Event k n (MergePatch (MergeFinalizers fs)) a) \<longleftrightarrow> k = KVirtualMachine \<and> n = name_any (vm_meta vm) \<and> VM_FINALIZER \<in> set fs"
  "harmless vm (Event k n (MergePatch (MergePower p)) a) \<longleftrightarrow> k \<in> infra_kinds \<and> n = name_any (vm_meta vm) \<and> p = vs_desired_power_state (vm_spec vm)"
  "\<not> harmless vm (Event k n Delete a)" "\<not> harmless vm (Event k n Apply a)"
  by (simp_all add: harmless_def)

text \<open>The status that the condition setters and the mirror return.\<close>

lemma yields_with_conditions:
  assumes "yields (with_conditions ctx s changes g) t"
  shows "\<exists>cs. t = s\<lparr>vst_conditions := cs, vst_observed_generation := Some g\<rparr>"
  using assms unfolding with_conditions_def by (auto elim!: yields_bind)

lemma yields_mirror_now:
  assumes "yields (mirror_now ctx s infra g) t"
  shows "\<exists>t1 t2 t3. t = mirror_status_from_infra s infra g t1 t2 t3"
  using assms unfolding mirror_now_def by (auto elim!: yields_bind) blast

lemma carries_default [simp]: "carries vm (status_or_default vm)"
  by (simp add: carries_def)

lemma carries_update [simp]:
  "carries vm (s\<lparr>vst_conditions := cs\<rparr>) = carries vm s"
  "carries vm (s\<lparr>vst_observed_generation := g\<rparr>) = carries vm s"
  "carries vm (s\<lparr>vst_conditions := cs, vst_observed_generation := g\<rparr>) = carries vm s"
  "carries vm (mirror_status_from_infra s infra gen t1 t2 t3) = carries vm s"
  by (simp_all add: carries_def mirror_status_from_infra_def)

lemma emits_set_conditions [intro, simp]: "emits A (set_conditions ctx changes g cs)"
  by (induction ctx changes g cs rule: set_conditions.induct) auto

lemma emits_with_conditions [intro, simp]: "emits A (with_conditions ctx s changes g)"
  unfolding with_conditions_def by auto

lemma emits_mirror_now [intro, simp]: "emits A (mirror_now ctx s infra g)"
  unfolding mirror_now_def by (intro emits_bind) auto

lemma emits_patch_vm_status:
  "(\<And>r. A (Event (api_kind api) name (VmStatus (s\<lparr>vst_conditions := clear_paused (vst_conditions s)\<rparr>)) r))
   \<Longrightarrow> emits A (patch_vm_status api name s)"
  unfolding patch_vm_status_def patch_status_raw_def by (auto intro!: emits_bind emits_err emits_calls)

lemma patch_conditions_harmless:
  "emits (harmless vm) (patch_conditions ctx (vms_in ctx ns) vm (name_any (vm_meta vm)) changes g)"
  unfolding patch_conditions_def
  by (rule emits_bind_yields) (auto dest!: yields_with_conditions intro!: emits_patch_vm_status)

lemmas patch_defs = patch_scheduling_failure_def patch_image_class_mismatch_def patch_infra_build_failure_def patch_placement_invalid_def

lemma emits_get_infra:
  assumes "\<And>k r. A (Event k n Get r)"
  shows "emits A (get_infra apis kind n)"
  by (cases kind) (auto intro!: emits_bind emits_err emits_calls assms)

lemma mirrored_status_harmless:
  "emits (harmless vm) (io_bind (mirror_now ctx (status_or_default vm) infra g)
     (\<lambda>s. io_bind (patch_vm_status (vms_in ctx ns) (name_any (vm_meta vm)) s) (\<lambda>_. io_return x)))"
proof (rule emits_bind_yields)
  show "emits (harmless vm) (io_bind (patch_vm_status (vms_in ctx ns) (name_any (vm_meta vm)) s) (\<lambda>_. io_return x))"
    if "yields (mirror_now ctx (status_or_default vm) infra g) s" for s
    using yields_mirror_now [OF that] by (auto intro!: emits_bind emits_patch_vm_status)
qed simp

lemma mirror_only_harmless:
  "emits (harmless vm) (mirror_only_path ctx (vms_in ctx ns) apis kind vm (name_any (vm_meta vm)))"
  unfolding mirror_only_path_def
  by (rule emits_bind) (auto intro!: emits_get_infra mirrored_status_harmless split: option.split)

lemma emits_fetch_classes:
  "(\<And>n r. A (Event (api_kind api) n Get r)) \<Longrightarrow> emits A (fetch_classes api ns acc)"
  by (induction api ns acc rule: fetch_classes.induct) (auto intro!: emits_bind emits_err emits_calls)

lemma emits_read_store [intro, simp]: "emits A (read_store store)"
  by (auto simp: emits_def read_store_def split: prod.splits option.splits)

lemma duplicate_address_harmless: "emits (harmless vm) (duplicate_address_of ctx api vm cls)"
  unfolding duplicate_address_of_def Let_def
  by (auto intro!: emits_bind emits_err emits_calls emits_fetch_classes split: option.split)

lemma emits_first_infra: "(\<And>k r. A (Event k n Get r)) \<Longrightarrow> emits A (first_infra apis n kinds)"
  by (induction apis n kinds rule: first_infra.induct) (auto intro!: emits_bind emits_get_infra split: option.split)

lemma emits_patch_infra_power:
  assumes "\<And>k r. k \<in> infra_kinds \<Longrightarrow> A (Event k n (MergePatch (MergePower p)) r)"
  shows "emits A (patch_infra_power (infra_apis_in ctx ns) kind n p)"
  by (cases kind) (auto intro!: emits_bind emits_err emits_calls assms)

lemma block_harmless:
  "emits (harmless vm) (block_on_duplicate_address ctx (vms_in ctx ns) (infra_apis_in ctx ns) vm (name_any (vm_meta vm)) g dup)"
proof -
  let ?choose = "\<lambda>existing. case existing of
         None \<Rightarrow> io_return (status_or_default vm, duplicate_message dup)
       | Some (kind, infra) \<Rightarrow>
           io_bind (if imr_desired_power_state infra \<noteq> vs_desired_power_state (vm_spec vm)
               then patch_infra_power (infra_apis_in ctx ns) kind (name_any (vm_meta vm)) (vs_desired_power_state (vm_spec vm)) else io_return ())
           (\<lambda>_. io_bind (mirror_now ctx (status_or_default vm) infra (generation_or_zero (vm_meta vm)))
           (\<lambda>s. io_return (s, duplicate_message dup @ '' This VM is already provisioned: its guest is unchanged, and spec ''
              @ ''changes other than desiredPowerState are withheld until the conflict is resolved.'')))"
  have "emits (harmless vm) (?choose existing)" for existing
    by (auto intro!: emits_bind emits_patch_infra_power split: option.split)
  moreover have "carries vm (fst x)" if "yields (?choose existing) x" for existing x
    using that by (auto elim!: yields_bind dest!: yields_mirror_now split: option.splits)
  ultimately show ?thesis
    unfolding block_on_duplicate_address_def existing_infra_def
    by (intro emits_bind [OF emits_first_infra] emits_bind_yields [where m = "?choose _"])
      (auto split: prod.splits intro!: emits_bind_yields [where f = "patch_vm_status _ _"] emits_patch_vm_status dest!: yields_with_conditions)
qed


subsection \<open>Invariants of a pass\<close>

text \<open>
  A property of traces is kept by a whole pass if the harmless events, the migration decision's outcomes and
  the deletion path keep it.
\<close>

lemma emits_keep:
  "(\<And>tr e. I tr \<Longrightarrow> harmless vm e \<Longrightarrow> I (tr @ [e])) \<Longrightarrow> emits (harmless vm) m \<Longrightarrow> triple I m (\<lambda>_. I)"
  by (rule triple_inv_emits)

lemma emits_delete_existing_infra:
  assumes "\<And>k r. k \<in> infra_kinds \<Longrightarrow> A (Event k n Delete r)"
  shows "emits A (delete_existing_infra (infra_apis_in ctx ns) kind n)"
  by (cases kind) (auto intro!: emits_delete_ignoring_404 assms)

lemma user_data_harmless: "emits (harmless vm) (resolve_rendered_user_data ctx ns n vm)"
  unfolding resolve_rendered_user_data_def resolve_secret_data_def resolve_configmap_data_def
  by (auto intro!: emits_bind emits_err emits_calls split: option.split sum.split)

lemma place_keeps:
  assumes keep: "\<And>tr e. I tr \<Longrightarrow> harmless vm e \<Longrightarrow> I (tr @ [e])"
    and prov: "\<And>p kind. triple I (provision ctx ns vm cls img d p kind) (\<lambda>_. I)"
    and del: "\<And>kind. triple I (delete_existing_infra (infra_apis_in ctx ns) kind (name_any (vm_meta vm))) (\<lambda>_. I)"
  shows "triple I (place ctx ns vm cls img ps d) (\<lambda>_. I)"
proof -
  have patch: "triple I (io_bind (patch_conditions ctx (vms_in ctx ns) vm (name_any (vm_meta vm)) changes g) (\<lambda>_. io_return x)) (\<lambda>_. I)"
    for changes g and x :: action
    by (rule emits_keep [where I = I and vm = vm, OF keep]) (auto intro!: emits_bind patch_conditions_harmless)
  have mirror: "triple I (mirror_only_path ctx (vms_in ctx ns) apis kind vm (name_any (vm_meta vm))) (\<lambda>_. I)" for apis kind
    by (rule emits_keep [where I = I and vm = vm, OF keep mirror_only_harmless])
  show ?thesis
    unfolding place_def Let_def patch_defs
    by (auto intro!: triple_throw patch mirror prov triple_inv_bind [OF del] split: option.split migration_action.split)
qed

lemma reconcile_live_keeps:
  assumes keep: "\<And>tr e. I tr \<Longrightarrow> harmless vm e \<Longrightarrow> I (tr @ [e])"
    and place: "\<And>cls img ps d. image_class_mismatch (vcs_tpm_enabled (vc_spec cls)) (install_mode_of img)
        (vi_first_boot_sealing (vmi_spec img) \<noteq> None) (ctx_first_boot_sealing ctx) = None \<Longrightarrow> triple I (place ctx ns vm cls img ps d) (\<lambda>_. I)"
  shows "triple I (reconcile_live ctx ns vm) (\<lambda>_. I)"
proof -
  note h = emits_keep [where I = I and vm = vm, OF keep]
  have patch: "triple I (io_bind (patch_conditions ctx (vms_in ctx ns) vm (name_any (vm_meta vm)) changes g) (\<lambda>_. io_return x)) (\<lambda>_. I)"
    for changes g and x :: action
    by (rule h) (auto intro!: emits_bind patch_conditions_harmless)
  have block: "triple I (io_bind (block_on_duplicate_address ctx (vms_in ctx ns) (infra_apis_in ctx ns) vm (name_any (vm_meta vm)) g dup)
      (\<lambda>_. io_return x)) (\<lambda>_. I)" for g dup and x :: action
    by (rule h) (auto intro!: emits_bind block_harmless)
  have dup: "triple I (if b then io_return None else duplicate_address_of ctx api vm cls) (\<lambda>_. I)" for b api cls
    by (rule h) (auto intro!: duplicate_address_harmless)
  have reads: "triple I (io_err Kube (kget api n)) (\<lambda>_. I)" "triple I (io_err Kube (klist api sel)) (\<lambda>_. I)"
    for n sel api
    by (rule h, auto intro!: emits_err emits_calls)+
  have fin: "triple I (io_err Sdk (ensure_finalizer (vms_in ctx ns) (vm_meta vm) VM_FINALIZER)) (\<lambda>_. I)"
    by (rule h) (auto intro!: emits_err emits_ensure_finalizer_with)
  have admit: "triple I (io_bind (if b then io_return None else duplicate_address_of ctx (all_classes ctx) vm cls) f) (\<lambda>_. I)"
    if "\<And>x. triple I (f x) (\<lambda>_. I)" for b cls and f :: "duplicate_address option \<Rightarrow> ('a, error, action) io"
    by (rule triple_inv_bind [OF dup that])
  show ?thesis
    unfolding reconcile_live_def Let_def patch_defs
    by (rule triple_inv_bind [OF fin] triple_inv_bind [OF reads(1)] triple_inv_bind [OF reads(2)])+
      (auto simp del: split_paired_All intro!: patch block place admit triple_inv_bind [OF reads(2)]
        split del: if_split split: option.split sum.split)
qed

lemma reconcile_vm_branches:
  assumes keep: "\<And>tr e. I tr \<Longrightarrow> harmless vm e \<Longrightarrow> I (tr @ [e])"
    and live: "\<And>ns. om_deletion_timestamp (vm_meta vm) = None \<Longrightarrow> triple I (reconcile_live ctx ns vm) (\<lambda>_. I)"
    and final: "\<And>ns. om_deletion_timestamp (vm_meta vm) \<noteq> None \<Longrightarrow>
        triple I (finalize_vm (vms_in ctx ns) (infra_apis_in ctx ns) vm) (\<lambda>_. I)"
  shows "triple I (reconcile_vm ctx vm) (\<lambda>_. I)"
proof -
  have "emits (harmless vm) (io_bind (paused_status ctx vm g) (\<lambda>s. io_bind (patch_status_raw (vms_in ctx ns) (name_any (vm_meta vm)) s)
      (\<lambda>_. io_return x)))" for g ns and x :: action
  proof (rule emits_bind_yields)
    show "emits (harmless vm) (io_bind (patch_status_raw (vms_in ctx ns) (name_any (vm_meta vm)) s) (\<lambda>_. io_return x))"
      if "yields (paused_status ctx vm g) s" for s
      using that unfolding paused_status_def patch_status_raw_def
      by (auto dest!: yields_with_conditions intro!: emits_bind emits_err emits_calls)
  qed (simp add: paused_status_def)
  then have pause: "triple I (io_bind (paused_status ctx vm g) (\<lambda>s. io_bind (patch_status_raw (vms_in ctx ns) (name_any (vm_meta vm)) s)
      (\<lambda>_. io_return x))) (\<lambda>_. I)" for g ns and x :: action
    by (intro emits_keep [where I = I and vm = vm]) (auto intro: keep)
  show ?thesis
    unfolding reconcile_vm_def
    by (auto intro!: triple_throw pause final live split: option.split)
qed

lemma reconcile_vm_keeps:
  assumes keep: "\<And>tr e. I tr \<Longrightarrow> harmless vm e \<Longrightarrow> I (tr @ [e])"
    and place: "\<And>ns cls img ps d. om_deletion_timestamp (vm_meta vm) = None \<Longrightarrow> triple I (place ctx ns vm cls img ps d) (\<lambda>_. I)"
    and final: "\<And>ns. om_deletion_timestamp (vm_meta vm) \<noteq> None \<Longrightarrow>
        triple I (finalize_vm (vms_in ctx ns) (infra_apis_in ctx ns) vm) (\<lambda>_. I)"
  shows "triple I (reconcile_vm ctx vm) (\<lambda>_. I)"
  by (rule reconcile_vm_branches) (auto intro: keep place final reconcile_live_keeps [where I = I and vm = vm])


subsection \<open>A machine's own objects\<close>

text \<open>An event that reads, or that changes this machine's own object or a machine object of its name.\<close>

definition own_event :: "virtual_machine \<Rightarrow> event \<Rightarrow> bool" where
  "own_event vm e = (case ev_verb e of
     Get \<Rightarrow> True
   | ListBy _ \<Rightarrow> True
   | Apply \<Rightarrow> ev_kind e \<in> infra_kinds \<and> ev_name e = name_any (vm_meta vm)
   | Delete \<Rightarrow> ev_kind e \<in> infra_kinds \<and> ev_name e = name_any (vm_meta vm)
   | VmStatus _ \<Rightarrow> ev_kind e = KVirtualMachine \<and> ev_name e = name_any (vm_meta vm)
   | MergePatch (MergeFinalizers _) \<Rightarrow> ev_kind e = KVirtualMachine \<and> ev_name e = name_any (vm_meta vm)
   | MergePatch (MergePower p) \<Rightarrow> ev_kind e \<in> infra_kinds \<and> ev_name e = name_any (vm_meta vm)
   | _ \<Rightarrow> False)"

lemma own_event_simps [simp]:
  "own_event vm (Event k n Get a)" "own_event vm (Event k n (ListBy sel) a)"
  "own_event vm (Event k n Apply a) \<longleftrightarrow> k \<in> infra_kinds \<and> n = name_any (vm_meta vm)"
  "own_event vm (Event k n Delete a) \<longleftrightarrow> k \<in> infra_kinds \<and> n = name_any (vm_meta vm)"
  "own_event vm (Event k n (VmStatus s) a) \<longleftrightarrow> k = KVirtualMachine \<and> n = name_any (vm_meta vm)"
  "own_event vm (Event k n (MergePatch (MergeFinalizers fs)) a) \<longleftrightarrow> k = KVirtualMachine \<and> n = name_any (vm_meta vm)"
  by (simp_all add: own_event_def)

lemma harmless_own: "harmless vm e \<Longrightarrow> own_event vm e"
  by (cases e) (auto simp: harmless_def own_event_def split: verb.splits merge_patch.splits)

lemma emits_build_and_apply:
  "(\<And>r. A (Event (api_kind api) n Apply r)) \<Longrightarrow> emits A (build_and_apply rd api n built)"
  unfolding build_and_apply_def server_side_apply_def
  by (auto intro!: emits_bind emits_err emits_calls split: sum.split)

lemma emits_apply_infra:
  assumes "\<And>k r. k \<in> infra_kinds \<Longrightarrow> A (Event k (name_any (vm_meta vm)) Apply r)"
  shows "emits A (apply_infra (infra_apis_in ctx ns) kind vm cls img d p ud)"
  by (cases kind) (auto intro!: emits_build_and_apply assms)

lemma emits_record_applied:
  assumes "\<And>s r. A (Event KVirtualMachine (name_any (vm_meta vm)) (VmStatus s) r)"
  shows "emits A (record_applied ctx (vms_in ctx ns) ns' vm cls d kind m)"
  unfolding record_applied_def Let_def by (auto intro!: emits_bind emits_patch_vm_status assms)

lemma emits_infra_state_of: "(\<And>r. A (Event (api_kind api) n Get r)) \<Longrightarrow> emits A (infra_state_of meta api n)"
  unfolding infra_state_of_def by (auto intro!: emits_bind emits_attempt emits_calls)

lemma emits_delete_kinds:
  assumes "\<And>k r. k \<in> infra_kinds \<Longrightarrow> A (Event k n Delete r)"
  shows "emits A (delete_kinds (infra_apis_in ctx ns) n kinds failed)"
  by (induction kinds arbitrary: failed)
    (auto intro!: emits_bind emits_attempt emits_delete_existing_infra assms)

lemma emits_finalize_vm:
  assumes "\<And>k r. A (Event k (name_any (vm_meta vm)) Get r)" and "\<And>k r. k \<in> infra_kinds \<Longrightarrow> A (Event k (name_any (vm_meta vm)) Delete r)"
    and "\<And>fs r. A (Event KVirtualMachine (name_any (vm_meta vm)) (MergePatch (MergeFinalizers fs)) r)"
  shows "emits A (finalize_vm (vms_in ctx ns) (infra_apis_in ctx ns) vm)"
  unfolding finalize_vm_def Let_def
  by (auto intro!: emits_bind emits_infra_state_of emits_delete_kinds emits_err emits_remove_finalizer assms)

lemma provision_keeps:
  assumes keep: "\<And>tr e. I tr \<Longrightarrow> harmless vm e \<Longrightarrow> I (tr @ [e])"
    and app: "\<And>ud. triple I (apply_infra (infra_apis_in ctx ns) kind vm cls img d p ud) (\<lambda>r. case r of Inr (Inr m) \<Rightarrow> J m | _ \<Rightarrow> I)"
    and rec: "\<And>m. triple (J m) (record_applied ctx (vms_in ctx ns) ns vm cls d kind m) (\<lambda>_. I)"
  shows "triple I (provision ctx ns vm cls img d p kind) (\<lambda>_. I)"
proof -
  have failed: "triple I (io_bind (patch_infra_build_failure ctx (vms_in ctx ns) vm (name_any (vm_meta vm)) g detail) (\<lambda>_. io_return x)) (\<lambda>_. I)"
    for g detail and x :: action
    unfolding patch_defs
    by (intro emits_keep [where I = I and vm = vm]) (auto intro!: emits_bind patch_conditions_harmless intro: keep)
  have ud: "triple I (io_attempt (resolve_rendered_user_data ctx ns (name_any (vm_meta vm)) vm)) (\<lambda>_. I)"
    by (intro emits_keep [where I = I and vm = vm]) (auto intro!: emits_attempt user_data_harmless intro: keep)
  have built: "triple (case applied of Inl _ \<Rightarrow> I | Inr m \<Rightarrow> J m) (case applied of Inl detail \<Rightarrow>
       io_bind (patch_infra_build_failure ctx (vms_in ctx ns) vm (name_any (vm_meta vm)) (generation_or_zero (vm_meta vm)) detail)
         (\<lambda>_. io_return requeue_on_error) | Inr m \<Rightarrow> record_applied ctx (vms_in ctx ns) ns vm cls d kind m) (\<lambda>_. I)" for applied
    by (cases applied) (simp_all add: failed rec)
  have "triple I (io_bind (apply_infra (infra_apis_in ctx ns) kind vm cls img d p ud) (\<lambda>applied. case applied of Inl detail \<Rightarrow>
       io_bind (patch_infra_build_failure ctx (vms_in ctx ns) vm (name_any (vm_meta vm)) (generation_or_zero (vm_meta vm)) detail)
         (\<lambda>_. io_return requeue_on_error) | Inr m \<Rightarrow> record_applied ctx (vms_in ctx ns) ns vm cls d kind m)) (\<lambda>_. I)" for ud
    by (rule triple_bind [OF app]) (use built in auto)
  then show ?thesis
    unfolding provision_def Let_def
    by (intro triple_inv_bind [OF ud]) (auto intro: failed split: sum.split)
qed



subsection \<open>Placement and held addresses\<close>

definition applied :: "virtual_machine \<Rightarrow> event \<Rightarrow> bool" where
  "applied vm e = (ev_kind e \<in> infra_kinds \<and> ev_name e = name_any (vm_meta vm) \<and> ev_verb e = Apply \<and> ev_answer e = Done)"

definition changes_placement :: "virtual_machine \<Rightarrow> event \<Rightarrow> bool" where
  "changes_placement vm e = (case ev_verb e of VmStatus s \<Rightarrow> \<not> carries vm s | _ \<Rightarrow> False)"

lemma changes_placement_other [simp]:
  "\<not> changes_placement vm (Event k n Get a)" "\<not> changes_placement vm (Event k n Delete a)" "\<not> changes_placement vm (Event k n Apply a)"
  "\<not> changes_placement vm (Event k n (MergePatch m) a)"
  by (simp_all add: changes_placement_def)

text \<open>Every event that changes the placement comes after an apply that the server accepted.\<close>

definition recorded_after_apply :: "virtual_machine \<Rightarrow> event list \<Rightarrow> bool" where
  "recorded_after_apply vm tr = list_all (\<lambda>i. changes_placement vm (tr ! i) \<longrightarrow> list_ex (applied vm) (take i tr)) [0..<length tr]"

lemma recorded_after_apply_snoc:
  "recorded_after_apply vm (tr @ [e]) \<longleftrightarrow>
     recorded_after_apply vm tr \<and> (changes_placement vm e \<longrightarrow> list_ex (applied vm) tr)"
proof -
  have "list_all (\<lambda>i. changes_placement vm ((tr @ [e]) ! i) \<longrightarrow> list_ex (applied vm) (take i (tr @ [e]))) [0..<length tr]
      = recorded_after_apply vm tr"
    unfolding recorded_after_apply_def by (rule list.pred_cong) (auto simp: nth_append)
  then show ?thesis
    by (simp add: recorded_after_apply_def)
qed

lemma harmless_keeps_placement: "harmless vm e \<Longrightarrow> \<not> changes_placement vm e"
  by (auto simp: harmless_def changes_placement_def split: verb.splits)

lemma build_and_apply_records:
  assumes "api_kind api \<in> infra_kinds" and "n = name_any (vm_meta vm)"
  shows "triple (recorded_after_apply vm) (build_and_apply rd api n built)
    (\<lambda>r tr. recorded_after_apply vm tr \<and> (\<forall>m. r = Inr (Inr m) \<longrightarrow> list_ex (applied vm) tr))"
proof (cases built)
  case (Inr x)
  have "triple (recorded_after_apply vm) (io_err Sdk (server_side_apply api FIELD_MANAGER_CONTROLLER n x))
      (\<lambda>r tr. recorded_after_apply vm tr \<and> (\<forall>m. r = Inr m \<longrightarrow> list_ex (applied vm) tr))"
    unfolding server_side_apply_def kapply_def
    by (intro triple_err triple_request)
      (auto simp: recorded_after_apply_snoc applied_def answer_of_def assms split: sum.splits)
  with Inr show ?thesis
    unfolding build_and_apply_def by (auto elim!: triple_bind intro: triple_return)
qed (auto simp: build_and_apply_def intro: triple_return)

lemma apply_infra_records:
  "triple (recorded_after_apply vm) (apply_infra (infra_apis_in ctx ns) kind vm cls img d p ud)
    (\<lambda>r tr. recorded_after_apply vm tr \<and> (\<forall>m. r = Inr (Inr m) \<longrightarrow> list_ex (applied vm) tr))"
  by (cases kind; simp only: apply_infra.simps; rule build_and_apply_records) simp_all

text \<open>
  (C14) Nothing is recorded that was not built: in the trace of a pass, every status that changes the machine's
  placement, its infrastructure reference or its held addresses comes after an apply of one of its
  infrastructure objects that the server accepted.
\<close>

theorem placement_recorded_after_apply: "recorded_after_apply vm (trace_of (reconcile_vm ctx vm) w)"
proof -
  let ?I = "recorded_after_apply vm"
  have app: "triple ?I (apply_infra (infra_apis_in ctx ns) kind vm cls img d p ud)
      (\<lambda>r. case r of Inr (Inr m) \<Rightarrow> (\<lambda>tr. ?I tr \<and> list_ex (applied vm) tr) | _ \<Rightarrow> ?I)" for ns kind cls img d p ud
    by (rule triple_conseq [OF apply_infra_records]) (auto split: sum.split)
  have rec: "triple (\<lambda>tr. ?I tr \<and> list_ex (applied vm) tr) (record_applied ctx (vms_in ctx ns) ns vm cls d kind m) (\<lambda>_. ?I)"
    for ns cls d kind m
    by (rule triple_conseq [OF triple_inv_emits [where I = "\<lambda>tr. ?I tr \<and> list_ex (applied vm) tr",
          OF emits_record_applied [where A = "\<lambda>_. True"]]])
      (auto simp: recorded_after_apply_snoc)
  have prov: "triple ?I (provision ctx ns vm cls img d p kind) (\<lambda>_. ?I)" for ns cls img d p kind
    by (rule provision_keeps [OF _ app rec]) (simp add: recorded_after_apply_snoc harmless_keeps_placement)
  have quiet: "emits (\<lambda>e. \<not> changes_placement vm e) m \<Longrightarrow> triple ?I m (\<lambda>_. ?I)" for m :: "('a, error, 'b) io"
    by (erule triple_inv_emits) (simp add: recorded_after_apply_snoc)
  have "triple ?I (reconcile_vm ctx vm) (\<lambda>_. ?I)"
  proof (rule reconcile_vm_keeps)
    show "triple ?I (place ctx ns vm cls img ps d) (\<lambda>_. ?I)" for ns cls img ps d
      by (rule place_keeps [OF _ prov])
        (auto intro!: quiet emits_delete_existing_infra simp: recorded_after_apply_snoc harmless_keeps_placement)
    show "triple ?I (finalize_vm (vms_in ctx ns) (infra_apis_in ctx ns) vm) (\<lambda>_. ?I)" for ns
      by (auto intro!: quiet emits_finalize_vm)
  qed (simp add: recorded_after_apply_snoc harmless_keeps_placement)
  then show ?thesis
    by (rule triple_trace [OF triple_conseq]) (simp_all add: recorded_after_apply_def)
qed


subsection \<open>Deletion\<close>

definition drops_vm_finalizer :: "virtual_machine \<Rightarrow> event \<Rightarrow> bool" where
  "drops_vm_finalizer vm e = (case ev_verb e of
     MergePatch (MergeFinalizers fs) \<Rightarrow> ev_kind e = KVirtualMachine \<and> VM_FINALIZER \<notin> set fs
   | _ \<Rightarrow> False)"

definition seen_gone :: "virtual_machine \<Rightarrow> event set" where
  "seen_gone vm = (\<lambda>k. Event k (name_any (vm_meta vm)) Get Gone) ` infra_kinds"

definition vm_release_order :: "virtual_machine \<Rightarrow> event list \<Rightarrow> bool" where
  "vm_release_order vm tr \<longleftrightarrow>
     (list_ex (drops_vm_finalizer vm) tr \<longrightarrow> om_deletion_timestamp (vm_meta vm) \<noteq> None \<and> seen_gone vm \<subseteq> set tr)"

lemma release_order_grows: "vm_release_order vm tr \<Longrightarrow> \<not> drops_vm_finalizer vm e \<Longrightarrow> vm_release_order vm (tr @ [e])"
  by (auto simp: vm_release_order_def)

lemma drops_other [simp]:
  "\<not> drops_vm_finalizer vm (Event k n Get a)" "\<not> drops_vm_finalizer vm (Event k n Delete a)"
  "\<not> drops_vm_finalizer vm (Event k n Apply a)" "\<not> drops_vm_finalizer vm (Event k n (VmStatus s) a)"
  by (simp_all add: drops_vm_finalizer_def)

lemma harmless_drops_nothing: "harmless vm e \<Longrightarrow> \<not> drops_vm_finalizer vm e"
  by (auto simp: harmless_def drops_vm_finalizer_def split: verb.splits merge_patch.splits)

text \<open>Reading an object's state: \<^verbatim>\<open>Absent\<close> only when the server has said so.\<close>

lemma infra_state_of_absent:
  "triple (\<lambda>tr. vm_release_order vm tr \<and> G \<subseteq> set tr) (infra_state_of meta api n)
     (\<lambda>r tr. vm_release_order vm tr \<and> (if r = Inr Absent then insert (Event (api_kind api) n Get Gone) G else G) \<subseteq> set tr)"
proof -
  have "triple (\<lambda>tr. vm_release_order vm tr \<and> G \<subseteq> set tr) (io_attempt (kget_opt api n))
     (\<lambda>r tr. vm_release_order vm tr \<and> (if r = Inr (Inr None) then insert (Event (api_kind api) n Get Gone) G else G) \<subseteq> set tr)"
    unfolding kget_opt_def
    by (intro triple_attempt triple_request) (auto simp: release_order_grows answer_opt_def)
  then show ?thesis
    unfolding infra_state_of_def
    by (rule triple_bind) (auto intro!: triple_return split: sum.splits option.splits if_splits)
qed

lemma delete_kinds_ordered:
  "triple (\<lambda>tr. vm_release_order vm tr \<and> G \<subseteq> set tr) (delete_kinds (infra_apis_in ctx ns) n kinds failed)
     (\<lambda>_ tr. vm_release_order vm tr \<and> G \<subseteq> set tr)"
  by (rule triple_inv_emits [OF emits_delete_kinds [where A = "\<lambda>e. \<not> drops_vm_finalizer vm e"]]) (auto simp: release_order_grows)

lemma remove_finalizer_ordered:
  assumes "om_deletion_timestamp (vm_meta vm) \<noteq> None"
  shows "triple (\<lambda>tr. vm_release_order vm tr \<and> seen_gone vm \<subseteq> set tr)
    (io_bind (io_err Sdk (remove_finalizer api (vm_meta vm) VM_FINALIZER)) (\<lambda>_. io_return x)) (\<lambda>_. vm_release_order vm)"
  by (rule triple_emits [where A = "\<lambda>_. True"])
    (use assms in \<open>auto intro!: emits_bind emits_err emits_remove_finalizer simp: vm_release_order_def\<close>)

lemma plan_finalize_removes:
  "fp_remove_finalizer (plan_finalize states) = (\<forall>(k, s) \<in> set states. s = Absent)"
  by (auto simp: plan_finalize_def list_all_iff)

lemma finalize_vm_ordered:
  assumes "om_deletion_timestamp (vm_meta vm) \<noteq> None"
  shows "triple (vm_release_order vm) (finalize_vm (vms_in ctx ns) (infra_apis_in ctx ns) vm) (\<lambda>_. vm_release_order vm)"
proof -
  let ?n = "name_any (vm_meta vm)"
  let ?g = "\<lambda>k s. if s = Absent then {Event k ?n Get Gone} else {}"
  have read: "triple (\<lambda>tr. vm_release_order vm tr \<and> G \<subseteq> set tr) (io_bind (infra_state_of meta api ?n) f) (\<lambda>_. vm_release_order vm)"
    if "\<And>s. triple (\<lambda>tr. vm_release_order vm tr \<and> G \<union> ?g (api_kind api) s \<subseteq> set tr) (f s) (\<lambda>_. vm_release_order vm)"
    for meta G f and api :: "('a, 'o, 's) api"
    by (rule triple_bind [OF infra_state_of_absent [where G = G]]) (auto intro!: triple_conseq [OF that])
  have rest: "triple (\<lambda>tr. vm_release_order vm tr \<and> G \<subseteq> set tr)
      (io_bind (delete_kinds (infra_apis_in ctx ns) ?n kinds False) (\<lambda>failed.
        if b \<and> \<not> failed then io_bind (io_err Sdk (remove_finalizer (vms_in ctx ns) (vm_meta vm) VM_FINALIZER)) (\<lambda>_. io_return x)
        else io_return y)) (\<lambda>_. vm_release_order vm)"
    if "b \<longrightarrow> seen_gone vm \<subseteq> G" for G kinds b and x y :: action
    by (rule triple_bind [OF delete_kinds_ordered [where G = G]])
      (use that in \<open>auto intro!: triple_return triple_conseq [OF remove_finalizer_ordered [OF assms]]\<close>)
  have "triple (\<lambda>tr. vm_release_order vm tr \<and> {} \<subseteq> set tr) (finalize_vm (vms_in ctx ns) (infra_apis_in ctx ns) vm) (\<lambda>_. vm_release_order vm)"
    unfolding finalize_vm_def Let_def
    by (intro read rest) (simp add: plan_finalize_removes seen_gone_def infra_kinds_def)
  then show ?thesis
    by simp
qed

text \<open>
  (C12) A deleted machine leaves nothing behind: if a pass asks to drop the machine's finalizer, then the
  machine is being deleted and in this very pass the server has answered for each of the four infrastructure
  kinds that no object of the machine's name exists, whatever it answered otherwise.
\<close>

theorem vm_finalizer_dropped_last:
  assumes "list_ex (drops_vm_finalizer vm) (trace_of (reconcile_vm ctx vm) w)"
  shows "om_deletion_timestamp (vm_meta vm) \<noteq> None \<and> seen_gone vm \<subseteq> set (trace_of (reconcile_vm ctx vm) w)"
proof -
  let ?I = "vm_release_order vm"
  have quiet: "emits (\<lambda>e. \<not> drops_vm_finalizer vm e) m \<Longrightarrow> triple ?I m (\<lambda>_. ?I)" for m :: "('a, error, 'b) io"
    by (erule triple_inv_emits) (simp add: release_order_grows)
  have prov: "triple ?I (provision ctx ns vm cls img d p kind) (\<lambda>_. ?I)" for ns cls img d p kind
  proof (rule provision_keeps [where J = "\<lambda>_. ?I"])
    show "triple ?I (apply_infra (infra_apis_in ctx ns) kind vm cls img d p ud) (\<lambda>r. case r of Inr (Inr m) \<Rightarrow> ?I | _ \<Rightarrow> ?I)" for ud
      by (rule triple_conseq [OF quiet [OF emits_apply_infra]]) (auto split: sum.split)
  qed (auto intro!: quiet emits_record_applied simp: release_order_grows harmless_drops_nothing)
  have "triple ?I (reconcile_vm ctx vm) (\<lambda>_. ?I)"
  proof (rule reconcile_vm_keeps)
    show "triple ?I (place ctx ns vm cls img ps d) (\<lambda>_. ?I)" for ns cls img ps d
      by (rule place_keeps [OF _ prov])
        (auto intro!: quiet emits_delete_existing_infra simp: release_order_grows harmless_drops_nothing)
  qed (auto simp: release_order_grows harmless_drops_nothing intro: finalize_vm_ordered)
  then have "?I (trace_of (reconcile_vm ctx vm) w)"
    by (rule triple_trace [OF triple_conseq]) (auto simp: vm_release_order_def)
  with assms show ?thesis
    by (simp add: vm_release_order_def)
qed


lemma absent_state:
  assumes "\<And>w. fst (api_get_opt api n w) = Inr None"
  obtains s' where "infra_state_of meta api n s = (Inr Absent, s')"
  by (cases s) (simp add: infra_state_of_def io_bind_def io_attempt_def kget_opt_def request_def io_return_def case_prod_unfold assms)

lemma finalize_absent:
  assumes "\<And>w. fst (api_get_opt (ia_vsphere apis) (name_any (vm_meta vm)) w) = Inr None"
    and "\<And>w. fst (api_get_opt (ia_libvirt apis) (name_any (vm_meta vm)) w) = Inr None"
    and "\<And>w. fst (api_get_opt (ia_cloud_hypervisor apis) (name_any (vm_meta vm)) w) = Inr None"
    and "\<And>w. fst (api_get_opt (ia_proxmox apis) (name_any (vm_meta vm)) w) = Inr None"
  obtains w1 tr where "finalize_vm api apis vm s
    = io_bind (io_err Sdk (remove_finalizer api (vm_meta vm) VM_FINALIZER)) (\<lambda>_. io_return requeue_default) (w1, tr)"
proof -
  obtain s1 where s1: "infra_state_of vsm_meta (ia_vsphere apis) (name_any (vm_meta vm)) s = (Inr Absent, s1)"
    using absent_state [OF assms(1)] .
  obtain s2 where s2: "infra_state_of lm_meta (ia_libvirt apis) (name_any (vm_meta vm)) s1 = (Inr Absent, s2)"
    using absent_state [OF assms(2)] .
  obtain s3 where s3: "infra_state_of chm_meta (ia_cloud_hypervisor apis) (name_any (vm_meta vm)) s2 = (Inr Absent, s3)"
    using absent_state [OF assms(3)] .
  obtain s4 where s4: "infra_state_of pm_meta (ia_proxmox apis) (name_any (vm_meta vm)) s3 = (Inr Absent, s4)"
    using absent_state [OF assms(4)] .
  have "finalize_vm api apis vm s
    = io_bind (io_err Sdk (remove_finalizer api (vm_meta vm) VM_FINALIZER)) (\<lambda>_. io_return requeue_default) (fst s4, snd s4)"
    by (simp add: finalize_vm_def Let_def plan_finalize_def io_bind_def s1 s2 s3 s4 io_return_def)
  then show thesis
    by (rule that)
qed

text \<open>
  (C15) Deletion comes to an end: once no infrastructure object of the machine's name exists and the server
  accepts patches of the machine, one pass over a deleted, unpaused machine succeeds and its last request is
  the patch that drops the controller's finalizer and keeps every other.
\<close>

theorem vm_deletion_completes:
  assumes "om_namespace (vm_meta vm) = Some ns" and "\<not> vs_paused (vm_spec vm)" and "om_deletion_timestamp (vm_meta vm) \<noteq> None"
    and "VM_FINALIZER \<in> set (meta_finalizers (vm_meta vm))"
    and vsphere: "\<And>w. fst (api_get_opt (cl_vsphere (ctx_client ctx) ns) (name_any (vm_meta vm)) w) = Inr None"
    and libvirt: "\<And>w. fst (api_get_opt (cl_libvirt (ctx_client ctx) ns) (name_any (vm_meta vm)) w) = Inr None"
    and cloud_hypervisor: "\<And>w. fst (api_get_opt (cl_cloud_hypervisor (ctx_client ctx) ns) (name_any (vm_meta vm)) w) = Inr None"
    and proxmox: "\<And>w. fst (api_get_opt (cl_proxmox (ctx_client ctx) ns) (name_any (vm_meta vm)) w) = Inr None"
    and patch: "\<And>p w. \<not> isl (fst (api_patch (cl_vms (ctx_client ctx) ns) (name_any (vm_meta vm)) p w))"
  shows "result_of (reconcile_vm ctx vm) w = Inr requeue_default
    \<and> last (trace_of (reconcile_vm ctx vm) w) = Event KVirtualMachine (name_any (vm_meta vm))
        (MergePatch (MergeFinalizers (filter (\<lambda>f. f \<noteq> VM_FINALIZER) (meta_finalizers (vm_meta vm))))) Done"
proof -
  have gone: "fst (api_get_opt (ia_vsphere (infra_apis_in ctx ns)) (name_any (vm_meta vm)) w) = Inr None"
    "fst (api_get_opt (ia_libvirt (infra_apis_in ctx ns)) (name_any (vm_meta vm)) w) = Inr None"
    "fst (api_get_opt (ia_cloud_hypervisor (infra_apis_in ctx ns)) (name_any (vm_meta vm)) w) = Inr None"
    "fst (api_get_opt (ia_proxmox (infra_apis_in ctx ns)) (name_any (vm_meta vm)) w) = Inr None" for w
    using vsphere libvirt cloud_hypervisor proxmox by (simp_all add: infra_apis_in_def)
  have drop: "finalizer_list_without (meta_finalizers (vm_meta vm)) VM_FINALIZER
      = Some (filter (\<lambda>f. f \<noteq> VM_FINALIZER) (meta_finalizers (vm_meta vm)))"
    using length_filter_less [OF assms(4), of "\<lambda>f. f \<noteq> VM_FINALIZER"] by (simp add: finalizer_list_without_def Let_def)
  have sent: "\<exists>x. fst (api_patch (vms_in ctx ns) (name_any (vm_meta vm)) p w) = Inr x" for p w
    using patch [of p w] by (cases "fst (api_patch (cl_vms (ctx_client ctx) ns) (name_any (vm_meta vm)) p w)") (auto simp: vms_in_def)
  obtain w1 tr where "finalize_vm (vms_in ctx ns) (infra_apis_in ctx ns) vm (w, []) = io_bind (io_err Sdk
      (remove_finalizer (vms_in ctx ns) (vm_meta vm) VM_FINALIZER)) (\<lambda>_. io_return requeue_default) (w1, tr)"
    using finalize_absent [OF gone] .
  with assms(1-3) have run: "reconcile_vm ctx vm (w, []) = io_bind (io_err Sdk (remove_finalizer (vms_in ctx ns) (vm_meta vm) VM_FINALIZER))
      (\<lambda>_. io_return requeue_default) (w1, tr)"
    by (simp add: reconcile_vm_def)
  obtain x where x: "fst (api_patch (vms_in ctx ns) (name_any (vm_meta vm))
      (Merge (MergeFinalizers (filter (\<lambda>f. f \<noteq> VM_FINALIZER) (meta_finalizers (vm_meta vm))))) w1) = Inr x"
    using sent by blast
  have "result_of (reconcile_vm ctx vm) w = Inr requeue_default
      \<and> trace_of (reconcile_vm ctx vm) w = tr @ [Event KVirtualMachine (name_any (vm_meta vm))
        (MergePatch (MergeFinalizers (filter (\<lambda>f. f \<noteq> VM_FINALIZER) (meta_finalizers (vm_meta vm))))) Done]"
    by (simp add: result_of_def trace_of_def run remove_finalizer_def drop io_bind_def io_err_eq kmerge_def run_request x io_return_def
        answer_of_def)
  then show ?thesis
    by simp
qed

subsection \<open>Machines that are left alone\<close>

lemma refused_live_harmless:
  assumes "\<And>cls img. yields (kget (all_classes ctx) (lor_name (vs_class_ref (vm_spec vm)))) cls \<Longrightarrow>
      yields (kget (all_images ctx) (lor_name (vs_image_ref (vm_spec vm)))) img \<Longrightarrow>
      image_class_mismatch (vcs_tpm_enabled (vc_spec cls)) (install_mode_of img)
        (vi_first_boot_sealing (vmi_spec img) \<noteq> None) (ctx_first_boot_sealing ctx) \<noteq> None"
  shows "emits (harmless vm) (reconcile_live ctx ns vm)"
  unfolding reconcile_live_def Let_def patch_defs
proof (rule emits_bind [OF emits_err [OF emits_ensure_finalizer_with]], simp, rule emits_bind_yields [OF emits_err [OF emits_calls(1)]], simp,
    rule emits_bind_yields [OF emits_err [OF emits_calls(1)]], simp, rule emits_bind [OF emits_err [OF emits_calls(3)]], simp,
    rule emits_bind [OF emits_err [OF emits_calls(3)]], simp, goal_cases)
  case (1 u cls img providers siblings)
  from assms [OF yields_err yields_err, OF 1(1,2)] obtain refusal where
    "image_class_mismatch (vcs_tpm_enabled (vc_spec cls)) (install_mode_of img)
      (vi_first_boot_sealing (vmi_spec img) \<noteq> None) (ctx_first_boot_sealing ctx) = Some refusal"
    by blast
  then show ?case
    by (auto intro!: emits_bind patch_conditions_harmless)
qed

text \<open>
  (C16) A refused combination of class and image never reaches a machine: if the pairing of every class and
  image that the server can return is refused, a pass over a machine that is not being deleted only reads,
  keeps the finalizer, writes conditions and at most sets the power state that the user asked for.
\<close>

theorem refused_pairing_is_harmless:
  assumes "om_deletion_timestamp (vm_meta vm) = None"
    and "\<And>wc wi cls img. fst (api_get (all_classes ctx) (lor_name (vs_class_ref (vm_spec vm))) wc) = Inr cls \<Longrightarrow>
      fst (api_get (all_images ctx) (lor_name (vs_image_ref (vm_spec vm))) wi) = Inr img \<Longrightarrow>
      image_class_mismatch (vcs_tpm_enabled (vc_spec cls)) (install_mode_of img)
        (vi_first_boot_sealing (vmi_spec img) \<noteq> None) (ctx_first_boot_sealing ctx) \<noteq> None"
  shows "list_all (harmless vm) (trace_of (reconcile_vm ctx vm) w)"
proof -
  have live: "triple (list_all (harmless vm)) (reconcile_live ctx ns vm) (\<lambda>_. list_all (harmless vm))" for ns
    by (rule triple_list_all [OF refused_live_harmless]) (use assms(2) in \<open>blast dest: yields_calls(2)\<close>)
  have "triple (list_all (harmless vm)) (reconcile_vm ctx vm) (\<lambda>_. list_all (harmless vm))"
    by (rule reconcile_vm_branches) (auto intro: live simp: assms(1))
  then show ?thesis
    by (rule triple_trace [OF triple_conseq]) auto
qed


lemma paused_status_run:
  "paused_status ctx vm g (w, tr) =
    (let clock = env_clock (ctx_env ctx)
     in (Inr ((status_or_default vm)\<lparr>vst_conditions :=
        set_condition (set_condition (vst_conditions (status_or_default vm)) CONDITION_PAUSED TRUE REASON_PAUSED
            ''reconciliation paused via spec.paused'' g (fst (clock w)))
          READY FALSE REASON_PAUSED ''reconciliation paused'' g (fst (clock (snd (clock w)))),
      vst_observed_generation := Some g\<rparr>), (snd (clock (snd (clock w))), tr)))"
  by (simp add: paused_status_def with_conditions_def set_condition_now_def now_of_def io_now_def io_bind_def io_return_def
      case_prod_unfold Let_def)

text \<open>
  A paused machine is left alone, deletion included: the only request of a pass is the status patch that
  sets \<^verbatim>\<open>Paused\<close> to true and \<^verbatim>\<open>Ready\<close> to false and keeps placement and held addresses, so neither a machine nor
  the finalizer is touched.
\<close>

theorem paused_vm_left_alone:
  assumes "vs_paused (vm_spec vm)" and "om_namespace (vm_meta vm) = Some ns"
  shows "\<exists>s a. trace_of (reconcile_vm ctx vm) w = [Event KVirtualMachine (name_any (vm_meta vm)) (VmStatus s) a]
    \<and> carries vm s \<and> map_option c_status (find_condition (vst_conditions s) CONDITION_PAUSED) = Some TRUE
    \<and> map_option c_status (find_condition (vst_conditions s) READY) = Some FALSE"
proof -
  let ?g = "generation_or_zero (vm_meta vm)"
  obtain t1 t2 w' s where run: "paused_status ctx vm ?g (w, []) = (Inr s, (w', []))"
    and s: "s = (status_or_default vm)\<lparr>vst_conditions :=
      set_condition (set_condition (vst_conditions (status_or_default vm)) CONDITION_PAUSED TRUE REASON_PAUSED
          ''reconciliation paused via spec.paused'' ?g t1) READY FALSE REASON_PAUSED ''reconciliation paused'' ?g t2,
      vst_observed_generation := Some ?g\<rparr>"
    using paused_status_run [of ctx vm ?g w "[]"] by (auto simp: Let_def)
  have "\<exists>a. trace_of (reconcile_vm ctx vm) w = [Event KVirtualMachine (name_any (vm_meta vm)) (VmStatus s) a]"
    using assms by (auto simp: trace_of_def reconcile_vm_def io_bind_def run patch_status_raw_def io_err_eq kvm_status_def run_request
        io_return_def vms_in_def split: prod.split sum.split)
  moreover have "CONDITION_PAUSED \<noteq> READY"
    by code_simp
  then have "carries vm s \<and> map_option c_status (find_condition (vst_conditions s) CONDITION_PAUSED) = Some TRUE
      \<and> map_option c_status (find_condition (vst_conditions s) READY) = Some FALSE"
    by (simp add: s conds.status_same conds.lookup_other)
  ultimately show ?thesis
    by blast
qed

subsection \<open>Recreation\<close>

text \<open>
  When the placement has drifted and the policy asks to recreate, the pass deletes a machine object and
  surfaces the drift.  The status it writes keeps the placement, so the same decision on the next pass asks to
  recreate again, and no apply is ever sent.
\<close>

theorem recreate_repeats:
  assumes "evaluate vm d = Recreate reason"
  shows "emits (\<lambda>e. ev_verb e \<noteq> Apply
    \<and> (case ev_verb e of VmStatus s \<Rightarrow> evaluate (vm\<lparr>vm_status := Some s\<rparr>) d = Recreate reason | _ \<Rightarrow> True))
    (place ctx ns vm cls img ps d)" (is "emits ?A _")
proof -
  have again: "?A e" if "harmless vm e" for e
  proof -
    have "evaluate (vm\<lparr>vm_status := Some s\<rparr>) d = Recreate reason" if "carries vm s" for s
      using that assms by (subst evaluate_status_cong)
        (auto simp: carries_def status_or_default_def evaluate_Recreate_iff)
    with \<open>harmless vm e\<close> show ?thesis
      by (auto simp: harmless_def split: verb.splits)
  qed
  have patch: "emits ?A (patch_conditions ctx (vms_in ctx ns) vm (name_any (vm_meta vm)) changes g)" for changes g
    by (rule emits_mono [OF patch_conditions_harmless again])
  show ?thesis
    unfolding place_def Let_def patch_defs
    by (auto simp: assms intro!: emits_bind patch emits_delete_existing_infra split: option.split)
qed


subsection \<open>Examples\<close>

definition plain_vm :: virtual_machine where
  "plain_vm = static_vm ''a'' 1 [] []"

definition deleted_vm :: virtual_machine where
  "deleted_vm = plain_vm\<lparr>vm_meta := (vm_meta plain_vm)\<lparr>om_deletion_timestamp := Some 5,
     om_finalizers := Some [VM_FINALIZER, ''other.io/backup'']\<rparr>\<rparr>"

definition vm_ctx :: "vm_class \<Rightarrow> 'w ctx" where
  "vm_ctx cls = ctx_new (fixed_client [plain_vm] [] [] [demo_provider [everywhere_domain]] [cls] [everywhere_image]) None demo_env"

lemma vm_ctx_simps:
  "fst (api_get_opt (cl_vsphere (ctx_client (vm_ctx cls)) ns) n w) = Inr None"
  "fst (api_get_opt (cl_libvirt (ctx_client (vm_ctx cls)) ns) n w) = Inr None"
  "fst (api_get_opt (cl_cloud_hypervisor (ctx_client (vm_ctx cls)) ns) n w) = Inr None"
  "fst (api_get_opt (cl_proxmox (ctx_client (vm_ctx cls)) ns) n w) = Inr None"
  "fst (api_patch (cl_vms (ctx_client (vm_ctx cls)) ns) n p w) = Inr plain_vm"
  "fst (api_get (all_classes (vm_ctx cls)) n w) = Inr cls"
  "fst (api_get (all_images (vm_ctx cls)) n w) = Inr everywhere_image"
  "ctx_first_boot_sealing (vm_ctx cls)"
  by (simp_all add: vm_ctx_def ctx_new_def fixed_client_def fixed_api_def all_classes_def all_images_def Let_def)

theorem vm_deletion_completes_witness:
  "result_of (reconcile_vm (vm_ctx wired_class) deleted_vm) () = Inr requeue_default
    \<and> last (trace_of (reconcile_vm (vm_ctx wired_class) deleted_vm) ()) = Event KVirtualMachine ''a'' (MergePatch (MergeFinalizers [''other.io/backup''])) Done"
proof -
  have "filter (\<lambda>f. f \<noteq> VM_FINALIZER) (meta_finalizers (vm_meta deleted_vm)) = [''other.io/backup'']" "name_any (vm_meta deleted_vm) = ''a''"
    by code_simp+
  moreover have "result_of (reconcile_vm (vm_ctx wired_class) deleted_vm) () = Inr requeue_default
    \<and> last (trace_of (reconcile_vm (vm_ctx wired_class) deleted_vm) ()) = Event KVirtualMachine (name_any (vm_meta deleted_vm))
        (MergePatch (MergeFinalizers (filter (\<lambda>f. f \<noteq> VM_FINALIZER) (meta_finalizers (vm_meta deleted_vm))))) Done"
    by (rule vm_deletion_completes [where ns = "''ns''"]) (code_simp, code_simp, code_simp, code_simp, simp_all add: vm_ctx_simps)
  ultimately show ?thesis
    by simp
qed

theorem vm_finalizer_dropped_last_witness:
  "list_ex (drops_vm_finalizer deleted_vm) (trace_of (reconcile_vm (vm_ctx wired_class) deleted_vm) ())
    \<and> Event KProxmoxMachine ''a'' Get Gone \<in> set (trace_of (reconcile_vm (vm_ctx wired_class) deleted_vm) ())"
proof -
  have *: "list_ex (drops_vm_finalizer deleted_vm) (trace_of (reconcile_vm (vm_ctx wired_class) deleted_vm) ())"
    by code_simp
  moreover have "Event KProxmoxMachine ''a'' Get Gone \<in> seen_gone deleted_vm"
    by (simp add: seen_gone_def infra_kinds_def deleted_vm_def plain_vm_def static_vm_def demo_meta_def name_any_def)
  ultimately show ?thesis
    using vm_finalizer_dropped_last [OF *] by blast
qed

definition tpm_class :: vm_class where
  "tpm_class = wired_class\<lparr>vc_spec := (vc_spec wired_class)\<lparr>vcs_tpm_enabled := True\<rparr>\<rparr>"

theorem refused_pairing_is_harmless_witness:
  "list_all (harmless plain_vm) (trace_of (reconcile_vm (vm_ctx tpm_class) plain_vm) ())
    \<and> \<not> list_all (harmless plain_vm) (trace_of (reconcile_vm (vm_ctx wired_class) plain_vm) ())"
proof
  show "list_all (harmless plain_vm) (trace_of (reconcile_vm (vm_ctx tpm_class) plain_vm) ())"
  proof (rule refused_pairing_is_harmless)
    show "om_deletion_timestamp (vm_meta plain_vm) = None"
      by code_simp
    have "image_class_mismatch (vcs_tpm_enabled (vc_spec tpm_class)) (install_mode_of everywhere_image)
        (vi_first_boot_sealing (vmi_spec everywhere_image) \<noteq> None) True \<noteq> None"
      by code_simp
    then show "image_class_mismatch (vcs_tpm_enabled (vc_spec cls)) (install_mode_of img)
        (vi_first_boot_sealing (vmi_spec img) \<noteq> None) (ctx_first_boot_sealing (vm_ctx tpm_class :: unit ctx)) \<noteq> None"
      if "fst (api_get (all_classes (vm_ctx tpm_class :: unit ctx)) n wc) = Inr cls"
        "fst (api_get (all_images (vm_ctx tpm_class :: unit ctx)) n' wi) = Inr img" for n n' wc wi cls img
      using that by (simp add: vm_ctx_simps)
  qed
  show "\<not> list_all (harmless plain_vm) (trace_of (reconcile_vm (vm_ctx wired_class) plain_vm) ())"
    by code_simp
qed

theorem paused_vm_left_alone_witness:
  "let vm = deleted_vm\<lparr>vm_spec := (vm_spec deleted_vm)\<lparr>vs_paused := True\<rparr>\<rparr>
   in \<exists>s a. trace_of (reconcile_vm (vm_ctx wired_class) vm) () = [Event KVirtualMachine ''a'' (VmStatus s) a] \<and> carries vm s"
proof -
  let ?vm = "deleted_vm\<lparr>vm_spec := (vm_spec deleted_vm)\<lparr>vs_paused := True\<rparr>\<rparr>"
  have "name_any (vm_meta ?vm) = ''a''" "om_namespace (vm_meta ?vm) = Some ''ns''" "vs_paused (vm_spec ?vm)"
    by code_simp+
  with paused_vm_left_alone [of ?vm "''ns''" "vm_ctx wired_class" "()"] show ?thesis
    by auto
qed

text \<open>
  A machine that was placed on a vSphere provider and is now scheduled on a libvirt one: the pass asks to
  delete the libvirt machine of its name, which does not exist, the vSphere machine it owns is never asked to
  go, and the placement it writes is the old one.
\<close>

definition moved_vm :: virtual_machine where
  "moved_vm = plain_vm\<lparr>vm_status := Some (default_vm_status\<lparr>vst_scheduled := Some ((demo_placed ''z1'')
     \<lparr>sp_provider_name := ''old'', sp_provider_class := PROVIDER_CLASS_VSPHERE\<rparr>),
     vst_infrastructure_ref := Some \<lparr>tor_api_group = ''infrastructure.banlieue.io'', tor_kind = ''VSphereMachine'', tor_name = ''a'',
       tor_namespace = Some ''ns''\<rparr>\<rparr>)\<rparr>"

definition machine_writes :: "event list \<Rightarrow> (obj_kind \<times> verb) list" where
  "machine_writes tr = map (\<lambda>e. (ev_kind e, ev_verb e)) (filter (\<lambda>e. ev_verb e \<in> {Apply, Delete}) tr)"

theorem recreate_deletes_the_new_kind:
  "machine_writes (trace_of (reconcile_vm (vm_ctx wired_class) moved_vm) ()) = [(KLibvirtMachine, Delete)]
    \<and> tor_kind (the (vst_infrastructure_ref (status_or_default moved_vm))) = ''VSphereMachine''
    \<and> (case ev_verb (last (trace_of (reconcile_vm (vm_ctx wired_class) moved_vm) ())) of
         VmStatus s \<Rightarrow> vst_scheduled s = vst_scheduled (status_or_default moved_vm)
           \<and> machine_writes (trace_of (reconcile_vm (vm_ctx wired_class) (moved_vm\<lparr>vm_status := Some s\<rparr>)) ()) = [(KLibvirtMachine, Delete)]
       | _ \<Rightarrow> False)"
  by code_simp

end
