(* ===== verification/Health.thy ===== *)
theory Health
  imports Text_Util
begin

section \<open>Health endpoints and readiness\<close>

text \<open>
  \<^verbatim>\<open>banlieue-provider-sdk/src/httpd.rs\<close> (request line, responses, the read loop) and \<^verbatim>\<open>health.rs\<close> (readiness
  snapshot, its writers, the verdict of \<^verbatim>\<open>/readyz\<close> and the router).  A \<^verbatim>\<open>Duration\<close> is a number of nanoseconds,
  an \<^verbatim>\<open>Instant\<close> a point on the monotonic clock in nanoseconds.  The socket is the list of what its reads return.
\<close>

subsection \<open>Request line and response\<close>

definition MAX_REQUEST_LINE_BYTES :: nat where "MAX_REQUEST_LINE_BYTES = 1024"
definition TEXT_PLAIN :: string where "TEXT_PLAIN = ''text/plain; charset=utf-8''"
definition BAD_REQUEST_BODY :: string where "BAD_REQUEST_BODY = ''bad request''"
definition NOT_FOUND_BODY :: string where "NOT_FOUND_BODY = ''not found''"
definition HTTP_1_VERSION_PREFIX :: string where "HTTP_1_VERSION_PREFIX = ''HTTP/1.''"
definition REQUEST_LINE_PARTS :: nat where "REQUEST_LINE_PARTS = 3"
definition METHOD_GET :: string where "METHOD_GET = ''GET''"

datatype http_status = StatusOk | StatusBadRequest | StatusNotFound | StatusServiceUnavailable

fun status_code :: "http_status \<Rightarrow> nat" where
  "status_code StatusOk = 200"
| "status_code StatusBadRequest = 400"
| "status_code StatusNotFound = 404"
| "status_code StatusServiceUnavailable = 503"

fun status_reason :: "http_status \<Rightarrow> string" where
  "status_reason StatusOk = ''OK''"
| "status_reason StatusBadRequest = ''Bad Request''"
| "status_reason StatusNotFound = ''Not Found''"
| "status_reason StatusServiceUnavailable = ''Service Unavailable''"

record response =
  rsp_status :: http_status
  rsp_content_type :: string
  rsp_body :: string

definition response_text :: "http_status \<Rightarrow> string \<Rightarrow> response" where
  "response_text st b = \<lparr>rsp_status = st, rsp_content_type = TEXT_PLAIN, rsp_body = b\<rparr>"

definition not_found :: response where
  "not_found = response_text StatusNotFound NOT_FOUND_BODY"

definition bad_request :: response where
  "bad_request = response_text StatusBadRequest BAD_REQUEST_BODY"

definition CRLF :: string where "CRLF = [CHR 0x0D, CHR 0x0A]"

definition response_to_bytes :: "response \<Rightarrow> u8 list" where
  "response_to_bytes r = as_bytes (''HTTP/1.1 '' @ show_nat (status_code (rsp_status r)) @ '' '' @ status_reason (rsp_status r)
     @ CRLF @ ''Content-Type: '' @ rsp_content_type r @ CRLF @ ''Content-Length: '' @ show_nat (length (rsp_body r))
     @ CRLF @ ''Connection: close'' @ CRLF @ CRLF @ rsp_body r)"

record request_line =
  rql_method :: string
  rql_path :: string

datatype request_error = TooLarge | Malformed

definition newline :: u8 where "newline = 10"

fun position :: "'a \<Rightarrow> 'a list \<Rightarrow> nat option" where
  "position x [] = None"
| "position x (y # ys) = (if y = x then Some 0 else map_option Suc (position x ys))"

definition parse_line :: "string \<Rightarrow> (request_error, request_line) result" where
  "parse_line line =
     (let parts = split_char CHR '' '' (case strip_suffix [CHR 0x0D] line of Some l \<Rightarrow> l | None \<Rightarrow> line)
      in if length parts \<noteq> REQUEST_LINE_PARTS then Inl Malformed
         else let method = parts ! 0; target = parts ! 1; version = parts ! (REQUEST_LINE_PARTS - 1)
         in if method = [] \<or> \<not> list_all is_ascii_uppercase method then Inl Malformed
            else if \<not> starts_with ''/'' target then Inl Malformed
            else if \<not> starts_with HTTP_1_VERSION_PREFIX version then Inl Malformed
            else Inr \<lparr>rql_method = method, rql_path = (case split_once CHR ''?'' target of Some (path, _) \<Rightarrow> path | None \<Rightarrow> target)\<rparr>)"

definition parse_request_line :: "u8 list \<Rightarrow> (request_error, request_line) result" where
  "parse_request_line buf =
     (case position newline buf of
        None \<Rightarrow> if MAX_REQUEST_LINE_BYTES \<le> length buf then Inl TooLarge else Inl Malformed
      | Some e \<Rightarrow> if MAX_REQUEST_LINE_BYTES \<le> e then Inl TooLarge
          else (case from_utf8 (take e buf) of None \<Rightarrow> Inl Malformed | Some line \<Rightarrow> parse_line line))"

definition respond :: "u8 list \<Rightarrow> (request_line \<Rightarrow> response) \<Rightarrow> response" where
  "respond buf route = (case parse_request_line buf of Inr line \<Rightarrow> route line | Inl _ \<Rightarrow> bad_request)"

text \<open>The read loop: \<open>reads\<close> is what each \<^verbatim>\<open>read\<close> finds in the socket, an empty one or none being the end.
  What does not fit is left unread, and then the buffer is full and the loop ends.\<close>

fun read_request_line :: "u8 list list \<Rightarrow> u8 list \<Rightarrow> u8 list" where
  "read_request_line [] buf = buf"
| "read_request_line (r # rs) buf =
     (if MAX_REQUEST_LINE_BYTES \<le> length buf then buf
      else let got = take (MAX_REQUEST_LINE_BYTES - length buf) r
           in if got = [] then buf
              else if newline \<in> set got then buf @ got
              else read_request_line rs (buf @ got))"

subsection \<open>Readiness\<close>

definition LIVEZ_PATH :: string where "LIVEZ_PATH = ''/livez''"
definition READYZ_PATH :: string where "READYZ_PATH = ''/readyz''"
definition LIVE_BODY :: string where "LIVE_BODY = ''ok''"

datatype ready_state = ReadyLeader | ReadyStandby | ReadyStarting | ReadyUnreachable

fun ready_state_as_str :: "ready_state \<Rightarrow> string" where
  "ready_state_as_str ReadyLeader = ''leader''"
| "ready_state_as_str ReadyStandby = ''standby''"
| "ready_state_as_str ReadyStarting = ''starting''"
| "ready_state_as_str ReadyUnreachable = ''unreachable''"

definition is_ready :: "ready_state \<Rightarrow> bool" where
  "is_ready s = (s = ReadyLeader \<or> s = ReadyStandby)"

datatype election = ElectionEnabled nat | ElectionDisabled

record readiness_snapshot =
  rs_election :: election
  rs_is_leader :: bool
  rs_controllers_started :: bool
  rs_last_lease_read :: "nat option"

definition evaluate_readiness :: "readiness_snapshot \<Rightarrow> nat \<Rightarrow> ready_state" where
  "evaluate_readiness snapshot now =
     (case rs_election snapshot of
        ElectionDisabled \<Rightarrow> if rs_controllers_started snapshot then ReadyLeader else ReadyStarting
      | ElectionEnabled lease_duration \<Rightarrow>
          if rs_is_leader snapshot
          then (if rs_controllers_started snapshot then ReadyLeader else ReadyStarting)
          else (case rs_last_lease_read snapshot of
             None \<Rightarrow> ReadyStarting
           | Some last_read \<Rightarrow> if now - last_read \<le> lease_duration then ReadyStandby else ReadyUnreachable))"

text \<open>The shared state: the snapshot behind the lock and the gauge.\<close>

record readiness =
  rd_state :: readiness_snapshot
  rd_leader_gauge :: int

definition readiness_new :: "election \<Rightarrow> readiness" where
  "readiness_new e = \<lparr>rd_state = \<lparr>rs_election = e, rs_is_leader = False, rs_controllers_started = False,
     rs_last_lease_read = None\<rparr>, rd_leader_gauge = 0\<rparr>"

definition lease_observed_at :: "nat \<Rightarrow> readiness \<Rightarrow> readiness" where
  "lease_observed_at at rd = rd\<lparr>rd_state := (rd_state rd)\<lparr>rs_last_lease_read := Some at\<rparr>\<rparr>"

definition became_leader_at :: "nat \<Rightarrow> readiness \<Rightarrow> readiness" where
  "became_leader_at at rd = rd\<lparr>rd_state := (rd_state rd)\<lparr>rs_is_leader := True, rs_last_lease_read := Some at\<rparr>, rd_leader_gauge := 1\<rparr>"

definition lost_leadership :: "readiness \<Rightarrow> readiness" where
  "lost_leadership rd = rd\<lparr>rd_state := (rd_state rd)\<lparr>rs_is_leader := False\<rparr>, rd_leader_gauge := 0\<rparr>"

definition controllers_started :: "readiness \<Rightarrow> readiness" where
  "controllers_started rd = (let st = (rd_state rd)\<lparr>rs_controllers_started := True\<rparr>
     in rd\<lparr>rd_state := st, rd_leader_gauge := (if rs_election st = ElectionDisabled then 1 else rd_leader_gauge rd)\<rparr>)"

definition route :: "ready_state \<Rightarrow> request_line \<Rightarrow> response" where
  "route ready line =
     (if rql_method line \<noteq> METHOD_GET then not_found
      else if rql_path line = LIVEZ_PATH then response_text StatusOk LIVE_BODY
      else if rql_path line = READYZ_PATH
      then response_text (if is_ready ready then StatusOk else StatusServiceUnavailable) (ready_state_as_str ready)
      else not_found)"

definition handle :: "u8 list \<Rightarrow> ready_state \<Rightarrow> response" where
  "handle buf ready = respond buf (route ready)"

subsection \<open>Requests in pieces\<close>

lemma position_append:
  "position x (xs @ ys) = (if x \<in> set xs then position x xs else map_option ((+) (length xs)) (position x ys))"
  by (induction xs) (auto simp: option.map_comp comp_def option.map_ident_strong)

lemma position_None [simp]: "position x xs = None \<longleftrightarrow> x \<notin> set xs"
  by (induction xs) auto

lemma position_less: "position x xs = Some i \<Longrightarrow> i < length xs"
  by (induction xs arbitrary: i) (auto split: if_splits)

lemma parse_full_buffer:
  assumes "newline \<notin> set buf" and "MAX_REQUEST_LINE_BYTES \<le> length buf"
  shows "parse_request_line (buf @ rest) = Inl TooLarge"
  using assms by (auto simp: parse_request_line_def position_append split: option.split)

lemma parse_prefix:
  assumes "newline \<in> set xs"
  shows "parse_request_line (xs @ ys) = parse_request_line xs"
proof -
  obtain e where "position newline xs = Some e"
    using assms by (cases "position newline xs") auto
  with position_less [OF this] show ?thesis
    by (simp add: parse_request_line_def position_append assms)
qed

lemma parse_truncated:
  assumes "newline \<notin> set buf" and "newline \<in> set (take (MAX_REQUEST_LINE_BYTES - length buf) r)"
  shows "parse_request_line (buf @ take (MAX_REQUEST_LINE_BYTES - length buf) r) = parse_request_line (buf @ r @ rest)"
proof -
  let ?k = "MAX_REQUEST_LINE_BYTES - length buf"
  have "buf @ r @ rest = (buf @ take ?k r) @ (drop ?k r @ rest)"
    by simp
  with parse_prefix [of "buf @ take ?k r" "drop ?k r @ rest"] assms show ?thesis
    by (metis UnCI set_append)
qed

lemma parse_read:
  assumes "[] \<notin> set rs" and "newline \<notin> set buf" and "length buf \<le> MAX_REQUEST_LINE_BYTES"
  shows "parse_request_line (read_request_line rs buf) = parse_request_line (buf @ concat rs)"
  using assms
proof (induction rs arbitrary: buf)
  case (Cons r rs)
  let ?k = "MAX_REQUEST_LINE_BYTES - length buf"
  consider "MAX_REQUEST_LINE_BYTES \<le> length buf" | "length buf < MAX_REQUEST_LINE_BYTES" "newline \<in> set (take ?k r)"
    | "length buf < MAX_REQUEST_LINE_BYTES" "newline \<notin> set (take ?k r)" "length r \<le> ?k"
    | "length buf < MAX_REQUEST_LINE_BYTES" "newline \<notin> set (take ?k r)" "?k < length r"
    by linarith
  then show ?case
  proof cases
    case 1
    with Cons.prems parse_full_buffer [of buf] parse_full_buffer [of buf "[]"] show ?thesis
      by simp
  next
    case 2
    with parse_truncated [OF Cons.prems(2)] show ?thesis
      by (auto simp: Let_def)
  next
    case 3
    with Cons.IH [of "buf @ r"] Cons.prems show ?thesis
      by (auto simp: Let_def)
  next
    case 4
    then have full: "length (buf @ take ?k r) = MAX_REQUEST_LINE_BYTES" "newline \<notin> set (buf @ take ?k r)"
      using Cons.prems by auto
    have "parse_request_line (buf @ concat (r # rs)) = parse_request_line ((buf @ take ?k r) @ (drop ?k r @ concat rs))"
      by (metis append.assoc append_take_drop_id concat.simps(2))
    also have "\<dots> = Inl TooLarge"
      using full by (intro parse_full_buffer) simp_all
    finally show ?thesis
      using full parse_full_buffer [of "buf @ take ?k r"] Cons.IH [of "buf @ take ?k r"] Cons.prems(1) 4 by (auto simp: Let_def)
  qed
qed simp

text \<open>
  How a request arrives does not matter: whatever pieces the socket delivers, the answer is that to the
  whole byte stream, although the server stops reading at the first line end or at 1024 bytes.
\<close>

theorem answer_ignores_chunking:
  assumes "[] \<notin> set rs"
  shows "handle (read_request_line rs []) ready = handle (concat rs) ready"
  using parse_read [OF assms, of "[]"] by (simp add: handle_def respond_def MAX_REQUEST_LINE_BYTES_def)

theorem answer_ignores_chunking_witness:
  "handle (read_request_line [as_bytes ''GET /rea'', as_bytes (''dyz HTTP/1.1'' @ CRLF @ ''Host: x'')] []) ReadyStandby
     = response_text StatusOk ''standby''"
proof -
  have "handle (concat [as_bytes ''GET /rea'', as_bytes (''dyz HTTP/1.1'' @ CRLF @ ''Host: x'')]) ReadyStandby
      = response_text StatusOk ''standby''"
    by code_simp
  then show ?thesis
    by (subst answer_ignores_chunking) (simp_all add: as_bytes_def)
qed

subsection \<open>The gauge and the verdict\<close>

text \<open>The states that the writers of an elected role can produce.\<close>

inductive elected :: "readiness \<Rightarrow> bool" where
  new: "elected (readiness_new (ElectionEnabled d))"
| observe: "elected rd \<Longrightarrow> elected (lease_observed_at t rd)"
| lead: "elected rd \<Longrightarrow> elected (became_leader_at t rd)"
| lose: "elected rd \<Longrightarrow> elected (lost_leadership rd)"
| start: "elected rd \<Longrightarrow> elected (controllers_started rd)"

lemmas readiness_defs = readiness_new_def lease_observed_at_def became_leader_at_def lost_leadership_def controllers_started_def

lemma elected_gauge:
  assumes "elected rd"
  shows "\<exists>d. rs_election (rd_state rd) = ElectionEnabled d"
    and "rd_leader_gauge rd = (if rs_is_leader (rd_state rd) then 1 else 0)"
  using assms by (induction rule: elected.induct) (auto simp: readiness_defs Let_def)

text \<open>
  What an elected role reports: \<^verbatim>\<open>leader\<close> exactly when the gauge is 1 and the controllers have started, and a
  role with gauge 0 is ready exactly when it read the lease within one lease duration.
\<close>

theorem readyz_agrees_with_gauge:
  assumes "elected rd"
  shows "(evaluate_readiness (rd_state rd) now = ReadyLeader \<longleftrightarrow> rd_leader_gauge rd = 1 \<and> rs_controllers_started (rd_state rd))
    \<and> (rd_leader_gauge rd = 0 \<longrightarrow>
        is_ready (evaluate_readiness (rd_state rd) now) =
          (\<exists>t d. rs_last_lease_read (rd_state rd) = Some t \<and> rs_election (rd_state rd) = ElectionEnabled d \<and> now - t \<le> d))"
  using elected_gauge [OF assms] by (auto simp: evaluate_readiness_def is_ready_def split: option.splits if_splits)

text \<open>The gauge can be 1 while \<^verbatim>\<open>/readyz\<close> says \<^verbatim>\<open>starting\<close>.\<close>

theorem gauge_ahead_of_readyz:
  "let rd = became_leader_at 7 (readiness_new (ElectionEnabled 15))
   in elected rd \<and> rd_leader_gauge rd = 1 \<and> handle (as_bytes (''GET /readyz HTTP/1.1'' @ CRLF)) (evaluate_readiness (rd_state rd) 8)
        = response_text StatusServiceUnavailable ''starting''"
proof -
  have "elected (became_leader_at 7 (readiness_new (ElectionEnabled 15)))"
    by (intro elected.intros)
  moreover have "let rd = became_leader_at 7 (readiness_new (ElectionEnabled 15)) in
      rd_leader_gauge rd = 1 \<and> handle (as_bytes (''GET /readyz HTTP/1.1'' @ CRLF)) (evaluate_readiness (rd_state rd) 8)
        = response_text StatusServiceUnavailable ''starting''"
    by code_simp
  ultimately show ?thesis
    by (simp add: Let_def)
qed

theorem readyz_agrees_with_gauge_witness:
  "is_ready (evaluate_readiness (rd_state (lease_observed_at 7 (readiness_new (ElectionEnabled 15)))) 20)"
proof -
  have "elected (lease_observed_at 7 (readiness_new (ElectionEnabled 15)))"
    by (intro elected.intros)
  from readyz_agrees_with_gauge [OF this, of 20] show ?thesis
    by (simp add: readiness_defs)
qed

end
