(* ===== verification/Leader.thy ===== *)
theory Leader
  imports Trace_Logic Claim_Plan Health
begin

section \<open>Leader election\<close>

text \<open>
  \<^verbatim>\<open>banlieue-provider-sdk/src/leader.rs\<close>: the configuration, the pure decision on a lease, the requests that
  create, take over and renew it, and the two loops.  The API server, the clocks and \<^verbatim>\<open>sleep\<close> belong to the
  outside world, which also holds the shared \<^typ>\<open>readiness\<close>.  \<^verbatim>\<open>acquire_or_wait\<close> and \<^verbatim>\<open>renew_forever\<close> may run
  forever: not returning is the value \<open>None\<close>.
\<close>

subsection \<open>Configuration\<close>

definition LEASE_FIELD_MANAGER :: string where "LEASE_FIELD_MANAGER = ''banlieue.io/leader-election''"
definition DEFAULT_LEASE_DURATION_SECS :: nat where "DEFAULT_LEASE_DURATION_SECS = 15"
definition DEFAULT_RENEW_PERIOD_SECS :: nat where "DEFAULT_RENEW_PERIOD_SECS = 5"
definition DEFAULT_RETRY_PERIOD_SECS :: nat where "DEFAULT_RETRY_PERIOD_SECS = 2"
definition LEASE_SPEC_DURATION_FIELD_SECS :: int where "LEASE_SPEC_DURATION_FIELD_SECS = int DEFAULT_LEASE_DURATION_SECS"

definition nanos :: nat where "nanos = 1000000000"
definition from_secs :: "nat \<Rightarrow> nat" where "from_secs s = s * nanos"
definition as_secs :: "nat \<Rightarrow> nat" where "as_secs d = d div nanos"

text \<open>\<^verbatim>\<open>u64 as i64\<close> and the wrap of \<^verbatim>\<open>i64\<close> addition.\<close>

definition to_i64 :: "int \<Rightarrow> int" where
  "to_i64 x = (x + 2 ^ 63) mod 2 ^ 64 - 2 ^ 63"

record leader_config =
  lc_namespace :: string
  lc_lease_name :: string
  lc_identity :: string
  lc_lease_duration :: nat
  lc_renew_period :: nat
  lc_retry_period :: nat

definition KERNEL_HOSTNAME_PATH :: string where "KERNEL_HOSTNAME_PATH = ''/proc/sys/kernel/hostname''"
definition UNKNOWN_IDENTITY :: string where "UNKNOWN_IDENTITY = ''unknown''"

definition identity_from :: "string option \<Rightarrow> string option \<Rightarrow> string option \<Rightarrow> string" where
  "identity_from pod_name hostname_var kernel_hostname =
     (case find (\<lambda>v. v \<noteq> []) (map trim (List.map_filter id [pod_name, hostname_var, kernel_hostname])) of
        Some v \<Rightarrow> v | None \<Rightarrow> UNKNOWN_IDENTITY)"

text \<open>The two environment variables and the file are read by the caller of the process.\<close>

definition default_identity :: "(string \<Rightarrow> string option) \<Rightarrow> (string \<Rightarrow> string option) \<Rightarrow> string" where
  "default_identity env_var read_file = identity_from (env_var ''POD_NAME'') (env_var ''HOSTNAME'') (read_file KERNEL_HOSTNAME_PATH)"

definition leader_config_new :: "(string \<Rightarrow> string option) \<Rightarrow> (string \<Rightarrow> string option) \<Rightarrow> string \<Rightarrow> string \<Rightarrow> leader_config" where
  "leader_config_new env_var read_file ns name =
     \<lparr>lc_namespace = ns, lc_lease_name = name, lc_identity = default_identity env_var read_file,
      lc_lease_duration = from_secs DEFAULT_LEASE_DURATION_SECS, lc_renew_period = from_secs DEFAULT_RENEW_PERIOD_SECS,
      lc_retry_period = from_secs DEFAULT_RETRY_PERIOD_SECS\<rparr>"

definition leader_validate :: "leader_config \<Rightarrow> (sdk_error, unit) result" where
  "leader_validate cfg =
     (if lc_identity cfg = [] then Inl (SdkMissing ''LeaderConfig.identity'')
      else if lc_lease_duration cfg = 0 then Inl (SdkMissing ''LeaderConfig.lease_duration'')
      else if lc_renew_period cfg = 0 then Inl (SdkMissing ''LeaderConfig.renew_period'')
      else if lc_retry_period cfg = 0 then Inl (SdkMissing ''LeaderConfig.retry_period'')
      else if lc_lease_duration cfg \<le> lc_renew_period cfg then Inl (SdkMissing ''LeaderConfig.renew_period must be < lease_duration'')
      else Inr ())"

definition election_of :: "leader_config \<Rightarrow> election" where
  "election_of cfg = ElectionEnabled (lc_lease_duration cfg)"

subsection \<open>The decision\<close>

text \<open>\<^verbatim>\<open>coordination.k8s.io/v1.Lease\<close> as far as the code reads and writes it.\<close>

record lease_spec =
  lsp_holder_identity :: "string option"
  lsp_lease_duration_seconds :: "int option"
  lsp_acquire_time :: "timestamp option"
  lsp_renew_time :: "timestamp option"
  lsp_lease_transitions :: "int option"

record lease =
  ls_meta :: object_meta
  ls_spec :: "lease_spec option"

datatype lease_action = AcquireNew | Renew | WaitForLease | TakeOver

definition decide_action :: "jiff \<Rightarrow> timestamp \<Rightarrow> lease option \<Rightarrow> leader_config \<Rightarrow> lease_action" where
  "decide_action j now lease_opt cfg =
     (case lease_opt of
        None \<Rightarrow> AcquireNew
      | Some l \<Rightarrow> (case ls_spec l of
          None \<Rightarrow> AcquireNew
        | Some spec \<Rightarrow>
            (let holder = (case lsp_holder_identity spec of Some h \<Rightarrow> h | None \<Rightarrow> [])
             in if holder = [] then AcquireNew
                else if holder = lc_identity cfg then Renew
                else (case lsp_renew_time spec of
                   None \<Rightarrow> TakeOver
                 | Some renew_time \<Rightarrow>
                     let expiry_secs = to_i64 (jf_as_second j renew_time + to_i64 (int (as_secs (lc_lease_duration cfg))))
                     in if jf_as_second j now \<le> expiry_secs then WaitForLease else TakeOver))))"

subsection \<open>Requests\<close>

text \<open>The world of a candidate: it holds the readiness that the election loop and the health server share.\<close>

record shared =
  sh_readiness :: readiness

record 'w election_env =
  ee_leases :: "('w, lease, unit) api"
  ee_now :: "'w \<Rightarrow> timestamp \<times> 'w"
  ee_instant :: "'w \<Rightarrow> nat \<times> 'w"
  ee_sleep :: "nat \<Rightarrow> 'w \<Rightarrow> 'w"
  ee_jiff :: jiff

definition io_read :: "('w \<Rightarrow> 'a \<times> 'w) \<Rightarrow> ('w, 'e, 'a) io" where
  "io_read f s = (case s of (w, tr) \<Rightarrow> (case f w of (x, w') \<Rightarrow> (Inr x, (w', tr))))"

definition io_sleep :: "'w election_env \<Rightarrow> nat \<Rightarrow> ('w, 'e, unit) io" where
  "io_sleep env d s = (case s of (w, tr) \<Rightarrow> (Inr (), (ee_sleep env d w, tr)))"

definition io_readiness :: "(readiness \<Rightarrow> readiness) \<Rightarrow> ('x shared_scheme, 'e, unit) io" where
  "io_readiness f s = (case s of (w, tr) \<Rightarrow> (Inr (), (w\<lparr>sh_readiness := f (sh_readiness w)\<rparr>, tr)))"

definition lease_observed :: "('x shared_scheme) election_env \<Rightarrow> ('x shared_scheme, 'e, unit) io" where
  "lease_observed env = io_bind (io_read (ee_instant env)) (\<lambda>t. io_readiness (lease_observed_at t))"

definition became_leader :: "('x shared_scheme) election_env \<Rightarrow> ('x shared_scheme, 'e, unit) io" where
  "became_leader env = io_bind (io_read (ee_instant env)) (\<lambda>t. io_readiness (became_leader_at t))"

definition lease_api :: "'w election_env \<Rightarrow> ('w, lease, unit) api" where
  "lease_api env = (ee_leases env)\<lparr>api_kind := KLease\<rparr>"

definition fetch_lease :: "'w election_env \<Rightarrow> string \<Rightarrow> ('w, sdk_error, lease option) io" where
  "fetch_lease env name = io_err SdkKube (kget_opt (lease_api env) name)"

definition lease_meta :: "leader_config \<Rightarrow> object_meta" where
  "lease_meta cfg = empty_meta\<lparr>om_name := Some (lc_lease_name cfg), om_namespace := Some (lc_namespace cfg)\<rparr>"

text \<open>\<^verbatim>\<open>i32\<close> addition; the fields that an apply leaves out are \<open>None\<close>.\<close>

definition to_i32 :: "int \<Rightarrow> int" where
  "to_i32 x = (x + 2 ^ 31) mod 2 ^ 32 - 2 ^ 31"

definition prev_transitions :: "lease option \<Rightarrow> int" where
  "prev_transitions current = (case Option.bind (Option.bind current ls_spec) lsp_lease_transitions of Some n \<Rightarrow> n | None \<Rightarrow> 0)"

definition owned_lease :: "leader_config \<Rightarrow> timestamp \<Rightarrow> timestamp option \<Rightarrow> int option \<Rightarrow> lease" where
  "owned_lease cfg now acquired transitions = \<lparr>ls_meta = lease_meta cfg, ls_spec = Some
     \<lparr>lsp_holder_identity = Some (lc_identity cfg), lsp_lease_duration_seconds = Some LEASE_SPEC_DURATION_FIELD_SECS,
      lsp_acquire_time = acquired, lsp_renew_time = Some now, lsp_lease_transitions = transitions\<rparr>\<rparr>"

definition create_owned_lease :: "'w election_env \<Rightarrow> leader_config \<Rightarrow> ('w, sdk_error, unit) io" where
  "create_owned_lease env cfg =
     io_bind (io_read (ee_now env)) (\<lambda>now.
     io_bind (io_err SdkKube (kcreate (lease_api env) (owned_lease cfg now (Some now) (Some 1)))) (\<lambda>_. io_return ()))"

definition patch_take_over :: "'w election_env \<Rightarrow> leader_config \<Rightarrow> lease option \<Rightarrow> ('w, sdk_error, unit) io" where
  "patch_take_over env cfg current =
     io_bind (io_read (ee_now env)) (\<lambda>now.
     io_bind (io_err SdkKube (kapply (lease_api env) LEASE_FIELD_MANAGER (lc_lease_name cfg)
        (owned_lease cfg now (Some now) (Some (to_i32 (prev_transitions current + 1))))))
     (\<lambda>_. io_return ()))"

definition renew_once :: "'w election_env \<Rightarrow> leader_config \<Rightarrow> ('w, sdk_error, unit) io" where
  "renew_once env cfg =
     io_bind (io_read (ee_now env)) (\<lambda>now.
     io_bind (io_err SdkKube (kapply (lease_api env) LEASE_FIELD_MANAGER (lc_lease_name cfg) (owned_lease cfg now None None)))
     (\<lambda>_. io_return ()))"

subsection \<open>The loops\<close>

text \<open>One round of \<^verbatim>\<open>acquire_or_wait\<close>; \<open>True\<close> is its \<^verbatim>\<open>return Ok(())\<close>.\<close>

definition acquire_round :: "('x shared_scheme) election_env \<Rightarrow> leader_config \<Rightarrow> ('x shared_scheme, sdk_error, bool) io" where
  "acquire_round env cfg =
     (let won = (\<lambda>m. io_bind m (\<lambda>_. io_bind (became_leader env) (\<lambda>_. io_return True)));
          again = io_bind (io_sleep env (lc_retry_period cfg)) (\<lambda>_. io_return False)
      in io_bind (io_attempt (fetch_lease env (lc_lease_name cfg))) (\<lambda>r. case r of
           Inl _ \<Rightarrow> again
         | Inr current \<Rightarrow> io_bind (lease_observed env) (\<lambda>_. io_bind (io_read (ee_now env)) (\<lambda>now.
             case decide_action (ee_jiff env) now current cfg of
               AcquireNew \<Rightarrow> won (if current = None then create_owned_lease env cfg else patch_take_over env cfg current)
             | Renew \<Rightarrow> won (renew_once env cfg)
             | TakeOver \<Rightarrow> won (patch_take_over env cfg current)
             | WaitForLease \<Rightarrow> again))))"

partial_function (option) acquire_loop ::
  "('x shared_scheme) election_env \<Rightarrow> leader_config \<Rightarrow> ('x shared_scheme) st \<Rightarrow> ((sdk_error, unit) result \<times> ('x shared_scheme) st) option" where
  "acquire_loop env cfg s = (case acquire_round env cfg s of
     (Inl e, s') \<Rightarrow> Some (Inl e, s')
   | (Inr acquired, s') \<Rightarrow> if acquired then Some (Inr (), s') else acquire_loop env cfg s')"

definition acquire_or_wait ::
  "('x shared_scheme) election_env \<Rightarrow> leader_config \<Rightarrow> ('x shared_scheme) st \<Rightarrow> ((sdk_error, unit) result \<times> ('x shared_scheme) st) option" where
  "acquire_or_wait env cfg s = (case leader_validate cfg of Inl e \<Rightarrow> Some (Inl e, s) | Inr _ \<Rightarrow> acquire_loop env cfg s)"

text \<open>One round of \<^verbatim>\<open>renew_forever\<close>, which returns only with an error.\<close>

definition renew_round :: "('x shared_scheme) election_env \<Rightarrow> leader_config \<Rightarrow> ('x shared_scheme, sdk_error, unit) io" where
  "renew_round env cfg =
     io_bind (io_sleep env (lc_renew_period cfg)) (\<lambda>_.
     io_bind (io_attempt (renew_once env cfg)) (\<lambda>r. case r of
       Inr _ \<Rightarrow> lease_observed env
     | Inl (SdkKube _) \<Rightarrow>
         io_bind (fetch_lease env (lc_lease_name cfg)) (\<lambda>current.
         io_bind (io_read (ee_now env)) (\<lambda>now.
           if decide_action (ee_jiff env) now current cfg \<noteq> Renew
           then io_bind (io_readiness lost_leadership) (\<lambda>_. io_throw (SdkMissing ''leader lease lost''))
           else io_return ()))
     | Inl other \<Rightarrow> io_throw other))"

partial_function (option) renew_forever ::
  "('x shared_scheme) election_env \<Rightarrow> leader_config \<Rightarrow> ('x shared_scheme) st \<Rightarrow> (sdk_error \<times> ('x shared_scheme) st) option" where
  "renew_forever env cfg s = (case renew_round env cfg s of
     (Inl e, s') \<Rightarrow> Some (e, s')
   | (Inr _, s') \<Rightarrow> renew_forever env cfg s')"

subsection \<open>The decision is sound\<close>

text \<open>The bounds of \<^verbatim>\<open>jiff\<close>'s timestamps in seconds: years -9999 to 9999.\<close>

definition in_jiff_range :: "int \<Rightarrow> bool" where
  "in_jiff_range s = (-377705023201 \<le> s \<and> s \<le> 253402207200)"

lemma to_i64_id: "- (2 ^ 63) \<le> x \<Longrightarrow> x < 2 ^ 63 \<Longrightarrow> to_i64 x = x"
  by (simp add: to_i64_def)

definition renewed_in_range :: "jiff \<Rightarrow> lease option \<Rightarrow> bool" where
  "renewed_in_range j l = (case Option.bind (Option.bind l ls_spec) lsp_renew_time of None \<Rightarrow> True | Some t \<Rightarrow> in_jiff_range (jf_as_second j t))"

text \<open>A lease held by someone else whose expiry has not passed.\<close>

definition held_by_other :: "jiff \<Rightarrow> timestamp \<Rightarrow> lease option \<Rightarrow> leader_config \<Rightarrow> bool" where
  "held_by_other j now l cfg = (\<exists>x spec h t. l = Some x \<and> ls_spec x = Some spec \<and> lsp_holder_identity spec = Some h \<and> h \<noteq> []
     \<and> h \<noteq> lc_identity cfg \<and> lsp_renew_time spec = Some t
     \<and> jf_as_second j now \<le> jf_as_second j t + int (as_secs (lc_lease_duration cfg)))"

lemma wait_iff:
  assumes "renewed_in_range j l" and "int (as_secs (lc_lease_duration cfg)) < 2 ^ 62"
  shows "decide_action j now l cfg = WaitForLease \<longleftrightarrow> held_by_other j now l cfg"
proof -
  have "to_i64 (jf_as_second j t + to_i64 (int (as_secs (lc_lease_duration cfg)))) = jf_as_second j t + int (as_secs (lc_lease_duration cfg))"
    if "in_jiff_range (jf_as_second j t)" for t
    using that assms(2) by (simp add: in_jiff_range_def to_i64_id)
  with assms(1) show ?thesis
    by (auto simp: decide_action_def held_by_other_def renewed_in_range_def Let_def split: option.splits)
qed

text \<open>
  A candidate keeps its hands off a live lease and off no other: it waits exactly when the lease names
  another holder that renewed at most one lease duration ago.  The deadline itself still counts as alive, and
  no lease duration below 2^62 seconds overflows the computation.
\<close>

theorem waits_exactly_for_live_holder:
  assumes "renewed_in_range j l" and "int (as_secs (lc_lease_duration cfg)) < 2 ^ 62"
  shows "decide_action j now l cfg = WaitForLease \<longleftrightarrow> held_by_other j now l cfg"
  by (rule wait_iff [OF assms])

definition demo_config :: "string \<Rightarrow> leader_config" where
  "demo_config n = \<lparr>lc_namespace = ''ns'', lc_lease_name = ''lock'', lc_identity = n, lc_lease_duration = from_secs 15,
     lc_renew_period = from_secs 5, lc_retry_period = from_secs 2\<rparr>"

theorem waits_exactly_for_live_holder_witness:
  "decide_action demo_jiff 20999999999 (Some (owned_lease (demo_config ''a'') 5000000000 None None)) (demo_config ''b'') = WaitForLease
    \<and> decide_action demo_jiff 21000000000 (Some (owned_lease (demo_config ''a'') 5000000000 None None)) (demo_config ''b'') \<noteq> WaitForLease"
proof -
  let ?l = "Some (owned_lease (demo_config ''a'') 5000000000 None None)"
  have *: "renewed_in_range demo_jiff ?l" "int (as_secs (lc_lease_duration (demo_config ''b''))) < 2 ^ 62"
    by code_simp+
  show ?thesis
    using waits_exactly_for_live_holder [OF *, of 20999999999] waits_exactly_for_live_holder [OF *, of 21000000000]
    by (simp add: held_by_other_def owned_lease_def demo_config_def demo_jiff_def as_secs_def from_secs_def nanos_def)
qed

subsection \<open>A leader that is gone is replaced\<close>

text \<open>
  A server that answers and a lease that nobody else writes: \<open>lease_of\<close> is the stored lease, \<open>clock\<close> the wall
  clock in nanoseconds, which \<^verbatim>\<open>sleep\<close> moves by at least what it was asked for.
\<close>

definition undisturbed ::
  "('x shared_scheme) election_env \<Rightarrow> ('x shared_scheme \<Rightarrow> lease option) \<Rightarrow> ('x shared_scheme \<Rightarrow> int) \<Rightarrow> bool" where
  "undisturbed env lease_of clock \<longleftrightarrow>
     (\<forall>n w. fst (api_get_opt (ee_leases env) n w) = Inr (lease_of w)
        \<and> lease_of (snd (api_get_opt (ee_leases env) n w)) = lease_of w \<and> clock w \<le> clock (snd (api_get_opt (ee_leases env) n w)))
   \<and> (\<forall>w. jf_as_second (ee_jiff env) (fst (ee_now env w)) = clock w div int nanos
        \<and> lease_of (snd (ee_now env w)) = lease_of w \<and> clock w \<le> clock (snd (ee_now env w)))
   \<and> (\<forall>w. lease_of (snd (ee_instant env w)) = lease_of w \<and> clock w \<le> clock (snd (ee_instant env w)))
   \<and> (\<forall>d w. lease_of (ee_sleep env d w) = lease_of w \<and> clock w + int d \<le> clock (ee_sleep env d w))
   \<and> (\<forall>r w. lease_of (w\<lparr>sh_readiness := r\<rparr>) = lease_of w \<and> clock (w\<lparr>sh_readiness := r\<rparr>) = clock w)
   \<and> (\<forall>n p w. \<not> isl (fst (api_patch (ee_leases env) n p w))) \<and> (\<forall>x w. \<not> isl (fst (api_create (ee_leases env) x w)))"

lemma undisturbedD:
  assumes "undisturbed env lease_of clock"
  shows "fst (api_get_opt (ee_leases env) n w) = Inr (lease_of w)"
    and "lease_of (snd (api_get_opt (ee_leases env) n w)) = lease_of w" and "clock w \<le> clock (snd (api_get_opt (ee_leases env) n w))"
    and "jf_as_second (ee_jiff env) (fst (ee_now env w)) = clock w div int nanos"
    and "lease_of (snd (ee_now env w)) = lease_of w" and "clock w \<le> clock (snd (ee_now env w))"
    and "lease_of (snd (ee_instant env w)) = lease_of w" and "clock w \<le> clock (snd (ee_instant env w))"
    and "lease_of (ee_sleep env d w) = lease_of w" and "clock w + int d \<le> clock (ee_sleep env d w)"
    and "lease_of (w\<lparr>sh_readiness := r\<rparr>) = lease_of w" and "clock (w\<lparr>sh_readiness := r\<rparr>) = clock w"
  using assms unfolding undisturbed_def by blast+

definition won :: "(sdk_error, bool) result \<times> ('x shared_scheme) st \<Rightarrow> bool" where
  "won r = (fst r = Inr True \<and> rs_is_leader (rd_state (sh_readiness (fst (snd r)))))"

definition went_round :: "('x shared_scheme \<Rightarrow> lease option) \<Rightarrow> ('x shared_scheme \<Rightarrow> int) \<Rightarrow> nat \<Rightarrow> 'x shared_scheme
    \<Rightarrow> (sdk_error, bool) result \<times> ('x shared_scheme) st \<Rightarrow> bool" where
  "went_round lease_of clock d w r = (fst r = Inr False \<and> lease_of (fst (snd r)) = lease_of w \<and> clock w + int d \<le> clock (fst (snd r)))"

lemma won_after:
  assumes "fst (m s) = Inr u"
  shows "won (io_bind m (\<lambda>_. io_bind (became_leader env) (\<lambda>_. io_return True)) s)"
proof -
  obtain w tr where "m s = (Inr u, (w, tr))"
    using assms by (metis prod.exhaust fst_conv)
  then show ?thesis
    by (simp add: won_def io_bind_def became_leader_def io_read_def io_readiness_def io_return_def case_prod_unfold became_leader_at_def)
qed

lemma accepted:
  assumes "undisturbed env lease_of clock"
  shows "fst (create_owned_lease env cfg s) = Inr ()" "fst (patch_take_over env cfg current s) = Inr ()" "fst (renew_once env cfg s) = Inr ()"
proof -
  have "\<exists>y. fst (api_create (ee_leases env) x w) = Inr y" "\<exists>y. fst (api_patch (ee_leases env) n p w) = Inr y" for x n p w
    using assms unfolding undisturbed_def by (metis isl_def sum.exhaust)+
  then obtain c a where "\<And>x w. fst (api_create (ee_leases env) x w) = Inr (c x w)" "\<And>n p w. fst (api_patch (ee_leases env) n p w) = Inr (a n p w)"
    by metis
  then show "fst (create_owned_lease env cfg s) = Inr ()" "fst (patch_take_over env cfg current s) = Inr ()" "fst (renew_once env cfg s) = Inr ()"
    by (simp_all add: create_owned_lease_def patch_take_over_def renew_once_def io_bind_def io_read_def io_err_eq kcreate_def kapply_def
        run_request lease_api_def io_return_def case_prod_unfold)
qed

lemma acquire_round_cases:
  assumes u: "undisturbed env lease_of clock"
  obtains now where "clock w div int nanos \<le> jf_as_second (ee_jiff env) now"
    and "decide_action (ee_jiff env) now (lease_of w) cfg = WaitForLease \<Longrightarrow>
        went_round lease_of clock (lc_retry_period cfg) w (acquire_round env cfg (w, tr))"
    and "decide_action (ee_jiff env) now (lease_of w) cfg \<noteq> WaitForLease \<Longrightarrow> won (acquire_round env cfg (w, tr))"
proof -
  define w1 where "w1 = snd (api_get_opt (ee_leases env) (lc_lease_name cfg) w)"
  define w2 where "w2 = snd (ee_instant env w1)"
  define w3 where "w3 = w2\<lparr>sh_readiness := lease_observed_at (fst (ee_instant env w1)) (sh_readiness w2)\<rparr>"
  define now where "now = fst (ee_now env w3)"
  define w4 where "w4 = snd (ee_now env w3)"
  define tr1 where "tr1 = tr @ [Event KLease (lc_lease_name cfg) Get (answer_opt (Inr (lease_of w)))]"
  have l: "lease_of w4 = lease_of w" and c: "clock w \<le> clock w3" "clock w3 \<le> clock w4"
    using undisturbedD(3) [OF u, of w "lc_lease_name cfg"] undisturbedD(8) [OF u, of w1] undisturbedD(6) [OF u, of w3]
    by (simp_all add: undisturbedD(2,5,7,11,12) [OF u] w1_def w2_def w3_def w4_def)
  have fetch: "fetch_lease env (lc_lease_name cfg) (w, tr) = (Inr (lease_of w), (w1, tr1))"
    by (simp add: fetch_lease_def io_err_eq kget_opt_def run_request lease_api_def undisturbedD(1) [OF u] w1_def tr1_def)
  have att: "io_attempt (fetch_lease env (lc_lease_name cfg)) (w, tr) = (Inr (Inr (lease_of w)), (w1, tr1))"
    by (simp add: io_attempt_def fetch)
  have obs: "lease_observed env (w1, tr1) = (Inr (), (w3, tr1))"
    by (simp add: lease_observed_def io_bind_def io_read_def io_readiness_def case_prod_unfold w2_def w3_def)
  have now: "io_read (ee_now env) (w3, tr1) = (Inr now, (w4, tr1))"
    by (simp add: io_read_def case_prod_unfold now_def w4_def)
  have run: "acquire_round env cfg (w, tr) = (let won = (\<lambda>m. io_bind m (\<lambda>_. io_bind (became_leader env) (\<lambda>_. io_return True)));
       again = io_bind (io_sleep env (lc_retry_period cfg)) (\<lambda>_. io_return False)
     in (case decide_action (ee_jiff env) now (lease_of w) cfg of
          AcquireNew \<Rightarrow> won (if lease_of w = None then create_owned_lease env cfg else patch_take_over env cfg (lease_of w))
        | Renew \<Rightarrow> won (renew_once env cfg) | TakeOver \<Rightarrow> won (patch_take_over env cfg (lease_of w)) | WaitForLease \<Rightarrow> again) (w4, tr1))"
    unfolding acquire_round_def Let_def
    by (simp add: run_bind [where m = "io_attempt _", OF att] run_bind [where m = "lease_observed env", OF obs]
        run_bind [where m = "io_read _", OF now] cong: lease_action.case_cong)
  show thesis
  proof (rule that [of now])
    have "jf_as_second (ee_jiff env) now = clock w3 div int nanos"
      by (simp add: undisturbedD(4) [OF u] now_def)
    then show "clock w div int nanos \<le> jf_as_second (ee_jiff env) now"
      using c(1) by (simp add: nanos_def zdiv_mono1)
    show "went_round lease_of clock (lc_retry_period cfg) w (acquire_round env cfg (w, tr))"
      if "decide_action (ee_jiff env) now (lease_of w) cfg = WaitForLease"
      using l c undisturbedD(10) [OF u, of w4 "lc_retry_period cfg"] unfolding run that went_round_def
      by (simp add: Let_def io_bind_def io_sleep_def io_return_def undisturbedD(9) [OF u])
    show "won (acquire_round env cfg (w, tr))" if "decide_action (ee_jiff env) now (lease_of w) cfg \<noteq> WaitForLease"
      using that unfolding run Let_def
      by (cases "decide_action (ee_jiff env) now (lease_of w) cfg") (auto intro!: won_after [where u = "()"] simp: accepted [OF u])
  qed
qed

lemma acquire_loop_wins:
  assumes u: "undisturbed env lease_of clock" and r: "renewed_in_range (ee_jiff env) (lease_of w)"
    and d: "int (as_secs (lc_lease_duration cfg)) < 2 ^ 62" and p: "0 < lc_retry_period cfg"
    and E: "\<And>now. held_by_other (ee_jiff env) now (lease_of w) cfg \<Longrightarrow> jf_as_second (ee_jiff env) now \<le> E"
  shows "\<exists>w' tr'. acquire_loop env cfg (w, tr) = Some (Inr (), (w', tr')) \<and> rs_is_leader (rd_state (sh_readiness w'))"
  using r E
proof (induction "nat ((E + 1) * int nanos - clock w)" arbitrary: w tr rule: less_induct)
  case less
  obtain res w' tr' where run: "acquire_round env cfg (w, tr) = (res, (w', tr'))"
    by (metis prod.exhaust)
  from acquire_round_cases [OF u, of w cfg tr] obtain now where now: "clock w div int nanos \<le> jf_as_second (ee_jiff env) now"
    and wait: "decide_action (ee_jiff env) now (lease_of w) cfg = WaitForLease \<Longrightarrow>
        went_round lease_of clock (lc_retry_period cfg) w (res, (w', tr'))"
    and act: "decide_action (ee_jiff env) now (lease_of w) cfg \<noteq> WaitForLease \<Longrightarrow> won (res, (w', tr'))"
    unfolding run by blast
  show ?case
  proof (cases "decide_action (ee_jiff env) now (lease_of w) cfg = WaitForLease")
    case True
    with wait_iff [OF less.prems(1) d] less.prems(2) now have "clock w div int nanos \<le> E"
      by (meson order_trans)
    then have "clock w < (E + 1) * int nanos"
      by (simp add: nanos_def)
    moreover from wait [OF True] have w': "res = Inr False" "lease_of w' = lease_of w" "clock w + int (lc_retry_period cfg) \<le> clock w'"
      by (simp_all add: went_round_def)
    ultimately have "nat ((E + 1) * int nanos - clock w') < nat ((E + 1) * int nanos - clock w)"
      using p by linarith
    from less.hyps [OF this, of tr'] less.prems w' show ?thesis
      by (simp add: acquire_loop.simps [of env cfg "(w, tr)"] run)
  next
    case False
    with act show ?thesis
      by (simp add: acquire_loop.simps [of env cfg "(w, tr)"] run won_def)
  qed
qed

text \<open>
  (C23) A leader that stops renewing is replaced: whatever the lease says, if nobody else writes it, the server
  answers and time passes while the candidate sleeps, then \<^verbatim>\<open>acquire_or_wait\<close> returns, with success, and the
  candidate is recorded as leader.
\<close>

theorem dead_leader_is_replaced:
  assumes "undisturbed env lease_of clock" and "leader_validate cfg = Inr ()"
    and "renewed_in_range (ee_jiff env) (lease_of w)" and "int (as_secs (lc_lease_duration cfg)) < 2 ^ 62"
  shows "\<exists>w' tr'. acquire_or_wait env cfg (w, tr) = Some (Inr (), (w', tr')) \<and> rs_is_leader (rd_state (sh_readiness w'))"
proof -
  have p: "0 < lc_retry_period cfg"
    using assms(2) by (auto simp: leader_validate_def split: if_splits)
  have "\<exists>E. \<forall>now. held_by_other (ee_jiff env) now (lease_of w) cfg \<longrightarrow> jf_as_second (ee_jiff env) now \<le> E"
    by (rule exI [of _ "jf_as_second (ee_jiff env) (the (Option.bind (Option.bind (lease_of w) ls_spec) lsp_renew_time))
        + int (as_secs (lc_lease_duration cfg))"]) (auto simp: held_by_other_def)
  then obtain E where "\<And>now. held_by_other (ee_jiff env) now (lease_of w) cfg \<Longrightarrow> jf_as_second (ee_jiff env) now \<le> E"
    by blast
  from acquire_loop_wins [OF assms(1,3,4) p this, of tr] assms(2) show ?thesis
    by (simp add: acquire_or_wait_def)
qed

text \<open>A server that stores one lease and a clock that only sleeping moves.\<close>

record demo_world = shared +
  dw_clock :: int
  dw_lease :: "lease option"

definition demo_leases :: "(demo_world, lease, unit) api" where
  "demo_leases = \<lparr>api_kind = KLease, api_get = (\<lambda>_ w. (case dw_lease w of Some l \<Rightarrow> Inr l | None \<Rightarrow> Inl (ApiErr 404 ''NotFound''), w)),
     api_get_opt = (\<lambda>_ w. (Inr (dw_lease w), w)), api_list = (\<lambda>_ w. (Inr [], w)),
     api_create = (\<lambda>l w. (Inr l, w\<lparr>dw_lease := Some l\<rparr>)),
     api_patch = (\<lambda>_ p w. case p of ApplyForce _ l \<Rightarrow> (Inr l, w\<lparr>dw_lease := Some l\<rparr>) | Merge _ \<Rightarrow> (Inr (owned_lease (demo_config []) 0 None None), w)),
     api_patch_status = (\<lambda>_ _ w. (Inl (OtherErr []), w)), api_delete = (\<lambda>_ w. (Inr (), w))\<rparr>"

definition demo_election :: "demo_world election_env" where
  "demo_election = \<lparr>ee_leases = demo_leases, ee_now = (\<lambda>w. (dw_clock w, w)), ee_instant = (\<lambda>w. (nat (dw_clock w), w)),
     ee_sleep = (\<lambda>d w. w\<lparr>dw_clock := dw_clock w + int d\<rparr>), ee_jiff = demo_jiff\<rparr>"

definition demo_start :: "lease option \<Rightarrow> demo_world" where
  "demo_start l = \<lparr>sh_readiness = readiness_new (ElectionEnabled (from_secs 15)), dw_clock = int (from_secs 6), dw_lease = l\<rparr>"

theorem dead_leader_is_replaced_witness:
  "\<exists>w' tr'. acquire_or_wait demo_election (demo_config ''b'') (demo_start (Some (owned_lease (demo_config ''a'') 5000000000 None None)), [])
      = Some (Inr (), (w', tr')) \<and> rs_is_leader (rd_state (sh_readiness w'))"
proof (rule dead_leader_is_replaced)
  show "undisturbed demo_election dw_lease dw_clock"
    by (auto simp: undisturbed_def demo_election_def demo_leases_def demo_jiff_def nanos_def split: patch.split)
qed (code_simp+)

subsection \<open>Mutual exclusion\<close>

text \<open>
  Several candidates on one lease, with one clock.  A candidate's round, from reading the lease to writing it,
  is one step here, and time passes only while every leader has renewed within the lease duration.  \<open>store\<close> is
  what the server makes of an applied or created object: it takes over holder and renewal time.
\<close>

record cluster =
  clu_now :: timestamp
  clu_lease :: "lease option"
  clu_leaders :: "string set"

definition stores_applied :: "(lease option \<Rightarrow> lease \<Rightarrow> lease) \<Rightarrow> bool" where
  "stores_applied store = (\<forall>old x spec. ls_spec x = Some spec \<longrightarrow> (\<exists>spec'. ls_spec (store old x) = Some spec'
     \<and> lsp_holder_identity spec' = lsp_holder_identity spec \<and> lsp_renew_time spec' = lsp_renew_time spec))"

text \<open>The object a candidate writes when it acts on what it has read.\<close>

fun write_for :: "lease_action \<Rightarrow> leader_config \<Rightarrow> timestamp \<Rightarrow> lease option \<Rightarrow> lease" where
  "write_for AcquireNew cfg now current =
     owned_lease cfg now (Some now) (Some (if current = None then 1 else to_i32 (prev_transitions current + 1)))"
| "write_for TakeOver cfg now current = owned_lease cfg now (Some now) (Some (to_i32 (prev_transitions current + 1)))"
| "write_for Renew cfg now current = owned_lease cfg now None None"
| "write_for WaitForLease cfg now current = owned_lease cfg now None None"

definition renewed_by :: "jiff \<Rightarrow> leader_config \<Rightarrow> cluster \<Rightarrow> timestamp \<Rightarrow> bool" where
  "renewed_by j cfg s t = (\<exists>x spec r. clu_lease s = Some x \<and> ls_spec x = Some spec \<and> lsp_holder_identity spec = Some (lc_identity cfg)
     \<and> lsp_renew_time spec = Some r \<and> jf_as_second j t \<le> jf_as_second j r + int (as_secs (lc_lease_duration cfg)))"

inductive election_step ::
  "jiff \<Rightarrow> (lease option \<Rightarrow> lease \<Rightarrow> lease) \<Rightarrow> (string \<Rightarrow> leader_config) \<Rightarrow> cluster \<Rightarrow> cluster \<Rightarrow> bool"
  for j store cfgs where
  tick: "in_jiff_range (jf_as_second j t) \<Longrightarrow> (\<And>c. c \<in> clu_leaders s \<Longrightarrow> renewed_by j (cfgs c) s t) \<Longrightarrow> election_step j store cfgs s (s\<lparr>clu_now := t\<rparr>)"
| acquire: "leader_validate (cfgs c) = Inr () \<Longrightarrow> decide_action j (clu_now s) (clu_lease s) (cfgs c) = act \<Longrightarrow> act \<noteq> WaitForLease \<Longrightarrow>
    election_step j store cfgs s (s\<lparr>clu_lease := Some (store (clu_lease s) (write_for act (cfgs c) (clu_now s) (clu_lease s))),
      clu_leaders := insert c (clu_leaders s)\<rparr>)"
| renew: "c \<in> clu_leaders s \<Longrightarrow>
    election_step j store cfgs s (s\<lparr>clu_lease := Some (store (clu_lease s) (owned_lease (cfgs c) (clu_now s) None None))\<rparr>)"
| step_down: "election_step j store cfgs s (s\<lparr>clu_leaders := clu_leaders s - {c}\<rparr>)"

text \<open>Candidates with their own names and one lease duration.\<close>

definition electorate :: "(string \<Rightarrow> leader_config) \<Rightarrow> bool" where
  "electorate cfgs = (\<exists>d. int (as_secs d) < 2 ^ 62 \<and> (\<forall>c. lc_lease_duration (cfgs c) = d) \<and> (\<forall>c. lc_identity (cfgs c) = c))"

definition exclusive :: "jiff \<Rightarrow> (string \<Rightarrow> leader_config) \<Rightarrow> cluster \<Rightarrow> bool" where
  "exclusive j cfgs s = ((\<forall>c \<in> clu_leaders s. c \<noteq> [] \<and> renewed_by j (cfgs c) s (clu_now s)) \<and> renewed_in_range j (clu_lease s)
     \<and> in_jiff_range (jf_as_second j (clu_now s)))"

lemma write_for_spec:
  "\<exists>spec. ls_spec (write_for act cfg now current) = Some spec \<and> lsp_holder_identity spec = Some (lc_identity cfg)
     \<and> lsp_renew_time spec = Some now"
  by (cases act) (auto simp: owned_lease_def)

lemma written_lease:
  assumes "stores_applied store" and "\<exists>spec. ls_spec x = Some spec \<and> lsp_holder_identity spec = Some (lc_identity cfg) \<and> lsp_renew_time spec = Some now"
  obtains y where "ls_spec (store old x) = Some y" "lsp_holder_identity y = Some (lc_identity cfg)" "lsp_renew_time y = Some now"
  using assms unfolding stores_applied_def by metis

lemma one_holder:
  assumes "exclusive j cfgs s" and "electorate cfgs" and "a \<in> clu_leaders s" and "b \<in> clu_leaders s"
  shows "a = b"
proof -
  from assms have "renewed_by j (cfgs a) s (clu_now s)" "renewed_by j (cfgs b) s (clu_now s)"
    by (simp_all add: exclusive_def)
  then have "lc_identity (cfgs a) = lc_identity (cfgs b)"
    by (auto simp: renewed_by_def)
  with assms(2) show ?thesis
    by (auto simp: electorate_def)
qed

lemma leader_blocks_others:
  assumes "exclusive j cfgs s" and "electorate cfgs" and "a \<in> clu_leaders s" and "c \<noteq> a"
  shows "decide_action j (clu_now s) (clu_lease s) (cfgs c) = WaitForLease"
proof -
  from assms(2) obtain d where d: "int (as_secs d) < 2 ^ 62" "\<And>c. lc_lease_duration (cfgs c) = d" "\<And>c. lc_identity (cfgs c) = c"
    by (auto simp: electorate_def)
  from assms(1,3) have "a \<noteq> []" "renewed_by j (cfgs a) s (clu_now s)" "renewed_in_range j (clu_lease s)"
    by (auto simp: exclusive_def)
  then have "held_by_other j (clu_now s) (clu_lease s) (cfgs c)"
    using assms(4) by (auto simp: renewed_by_def held_by_other_def d)
  with wait_iff [OF \<open>renewed_in_range j (clu_lease s)\<close>, of "cfgs c" "clu_now s"] d show ?thesis
    by simp
qed

lemma exclusive_write:
  assumes "exclusive j cfgs s" and "stores_applied store" and "clu_leaders s \<subseteq> {c}" and "c \<noteq> []"
    and x: "\<exists>spec. ls_spec x = Some spec \<and> lsp_holder_identity spec = Some (lc_identity (cfgs c)) \<and> lsp_renew_time spec = Some (clu_now s)"
    and L: "L \<subseteq> {c}"
  shows "exclusive j cfgs (s\<lparr>clu_lease := Some (store (clu_lease s) x), clu_leaders := L\<rparr>)"
proof -
  obtain y where "ls_spec (store (clu_lease s) x) = Some y" "lsp_holder_identity y = Some (lc_identity (cfgs c))" "lsp_renew_time y = Some (clu_now s)"
    using written_lease [OF assms(2) x] .
  with assms(1,4) L show ?thesis
    by (auto simp: exclusive_def renewed_by_def renewed_in_range_def)
qed

lemma exclusive_step:
  assumes "election_step j store cfgs s s'" and "exclusive j cfgs s" and e: "electorate cfgs" and st: "stores_applied store"
  shows "exclusive j cfgs s'"
  using assms(1,2)
proof (induction rule: election_step.induct)
  case (tick t s)
  then show ?case
    by (auto simp: exclusive_def renewed_by_def)
next
  case (acquire c s act)
  have c: "c \<noteq> []"
    using acquire(1) e by (auto simp: leader_validate_def electorate_def split: if_splits)
  have sub: "clu_leaders s \<subseteq> {c}"
    using leader_blocks_others [OF acquire(4) e, of _ c] acquire(2,3) by blast
  then have "insert c (clu_leaders s) \<subseteq> {c}"
    by blast
  then show ?case
    by (rule exclusive_write [OF acquire(4) st sub c write_for_spec])
next
  case (renew c s)
  have sub: "clu_leaders s \<subseteq> {c}"
    using one_holder [OF renew(2) e renew(1)] by blast
  have c: "c \<noteq> []"
    using renew by (simp add: exclusive_def)
  have "exclusive j cfgs (s\<lparr>clu_lease := Some (store (clu_lease s) (write_for Renew (cfgs c) (clu_now s) (clu_lease s))),
      clu_leaders := clu_leaders s\<rparr>)"
    by (rule exclusive_write [OF renew(2) st sub c write_for_spec sub])
  then show ?case
    by simp
next
  case (step_down s c)
  then show ?case
    by (auto simp: exclusive_def renewed_by_def)
qed


subsection \<open>What the code does without these conditions\<close>

text \<open>
  A leader does not notice that the lease is no longer its own: as long as the server accepts patches, every
  round of \<^verbatim>\<open>renew_forever\<close> succeeds and writes the leader's own name into the lease, whoever holds it.  So two
  replicas that both took over an expired lease both lead for good.
\<close>

lemma renew_round_accepted:
  assumes "\<And>n p w. \<not> isl (fst (api_patch (ee_leases env) n p w))"
  shows "fst (renew_round env cfg s) = Inr ()"
proof -
  have "\<exists>y. fst (api_patch (ee_leases env) n p w) = Inr y" for n p w
    using assms by (metis isl_def sum.exhaust)
  then obtain a where "\<And>n p w. fst (api_patch (ee_leases env) n p w) = Inr (a n p w)"
    by metis
  then show ?thesis
    by (cases s) (simp add: renew_round_def io_bind_def io_sleep_def io_attempt_def renew_once_def io_read_def io_err_eq kapply_def run_request
        lease_api_def io_return_def lease_observed_def io_readiness_def case_prod_unfold)
qed

theorem leader_never_gives_up:
  assumes "\<And>n p w. \<not> isl (fst (api_patch (ee_leases env) n p w))"
  shows "renew_forever env cfg s = None"
proof -
  have "\<not> (\<forall>n p w. \<not> isl (fst (api_patch (ee_leases env') n p w)))" if "renew_forever env' cfg' s' = Some y" for env' :: "('x shared_scheme) election_env" and cfg' s' y
  proof (rule renew_forever.raw_induct [OF _ that], goal_cases)
    case (1 f env' cfg' s' y)
    show ?case
    proof
      assume "\<forall>n p w. \<not> isl (fst (api_patch (ee_leases env') n p w))"
      moreover from this have "fst (renew_round env' cfg' s') = Inr ()"
        by (intro renew_round_accepted) simp
      ultimately show False
        using 1(1) [of env' cfg' "snd (renew_round env' cfg' s')" y] 1(2) by (auto simp: case_prod_unfold)
    qed
  qed
  with assms show ?thesis
    by (metis option.exhaust)
qed

definition holder_in :: "demo_world \<Rightarrow> string option" where
  "holder_in w = Option.bind (Option.bind (dw_lease w) ls_spec) lsp_holder_identity"

text \<open>
  Two candidates read the lease of a dead leader, both decide to take over, and both are told that they lead.
  The next renewal of the first writes its name over the second's.
\<close>

theorem two_leaders:
  "let l = owned_lease (demo_config ''dead'') 0 None None; s0 = ((demo_start (Some l))\<lparr>dw_clock := int (from_secs 30)\<rparr>, []);
       (ra, s1) = patch_take_over demo_election (demo_config ''a'') (Some l) s0;
       (rb, s2) = patch_take_over demo_election (demo_config ''b'') (Some l) s1;
       (rc, s3) = renew_once demo_election (demo_config ''a'') s2
   in decide_action demo_jiff (int (from_secs 30)) (Some l) (demo_config ''a'') = TakeOver
    \<and> decide_action demo_jiff (int (from_secs 30)) (Some l) (demo_config ''b'') = TakeOver
    \<and> ra = Inr () \<and> rb = Inr () \<and> rc = Inr () \<and> holder_in (fst s2) = Some ''b'' \<and> holder_in (fst s3) = Some ''a''"
  by code_simp

text \<open>
  Server-side apply by one field manager: a field of the new configuration is set, a field of the manager's
  previous configuration that is missing now is removed, and other fields stay.
\<close>

definition apply_field :: "'a option \<Rightarrow> 'a option \<Rightarrow> 'a option \<Rightarrow> 'a option" where
  "apply_field previous stored new = (case new of Some v \<Rightarrow> Some v | None \<Rightarrow> if previous = None then stored else None)"

definition apply_spec :: "lease_spec \<Rightarrow> lease_spec \<Rightarrow> lease_spec \<Rightarrow> lease_spec" where
  "apply_spec previous stored new =
     \<lparr>lsp_holder_identity = apply_field (lsp_holder_identity previous) (lsp_holder_identity stored) (lsp_holder_identity new),
      lsp_lease_duration_seconds = apply_field (lsp_lease_duration_seconds previous) (lsp_lease_duration_seconds stored) (lsp_lease_duration_seconds new),
      lsp_acquire_time = apply_field (lsp_acquire_time previous) (lsp_acquire_time stored) (lsp_acquire_time new),
      lsp_renew_time = apply_field (lsp_renew_time previous) (lsp_renew_time stored) (lsp_renew_time new),
      lsp_lease_transitions = apply_field (lsp_lease_transitions previous) (lsp_lease_transitions stored) (lsp_lease_transitions new)\<rparr>"

text \<open>
  A renewal leaves out \<^verbatim>\<open>acquireTime\<close> and \<^verbatim>\<open>leaseTransitions\<close> under the manager that set them on takeover, so the
  server removes them, and the next takeover counts from zero again.
\<close>

theorem transitions_forgotten:
  "let spec = (\<lambda>l. the (ls_spec l)); created = owned_lease (demo_config ''a'') 0 (Some 0) (Some 41);
       taken = write_for TakeOver (demo_config ''b'') 30 (Some created);
       s1 = apply_spec \<lparr>lsp_holder_identity = None, lsp_lease_duration_seconds = None, lsp_acquire_time = None, lsp_renew_time = None,
         lsp_lease_transitions = None\<rparr> (spec created) (spec taken);
       s2 = apply_spec (spec taken) s1 (spec (write_for Renew (demo_config ''b'') 35 None))
   in lsp_lease_transitions s1 = Some 42 \<and> lsp_lease_transitions s2 = None \<and> lsp_acquire_time s2 = None
    \<and> lsp_lease_transitions (spec (write_for TakeOver (demo_config ''c'') 90 (Some \<lparr>ls_meta = empty_meta, ls_spec = Some s2\<rparr>))) = Some 1"
  by code_simp


end
