(* ===== verification/Protocol.thy ===== *)
theory Protocol
  imports Trace_Logic
begin

section \<open>Protocols\<close>

text \<open>
  A protocol says of every request what must have happened before it.  \<open>guarded G tr\<close>: each event of the trace is
  allowed by the events before it.  \<open>keeps G K m Q\<close>: from a guarded trace on which \<open>K\<close> holds, \<open>m\<close> only appends
  events, the trace stays guarded, and if \<open>m\<close> returns a value then \<open>Q\<close> holds of it and the trace.  The rules below
  follow the shape of a computation, so a protocol of a whole pass is proved one step at a time.
\<close>

definition guarded :: "('v list \<Rightarrow> 'v \<Rightarrow> bool) \<Rightarrow> 'v list \<Rightarrow> bool" where
  "guarded G tr = (\<forall>pre e post. tr = pre @ e # post \<longrightarrow> G pre e)"

definition keeps ::
  "('v list \<Rightarrow> 'v \<Rightarrow> bool) \<Rightarrow> ('v list \<Rightarrow> bool) \<Rightarrow> ('v, 'w, 'e, 'a) traced \<Rightarrow> ('a \<Rightarrow> 'v list \<Rightarrow> bool) \<Rightarrow> bool" where
  "keeps G K m Q = (\<forall>w tr. guarded G tr \<longrightarrow> K tr \<longrightarrow>
     (case m (w, tr) of (r, (w', tr')) \<Rightarrow> (\<exists>evs. tr' = tr @ evs) \<and> guarded G tr' \<and> (\<forall>x. r = Inr x \<longrightarrow> Q x tr')))"

text \<open>Facts that later events do not undo.\<close>

definition upward :: "('v list \<Rightarrow> bool) \<Rightarrow> bool" where
  "upward K = (\<forall>tr evs. K tr \<longrightarrow> K (tr @ evs))"

text \<open>A step that sends nothing, and a computed result.\<close>

definition io_quiet :: "('w \<Rightarrow> ('e, 'a) result \<times> 'w) \<Rightarrow> ('v, 'w, 'e, 'a) traced" where
  "io_quiet f s = (case f (fst s) of (r, w) \<Rightarrow> (r, (w, snd s)))"

definition of_result :: "('e, 'a) result \<Rightarrow> ('v, 'w, 'e, 'a) traced" where
  "of_result r = (case r of Inl e \<Rightarrow> io_throw e | Inr x \<Rightarrow> io_return x)"

lemma guarded_Nil [simp]: "guarded G []"
  by (simp add: guarded_def)

lemma guarded_snoc [simp]: "guarded G (tr @ [e]) \<longleftrightarrow> guarded G tr \<and> G tr e"
proof
  assume g: "guarded G (tr @ [e])"
  then have "G pre x" if "tr = pre @ x # post" for pre x post
    using that unfolding guarded_def by simp
  with g show "guarded G tr \<and> G tr e"
    unfolding guarded_def by blast
next
  assume g: "guarded G tr \<and> G tr e"
  show "guarded G (tr @ [e])"
    unfolding guarded_def
  proof (intro allI impI)
    fix pre x post
    assume "tr @ [e] = pre @ x # post"
    with g show "G pre x"
      by (cases post rule: rev_cases) (auto simp: guarded_def)
  qed
qed

lemma guarded_mono: "guarded G tr \<Longrightarrow> (\<And>pre e. G pre e \<Longrightarrow> H pre e) \<Longrightarrow> guarded H tr"
  by (simp add: guarded_def)

lemma guardedD: "guarded G tr \<Longrightarrow> i < length tr \<Longrightarrow> G (take i tr) (tr ! i)"
  unfolding guarded_def by (metis id_take_nth_drop)

lemma upwardD: "upward K \<Longrightarrow> K tr \<Longrightarrow> K (tr @ evs)"
  by (simp add: upward_def)

named_theorems upwards

lemma upward_const [upwards]: "upward (\<lambda>_. c)"
  by (simp add: upward_def)

lemma upward_mem [upwards]: "upward (\<lambda>tr. e \<in> set tr)"
  by (simp add: upward_def)

lemma upward_conj [upwards]: "upward K \<Longrightarrow> upward L \<Longrightarrow> upward (\<lambda>tr. K tr \<and> L tr)"
  by (simp add: upward_def)

lemma upward_disj [upwards]: "upward K \<Longrightarrow> upward L \<Longrightarrow> upward (\<lambda>tr. K tr \<or> L tr)"
  by (auto simp: upward_def)

lemma upward_imp [upwards]: "upward L \<Longrightarrow> upward (\<lambda>tr. c \<longrightarrow> L tr)"
  by (simp add: upward_def)

lemma upward_ex [upwards]: "(\<And>x. upward (\<lambda>tr. K tr x)) \<Longrightarrow> upward (\<lambda>tr. \<exists>x. K tr x)"
  unfolding upward_def by blast

lemma upward_all [upwards]: "(\<And>x. upward (\<lambda>tr. K tr x)) \<Longrightarrow> upward (\<lambda>tr. \<forall>x. K tr x)"
  unfolding upward_def by blast

lemma upward_list [upwards]:
  "(\<And>x. upward (\<lambda>tr. P tr x)) \<Longrightarrow> upward (\<lambda>tr. list_all (P tr) xs)"
  "(\<And>x. upward (\<lambda>tr. P tr x)) \<Longrightarrow> upward (\<lambda>tr. list_ex (P tr) xs)"
  by (auto simp: upward_def list_all_iff list_ex_iff)

lemma upward_option [upwards]:
  "upward K \<Longrightarrow> (\<And>x. upward (L x)) \<Longrightarrow> upward (\<lambda>tr. case y of None \<Rightarrow> K tr | Some x \<Rightarrow> L x tr)"
  by (cases y) simp_all

lemma keepsI:
  assumes "\<And>w tr r w' tr'. guarded G tr \<Longrightarrow> K tr \<Longrightarrow> m (w, tr) = (r, (w', tr'))
    \<Longrightarrow> (\<exists>evs. tr' = tr @ evs) \<and> guarded G tr' \<and> (\<forall>x. r = Inr x \<longrightarrow> Q x tr')"
  shows "keeps G K m Q"
  using assms by (auto simp: keeps_def split: prod.split)

lemma keepsD:
  assumes "keeps G K m Q" and "guarded G tr" and "K tr" and "m (w, tr) = (r, (w', tr'))"
  shows "\<exists>evs. tr' = tr @ evs" and "guarded G tr'" and "r = Inr x \<Longrightarrow> Q x tr'"
proof -
  have "(\<exists>evs. tr' = tr @ evs) \<and> guarded G tr' \<and> (\<forall>x. r = Inr x \<longrightarrow> Q x tr')"
    using assms(1) [unfolded keeps_def, rule_format, OF assms(2,3), of w] unfolding assms(4) by simp
  then show "\<exists>evs. tr' = tr @ evs" and "guarded G tr'" and "r = Inr x \<Longrightarrow> Q x tr'"
    by blast+
qed

lemma keeps_return: "(\<And>tr. K tr \<Longrightarrow> Q x tr) \<Longrightarrow> keeps G K (io_return x) Q"
  by (simp add: keeps_def io_return_def)

lemma keeps_throw: "keeps G K (io_throw e) Q"
  by (simp add: keeps_def io_throw_def)

lemma keeps_bind:
  assumes "keeps G K m R" and "\<And>x. keeps G (R x) (f x) Q"
  shows "keeps G K (io_bind m f) Q"
proof (rule keepsI)
  fix w tr r w' tr'
  assume start: "guarded G tr" "K tr" and run: "io_bind m f (w, tr) = (r, (w', tr'))"
  obtain r1 w1 tr1 where m: "m (w, tr) = (r1, (w1, tr1))"
    by (metis prod.exhaust)
  note one = keepsD [OF assms(1) start m]
  show "(\<exists>evs. tr' = tr @ evs) \<and> guarded G tr' \<and> (\<forall>x. r = Inr x \<longrightarrow> Q x tr')"
  proof (cases r1)
    case (Inl e)
    with run m one show ?thesis
      by (auto simp: io_bind_def)
  next
    case (Inr y)
    with run m have f: "f y (w1, tr1) = (r, (w', tr'))"
      by (simp add: io_bind_def)
    from keepsD [OF assms(2) one(2) one(3) [OF Inr] f] one(1) show ?thesis
      by auto
  qed
qed

lemma keeps_if: "(c \<Longrightarrow> keeps G K m Q) \<Longrightarrow> (\<not> c \<Longrightarrow> keeps G K n Q) \<Longrightarrow> keeps G K (if c then m else n) Q"
  by simp

lemma keeps_conseq:
  assumes "keeps G K m Q" and "\<And>tr. K' tr \<Longrightarrow> K tr" and "\<And>x tr. Q x tr \<Longrightarrow> Q' x tr"
  shows "keeps G K' m Q'"
  using assms unfolding keeps_def by (fastforce split: prod.splits)

lemma keeps_frame:
  assumes "keeps G K m Q" and "upward L"
  shows "keeps G (\<lambda>tr. K tr \<and> L tr) m (\<lambda>x tr. Q x tr \<and> L tr)"
  using assms unfolding keeps_def upward_def by (fastforce split: prod.splits)

lemma keeps_err: "keeps G K m Q \<Longrightarrow> keeps G K (io_err g m) Q"
  unfolding keeps_def io_err_def by (fastforce split: prod.splits sum.splits)

text \<open>What held before still holds after a step that may have failed.\<close>

lemma keeps_attempt:
  assumes "keeps G K m Q" and "upward K"
  shows "keeps G K (io_attempt m) (\<lambda>r tr. K tr \<and> (\<forall>x. r = Inr x \<longrightarrow> Q x tr))"
  using assms unfolding keeps_def upward_def io_attempt_def by (fastforce split: prod.splits)

lemma keeps_call:
  assumes "\<And>tr r. K tr \<Longrightarrow> G tr (ev r)" and "\<And>tr x. K tr \<Longrightarrow> Q x (tr @ [ev (Inr x)])"
  shows "keeps G K (io_call ev f) Q"
  using assms by (auto simp: keeps_def run_call)

lemma keeps_attempt_call:
  assumes "\<And>tr r. K tr \<Longrightarrow> G tr (ev r)" and "\<And>tr r. K tr \<Longrightarrow> Q (map_sum g id r) (tr @ [ev r])"
  shows "keeps G K (io_attempt (io_err g (io_call ev f))) Q"
proof (rule keepsI)
  fix w tr r w' tr'
  assume "guarded G tr" "K tr" "io_attempt (io_err g (io_call ev f)) (w, tr) = (r, (w', tr'))"
  moreover have "io_err g (io_call ev f) (w, tr) = (map_sum g id (fst (f w)), (snd (f w), tr @ [ev (fst (f w))]))"
    by (simp add: io_err_def run_call split: sum.split)
  ultimately show "(\<exists>evs. tr' = tr @ evs) \<and> guarded G tr' \<and> (\<forall>x. r = Inr x \<longrightarrow> Q x tr')"
    using assms by (auto simp: io_attempt_def)
qed

lemma keeps_attempt_call_plain:
  assumes "\<And>tr r. K tr \<Longrightarrow> G tr (ev r)" and "\<And>tr r. K tr \<Longrightarrow> Q r (tr @ [ev r])"
  shows "keeps G K (io_attempt (io_call ev f)) Q"
  using assms by (auto simp: keeps_def io_attempt_def run_call)

lemma keeps_now: "(\<And>tr t. K tr \<Longrightarrow> Q t tr) \<Longrightarrow> keeps G K (io_now clock) Q"
  by (auto simp: keeps_def io_now_def split: prod.split)

lemma keeps_now_bind: "(\<And>t. keeps G K (f t) Q) \<Longrightarrow> keeps G K (io_bind (io_now clock) f) Q"
  by (rule keeps_bind [OF keeps_now])

lemma keeps_quiet: "(\<And>tr x. K tr \<Longrightarrow> Q x tr) \<Longrightarrow> keeps G K (io_quiet f) Q"
  by (auto simp: keeps_def io_quiet_def split: prod.split)

lemma keeps_of_result: "(\<And>tr x. r = Inr x \<Longrightarrow> K tr \<Longrightarrow> Q x tr) \<Longrightarrow> keeps G K (of_result r) Q"
  by (auto simp: of_result_def intro: keeps_return keeps_throw split: sum.split)

lemma keeps_emits:
  assumes "emits A m" and "\<And>tr e. A e \<Longrightarrow> K tr \<Longrightarrow> G tr e" and "upward K"
  shows "keeps G K m (\<lambda>_. K)"
proof (rule keepsI)
  fix w tr r w' tr'
  assume start: "guarded G tr" "K tr" and run: "m (w, tr) = (r, (w', tr'))"
  from emitsD [OF assms(1) run] obtain evs where evs: "tr' = tr @ evs" "list_all A evs" .
  from evs(2) start have "guarded G (tr @ evs)"
  proof (induction evs arbitrary: tr)
    case (Cons e evs)
    then have "guarded G (tr @ [e])" "K (tr @ [e])"
      using assms(2) upwardD [OF assms(3)] by simp_all
    with Cons.IH [of "tr @ [e]"] Cons.prems show ?case
      by simp
  qed simp
  with evs start assms(3) show "(\<exists>evs. tr' = tr @ evs) \<and> guarded G tr' \<and> (\<forall>x. r = Inr x \<longrightarrow> K tr')"
    by (auto simp: upward_def)
qed

lemma keeps_trace:
  assumes "keeps G (\<lambda>tr. tr = []) m Q"
  shows "guarded G (trace_of m w)" and "result_of m w = Inr x \<Longrightarrow> Q x (trace_of m w)"
proof -
  obtain r w' tr' where run: "m (w, []) = (r, (w', tr'))"
    by (metis prod.exhaust)
  from keepsD [OF assms guarded_Nil refl run] run show "guarded G (trace_of m w)"
    and "result_of m w = Inr x \<Longrightarrow> Q x (trace_of m w)"
    by (simp_all add: trace_of_def result_of_def)
qed

end
