(* ===== verification/Naming.thy ===== *)
theory Naming
  imports Text_Util Infra_Types
begin

section \<open>Names and field managers\<close>

text \<open>
  \<^verbatim>\<open>banlieue-provider-sdk/src/naming.rs\<close> and \<^verbatim>\<open>banlieue-operator/src/naming.rs\<close> (names and labels of the objects
  created for a \<^verbatim>\<open>Provider\<close>), and the field managers of \<^verbatim>\<open>ssa.rs\<close>.  A slice of a string at a position that is
  not a character boundary panics; that is the value \<open>None\<close>.
\<close>

subsection \<open>Hashes and slices\<close>

unbundle bit_operations_syntax

definition fnv_step :: "'a::len word \<Rightarrow> 'a word \<Rightarrow> char \<Rightarrow> 'a word" where
  "fnv_step prime h c = (h XOR word_of_int (of_char c)) * prime"

definition FNV_OFFSET_BASIS :: "32 word" where "FNV_OFFSET_BASIS = 2166136261"
definition FNV_PRIME :: "32 word" where "FNV_PRIME = 16777619"

definition fnv1a32 :: "string \<Rightarrow> 32 word" where
  "fnv1a32 s = foldl (fnv_step FNV_PRIME) FNV_OFFSET_BASIS s"

definition fnv1a64 :: "string \<Rightarrow> 64 word" where
  "fnv1a64 s = foldl (fnv_step 0x100000001b3) 0xcbf29ce484222325 s"

text \<open>\<^verbatim>\<open>{:08x}\<close> and \<^verbatim>\<open>{:016x}\<close>.\<close>

fun hex_digits :: "nat \<Rightarrow> int \<Rightarrow> string" where
  "hex_digits 0 n = []"
| "hex_digits (Suc k) n = hex_digits k (n div 16) @ [hex_char (nat (n mod 16))]"

definition char_boundary :: "nat \<Rightarrow> string \<Rightarrow> bool" where
  "char_boundary k s = (k = length s \<or> k < length s \<and> \<not> (0x80 \<le> (of_char (s ! k) :: nat) \<and> (of_char (s ! k) :: nat) < 0xC0))"

definition slice_to :: "nat \<Rightarrow> string \<Rightarrow> string option" where
  "slice_to k s = (if char_boundary k s then Some (take k s) else None)"

definition trim_end_matches :: "char \<Rightarrow> string \<Rightarrow> string" where
  "trim_end_matches c s = rev (dropWhile (\<lambda>x. x = c) (rev s))"

subsection \<open>Workload names\<close>

definition MAX_NAME_LEN :: nat where "MAX_NAME_LEN = 63"
definition WORKLOAD_NAME_PREFIX :: string where "WORKLOAD_NAME_PREFIX = ''banlieue-provider''"
definition HASH_SUFFIX_LEN :: nat where "HASH_SUFFIX_LEN = 8"

definition truncate_with_hash :: "string \<Rightarrow> string option" where
  "truncate_with_hash name =
     (if length name \<le> MAX_NAME_LEN then Some name
      else map_option (\<lambda>h. trim_end_matches CHR ''-'' h @ ''-'' @ hex_digits 8 (uint (fnv1a32 name)))
        (slice_to (MAX_NAME_LEN - HASH_SUFFIX_LEN - 1) name))"

definition workload_name :: "string \<Rightarrow> string \<Rightarrow> string option" where
  "workload_name cls provider = truncate_with_hash (WORKLOAD_NAME_PREFIX @ ''-'' @ cls @ ''-'' @ provider)"

definition cluster_scoped_name :: "string \<Rightarrow> string \<Rightarrow> string \<Rightarrow> string option" where
  "cluster_scoped_name cls provider_namespace provider =
     truncate_with_hash (WORKLOAD_NAME_PREFIX @ ''-'' @ cls @ ''-'' @ provider_namespace @ ''-'' @ provider)"

subsection \<open>Labels\<close>

definition LABEL_PROVIDER :: string where "LABEL_PROVIDER = ''banlieue.io/provider''"
definition LABEL_PROVIDER_NAMESPACE :: string where "LABEL_PROVIDER_NAMESPACE = ''banlieue.io/provider-namespace''"
definition LABEL_PROVIDER_CLASS :: string where "LABEL_PROVIDER_CLASS = ''banlieue.io/provider-class''"
definition LABEL_NAME :: string where "LABEL_NAME = ''app.kubernetes.io/name''"
definition LABEL_COMPONENT :: string where "LABEL_COMPONENT = ''app.kubernetes.io/component''"
definition LABEL_MANAGED_BY :: string where "LABEL_MANAGED_BY = ''app.kubernetes.io/managed-by''"
definition LABEL_INSTANCE :: string where "LABEL_INSTANCE = ''app.kubernetes.io/instance''"
definition APP_NAME :: string where "APP_NAME = ''banlieue''"
definition MANAGED_BY :: string where "MANAGED_BY = ''banlieue-operator''"

definition owned_by_selector :: "string \<Rightarrow> string \<Rightarrow> string" where
  "owned_by_selector provider_namespace provider =
     LABEL_PROVIDER @ ''='' @ provider @ '','' @ LABEL_PROVIDER_NAMESPACE @ ''='' @ provider_namespace"

definition component :: "string \<Rightarrow> string" where
  "component backend = ''provider-'' @ backend"

definition selector_labels :: "string \<Rightarrow> btmap" where
  "selector_labels provider = bt_insert LABEL_PROVIDER provider (bt_insert LABEL_NAME APP_NAME [])"

definition workload_labels :: "string \<Rightarrow> string \<Rightarrow> string \<Rightarrow> btmap option" where
  "workload_labels cls provider backend = map_option (\<lambda>n.
     bt_insert LABEL_INSTANCE n (bt_insert LABEL_PROVIDER_CLASS cls (bt_insert LABEL_MANAGED_BY MANAGED_BY
       (bt_insert LABEL_COMPONENT (component backend) (selector_labels provider))))) (workload_name cls provider)"

definition workload_labels_for :: "string \<Rightarrow> string \<Rightarrow> string \<Rightarrow> string \<Rightarrow> btmap option" where
  "workload_labels_for cls provider_namespace provider backend =
     map_option (bt_insert LABEL_PROVIDER_NAMESPACE provider_namespace) (workload_labels cls provider backend)"

definition provider_selector :: "string \<Rightarrow> string" where
  "provider_selector provider = LABEL_PROVIDER @ ''='' @ provider"

subsection \<open>Field managers\<close>

definition FIELD_MANAGER_PROVIDER_VSPHERE :: string where "FIELD_MANAGER_PROVIDER_VSPHERE = ''banlieue.io/provider-vsphere''"
definition FIELD_MANAGER_PROVIDER_PROXMOX :: string where "FIELD_MANAGER_PROVIDER_PROXMOX = ''banlieue.io/provider-proxmox''"
definition FIELD_MANAGER_PROVIDER_LIBVIRT :: string where "FIELD_MANAGER_PROVIDER_LIBVIRT = ''banlieue.io/provider-libvirt''"
definition FIELD_MANAGER_PROVIDER_CLOUD_HYPERVISOR :: string where
  "FIELD_MANAGER_PROVIDER_CLOUD_HYPERVISOR = ''banlieue.io/provider-cloud-hypervisor''"
definition FIELD_MANAGER_IMAGEBUILDER :: string where "FIELD_MANAGER_IMAGEBUILDER = ''banlieue.io/imagebuilder''"
definition FIELD_MANAGER_MAX_LEN :: nat where "FIELD_MANAGER_MAX_LEN = 128"
definition FIELD_MANAGER_HASH_HEX :: nat where "FIELD_MANAGER_HASH_HEX = 8"

definition stable_hash_hex :: "string \<Rightarrow> string" where
  "stable_hash_hex input = take FIELD_MANAGER_HASH_HEX (hex_digits 16 (uint (fnv1a64 input)))"

text \<open>\<^verbatim>\<open>String::truncate\<close> does nothing on a string that is short enough.\<close>

definition truncate_to :: "nat \<Rightarrow> string \<Rightarrow> string option" where
  "truncate_to k s = (if length s \<le> k then Some s else slice_to k s)"

definition provider_field_manager :: "string \<Rightarrow> string \<Rightarrow> string \<Rightarrow> string option" where
  "provider_field_manager cls provider_namespace provider_name =
     (let full = cls @ ''/'' @ provider_namespace @ ''/'' @ provider_name
      in if length full \<le> FIELD_MANAGER_MAX_LEN then Some full
         else let suffix = ''/'' @ stable_hash_hex (provider_namespace @ ''/'' @ provider_name)
              in map_option (\<lambda>p. p @ suffix) (truncate_to (FIELD_MANAGER_MAX_LEN - length suffix) cls))"

definition status_field_manager :: "string \<Rightarrow> string option \<Rightarrow> string \<Rightarrow> string option" where
  "status_field_manager cls provider_name provider_namespace =
     (case provider_name of Some n \<Rightarrow> provider_field_manager cls provider_namespace n | None \<Rightarrow> Some cls)"

subsection \<open>Lengths\<close>

lemma length_hex_digits [simp]: "length (hex_digits k n) = k"
  by (induction k arbitrary: n) auto

lemma length_trim_end: "length (trim_end_matches c s) \<le> length s"
  by (simp add: trim_end_matches_def length_dropWhile_le [THEN order_trans])

lemma length_stable_hash [simp]: "length (stable_hash_hex s) = 8"
  by (simp add: stable_hash_hex_def FIELD_MANAGER_HASH_HEX_def)

definition ascii :: "string \<Rightarrow> bool" where
  "ascii s = list_all (\<lambda>c. (of_char c :: nat) < 0x80) s"

lemma slice_to_ascii:
  assumes "ascii s" and "k \<le> length s"
  shows "slice_to k s = Some (take k s)"
proof (cases "k < length s")
  case True
  then have "(of_char (s ! k) :: nat) < 0x80"
    using assms(1) unfolding ascii_def list_all_length by blast
  with True show ?thesis
    by (simp add: slice_to_def char_boundary_def)
next
  case False
  with assms(2) show ?thesis
    by (simp add: slice_to_def char_boundary_def)
qed

lemma truncated_length: "truncate_with_hash name = Some r \<Longrightarrow> length r \<le> MAX_NAME_LEN"
  using length_trim_end [of "CHR ''-''" "take (MAX_NAME_LEN - HASH_SUFFIX_LEN - 1) name"]
  by (auto simp: truncate_with_hash_def slice_to_def MAX_NAME_LEN_def HASH_SUFFIX_LEN_def split: if_splits)

lemma truncate_ascii: "ascii name \<Longrightarrow> \<exists>r. truncate_with_hash name = Some r"
  by (auto simp: truncate_with_hash_def MAX_NAME_LEN_def HASH_SUFFIX_LEN_def slice_to_ascii)

text \<open>
  Derived names are always usable: for ASCII names the derivation never panics, the workload name and the
  cluster-scoped name fit the 63 characters of a label value, and a field manager fits the 128 characters the
  API server accepts.
\<close>

theorem derived_names_fit:
  assumes "ascii cls" and "ascii ns" and "ascii name"
  shows "(\<exists>w. workload_name cls name = Some w \<and> length w \<le> 63) \<and> (\<exists>c. cluster_scoped_name cls ns name = Some c \<and> length c \<le> 63)
    \<and> (\<exists>m. provider_field_manager cls ns name = Some m \<and> length m \<le> 128)"
proof (intro conjI)
  have a: "ascii (WORKLOAD_NAME_PREFIX @ ''-'' @ cls @ ''-'' @ name)" "ascii (WORKLOAD_NAME_PREFIX @ ''-'' @ cls @ ''-'' @ ns @ ''-'' @ name)"
    using assms by (simp_all add: ascii_def WORKLOAD_NAME_PREFIX_def)
  show "\<exists>w. workload_name cls name = Some w \<and> length w \<le> 63"
    using truncate_ascii [OF a(1)] truncated_length by (fastforce simp: workload_name_def MAX_NAME_LEN_def)
  show "\<exists>c. cluster_scoped_name cls ns name = Some c \<and> length c \<le> 63"
    using truncate_ascii [OF a(2)] truncated_length by (fastforce simp: cluster_scoped_name_def MAX_NAME_LEN_def)
  show "\<exists>m. provider_field_manager cls ns name = Some m \<and> length m \<le> 128"
    using assms(1) by (auto simp: provider_field_manager_def Let_def FIELD_MANAGER_MAX_LEN_def truncate_to_def slice_to_ascii)
qed

text \<open>
  Two writers, two managers: as long as the full form fits, the managers of two providers of one class are
  equal only if namespace and name are, since neither contains a slash.
\<close>

theorem field_manager_names_one_writer:
  assumes "provider_field_manager cls ns name = Some m" and "provider_field_manager cls ns' name' = Some m"
    and "CHR ''/'' \<notin> set ns" and "CHR ''/'' \<notin> set ns'" and "CHR ''/'' \<notin> set name" and "CHR ''/'' \<notin> set name'"
    and "length cls + length ns + length name + 2 \<le> 128" and "length cls + length ns' + length name' + 2 \<le> 128"
  shows "ns = ns' \<and> name = name'"
proof -
  have "ns @ ''/'' @ name = ns' @ ''/'' @ name'"
    using assms(1,2,7,8) by (auto simp: provider_field_manager_def FIELD_MANAGER_MAX_LEN_def)
  then have "split_char CHR ''/'' (ns @ CHR ''/'' # name) = split_char CHR ''/'' (ns' @ CHR ''/'' # name')"
    by simp
  with assms(3-6) show ?thesis
    by (simp add: split_char_append)
qed

theorem field_manager_names_one_writer_witness:
  "\<exists>m m'. provider_field_manager FIELD_MANAGER_PROVIDER_LIBVIRT ''a'' ''h1'' = Some m
    \<and> provider_field_manager FIELD_MANAGER_PROVIDER_LIBVIRT ''a'' ''h2'' = Some m' \<and> m \<noteq> m'"
proof -
  obtain m m' where m: "provider_field_manager FIELD_MANAGER_PROVIDER_LIBVIRT ''a'' ''h1'' = Some m"
    "provider_field_manager FIELD_MANAGER_PROVIDER_LIBVIRT ''a'' ''h2'' = Some m'"
    by (simp add: provider_field_manager_def FIELD_MANAGER_PROVIDER_LIBVIRT_def FIELD_MANAGER_MAX_LEN_def)
  have "m \<noteq> m'"
    using field_manager_names_one_writer [OF m(1), of "''a''" "''h2''"] m(2)
    by (auto simp: FIELD_MANAGER_PROVIDER_LIBVIRT_def)
  with m show ?thesis
    by blast
qed

theorem derived_names_fit_witness:
  "\<exists>w. workload_name ''libvirt'' (replicate 90 CHR ''a'') = Some w \<and> length w \<le> 63"
proof -
  have "ascii ''libvirt''" "ascii ''ns''" "ascii (replicate 90 CHR ''a'')"
    by code_simp+
  from derived_names_fit [OF this] show ?thesis
    by blast
qed

text \<open>
  Past that length the manager depends on the provider through a hash of eight characters only, so there are
  two providers of one namespace with one manager.
\<close>

theorem truncated_managers_collide:
  "\<exists>n n'. n \<noteq> n' \<and> length n = 92 \<and> length n' = 92
     \<and> provider_field_manager FIELD_MANAGER_PROVIDER_CLOUD_HYPERVISOR ''ns'' n
       = provider_field_manager FIELD_MANAGER_PROVIDER_CLOUD_HYPERVISOR ''ns'' n'"
proof -
  let ?N = "{n. set n \<subseteq> {CHR ''a'', CHR ''b''} \<and> length n = 92}" and ?D = "{d :: string. set d \<subseteq> UNIV \<and> length d = 8}"
  let ?h = "\<lambda>n. stable_hash_hex (''ns'' @ ''/'' @ n)"
  have "card ?N = card {CHR ''a'', CHR ''b''} ^ 92" "card ?D = card (UNIV :: char set) ^ 8"
    by (rule card_lists_length_eq, simp)+
  then have "card ?D < card ?N"
    by (simp add: card_UNIV_char numeral_2_eq_2 [symmetric])
  moreover have "finite ?D"
    by (rule finite_lists_length_eq) simp
  then have "card (?h ` ?N) \<le> card ?D"
    by (intro card_mono) auto
  ultimately have "\<not> inj_on ?h ?N"
    by (intro pigeonhole) simp
  then obtain n n' where "n \<noteq> n'" "length n = 92" "length n' = 92" "?h n = ?h n'"
    by (auto simp: inj_on_def)
  then show ?thesis
    by (intro exI [of _ n] exI [of _ n'])
      (simp add: provider_field_manager_def Let_def FIELD_MANAGER_MAX_LEN_def FIELD_MANAGER_PROVIDER_CLOUD_HYPERVISOR_def)
qed

text \<open>
  The parts of a workload name are joined by the dash that they may themselves contain, so providers of
  different classes, and providers of different namespaces, can get one name.
\<close>

theorem workload_names_collide:
  "workload_name ''cloud'' ''hypervisor-a'' = workload_name ''cloud-hypervisor'' ''a''
    \<and> cluster_scoped_name ''libvirt'' ''team'' ''a-b'' = cluster_scoped_name ''libvirt'' ''team-a'' ''b''"
  by code_simp

end
