(* ===== verification/Proxmox_Api.thy ===== *)
theory Proxmox_Api
  imports Trace_Logic Naming
begin

section \<open>The Proxmox client\<close>

text \<open>
  Model of \<^verbatim>\<open>crates/banlieue-proxmox/src\<close>: errors, API tokens, task ids, request parameters and path segments,
  the operations of the client over an arbitrary HTTP transport, and waiting for a task.  A \<^verbatim>\<open>u16\<close>, \<^verbatim>\<open>u32\<close> or
  \<^verbatim>\<open>u64\<close> is a natural number, a \<^verbatim>\<open>Duration\<close> a number of nanoseconds.  Parameters are the transport, the JSON
  parser and the decoders that \<^verbatim>\<open>serde\<close> derives for the response types.
\<close>

subsection \<open>Errors\<close>

datatype pve_error =
    PveTransport string
  | PveTimeout nat
  | PveApi nat string
  | PveResponseTooLarge nat
  | PveDecode string
  | PveInvalidToken string
  | PveInvalidUpid string
  | PveConfig string
  | PveTaskFailed string string
  | PveTaskTimeout string nat

text \<open>\<^verbatim>\<open>str::contains\<close>.\<close>

fun contains_str :: "'a list \<Rightarrow> 'a list \<Rightarrow> bool" where
  "contains_str pat [] = (pat = [])"
| "contains_str pat (c # s) = (take (length pat) (c # s) = pat \<or> contains_str pat s)"

definition pve_is_not_found :: "pve_error \<Rightarrow> bool" where
  "pve_is_not_found e = (case e of
     PveApi status message \<Rightarrow> status = 404 \<or> status = 500 \<and> contains_str ''does not exist'' message
   | _ \<Rightarrow> False)"

definition pve_is_unauthorized :: "pve_error \<Rightarrow> bool" where
  "pve_is_unauthorized e = (case e of PveApi status _ \<Rightarrow> status = 401 \<or> status = 403 | _ \<Rightarrow> False)"

text \<open>\<^verbatim>\<open>{:?}\<close> of a \<^verbatim>\<open>Duration\<close>: the largest unit that is not zero, with the fraction's trailing zeros removed.\<close>

definition fraction :: "nat \<Rightarrow> nat \<Rightarrow> string" where
  "fraction width n =
     (if n = 0 then []
      else CHR ''.'' # trim_end_matches (CHR ''0'') (replicate (width - length (show_nat n)) (CHR ''0'') @ show_nat n))"

definition debug_duration :: "nat \<Rightarrow> string" where
  "debug_duration d =
     (let secs = d div 1000000000; nanos = d mod 1000000000
      in if secs > 0 then show_nat secs @ fraction 9 nanos @ ''s''
         else if nanos \<ge> 1000000 then show_nat (nanos div 1000000) @ fraction 6 (nanos mod 1000000) @ ''ms''
         else if nanos \<ge> 1000 then show_nat (nanos div 1000) @ fraction 3 (nanos mod 1000) @ [CHR 0xC2, CHR 0xB5, CHR ''s'']
         else show_nat nanos @ ''ns'')"

fun pve_error_text :: "pve_error \<Rightarrow> string" where
  "pve_error_text (PveTransport m) = ''Proxmox transport: '' @ m"
| "pve_error_text (PveTimeout d) = ''Proxmox did not answer within '' @ debug_duration d"
| "pve_error_text (PveApi status m) = ''Proxmox returned '' @ show_nat status @ '': '' @ m"
| "pve_error_text (PveResponseTooLarge limit) = ''Proxmox response exceeded the '' @ show_nat limit @ ''-byte limit''"
| "pve_error_text (PveDecode m) = ''Proxmox response did not decode: '' @ m"
| "pve_error_text (PveInvalidToken m) = ''invalid API token: '' @ m"
| "pve_error_text (PveInvalidUpid m) = ''invalid UPID: '' @ m"
| "pve_error_text (PveConfig m) = ''invalid Proxmox client configuration: '' @ m"
| "pve_error_text (PveTaskFailed u m) = ''Proxmox task '' @ u @ '' failed: '' @ m"
| "pve_error_text (PveTaskTimeout u d) = ''Proxmox task '' @ u @ '' still running after '' @ debug_duration d"

subsection \<open>Tokens and task ids\<close>

record api_token =
  at_id :: string
  at_header :: string

definition has_white_space :: "string \<Rightarrow> bool" where
  "has_white_space s = list_ex (\<lambda>w. contains_str w s) white_space"

definition api_token_new :: "string \<Rightarrow> string \<Rightarrow> (pve_error, api_token) result" where
  "api_token_new token_id secret_value =
     (let id = trim token_id; secret = trim secret_value
      in case split_once (CHR ''!'') id of
           None \<Rightarrow> Inl (PveInvalidToken ''username must be user@realm!tokenid (missing '!')'')
         | Some (user_realm, name) \<Rightarrow>
             if name = [] \<or> CHR ''!'' \<in> set name then Inl (PveInvalidToken (''token id must be one non-empty name after '' @ [CHR 0x27, CHR ''!'', CHR 0x27]))
             else (case split_once (CHR ''@'') user_realm of
               None \<Rightarrow> Inl (PveInvalidToken ''username must be user@realm!tokenid (missing '@')'')
             | Some (user, realm) \<Rightarrow>
                 if user = [] \<or> realm = [] then Inl (PveInvalidToken ''user and realm must be non-empty'')
                 else if secret = [] then Inl (PveInvalidToken ''token secret is empty'')
                 else if has_white_space secret then Inl (PveInvalidToken ''token secret contains whitespace'')
                 else Inr \<lparr>at_id = id, at_header = ''PVEAPIToken='' @ id @ ''='' @ secret\<rparr>))"

record upid =
  upid_raw :: string
  upid_node :: string
  upid_task_type :: string
  upid_id :: string

definition UPID_FIELDS :: nat where "UPID_FIELDS = 9"

definition is_ascii_alphanumeric :: "char \<Rightarrow> bool" where
  "is_ascii_alphanumeric c = (is_ascii_uppercase c \<or> is_ascii_lowercase c \<or> is_ascii_digit c)"

definition upid_parse :: "string \<Rightarrow> (pve_error, upid) result" where
  "upid_parse raw =
     (let bad = (\<lambda>why. Inl (PveInvalidUpid (why @ '': '' @ debug_str raw)));
          parts = split_char (CHR '':'') raw
      in if length parts \<noteq> UPID_FIELDS \<or> parts ! 0 \<noteq> ''UPID'' \<or> parts ! (UPID_FIELDS - 1) \<noteq> []
         then bad ''expected UPID:node:pid:pstart:starttime:type:id:user:''
         else let node = parts ! 1
              in if node = [] \<or> \<not> list_all (\<lambda>c. is_ascii_alphanumeric c \<or> c = CHR ''-'' \<or> c = CHR ''.'') node
                    \<or> starts_with ''.'' node
                 then bad ''node is not a plain host name''
                 else if list_ex (\<lambda>hex. hex = [] \<or> \<not> list_all (is_digit 16) hex) (take 3 (drop 2 parts))
                 then bad ''pid/pstart/starttime must be hex''
                 else Inr \<lparr>upid_raw = raw, upid_node = node, upid_task_type = parts ! 5, upid_id = parts ! 6\<rparr>)"

subsection \<open>Parameters and paths\<close>

type_synonym params = "(string \<times> string) list"

fun params_set :: "string \<Rightarrow> string \<Rightarrow> params \<Rightarrow> params" where
  "params_set k v [] = [(k, v)]"
| "params_set k v ((k', v') # ps) = (if k' = k then (k', v) # ps else (k', v') # params_set k v ps)"

definition params_set_opt :: "string \<Rightarrow> string option \<Rightarrow> params \<Rightarrow> params" where
  "params_set_opt k v ps = (case v of Some x \<Rightarrow> params_set k x ps | None \<Rightarrow> ps)"

definition params_flag :: "string \<Rightarrow> bool \<Rightarrow> params \<Rightarrow> params" where
  "params_flag k on ps = params_set k (if on then ''1'' else ''0'') ps"

definition upper_hex :: "nat \<Rightarrow> char" where
  "upper_hex n = (if n < 10 then char_of (48 + n) else char_of (55 + n))"

definition segment_char :: "char \<Rightarrow> bool" where
  "segment_char c = (is_ascii_alphanumeric c \<or> c \<in> set ''-_.~:'')"

definition encode_byte :: "char \<Rightarrow> string" where
  "encode_byte c = (if segment_char c then [c]
     else [CHR ''%'', upper_hex (of_char c div 16), upper_hex (of_char c mod 16)])"

definition encode_segment :: "string \<Rightarrow> string" where
  "encode_segment segment =
     (let out = concat (map encode_byte segment)
      in if out = ''..'' \<or> out = ''.'' then concat (map (\<lambda>c. if c = CHR ''.'' then ''%2E'' else [c]) out) else out)"

subsection \<open>Types of the interface\<close>

record pve_version =
  pv_version :: string
  pv_release :: "string option"
  pv_repoid :: "string option"

definition pve_major :: "pve_version \<Rightarrow> nat option" where
  "pve_major v = (case parse_u32 (hd (split_char (CHR ''.'') (pv_version v))) of Inr n \<Rightarrow> Some n | Inl _ \<Rightarrow> None)"

record pve_node =
  pn_node :: string
  pn_status :: string
  pn_maxcpu :: "nat option"
  pn_maxmem :: "nat option"

definition is_online :: "pve_node \<Rightarrow> bool" where
  "is_online n = (pn_status n = ''online'')"

record cluster_vm =
  cv_vmid :: nat
  cv_node :: string
  cv_name :: "string option"
  cv_status :: string
  cv_kind :: string
  cv_template :: bool

record pve_storage =
  ps_storage :: string
  ps_kind :: string
  ps_content :: string
  ps_enabled :: bool
  ps_active :: bool
  ps_shared :: bool
  ps_total :: "nat option"
  ps_avail :: "nat option"

definition has_content :: "pve_storage \<Rightarrow> string \<Rightarrow> bool" where
  "has_content s kind = list_ex (\<lambda>c. trim c = kind) (split_char (CHR '','') (ps_content s))"

definition usable_for :: "pve_storage \<Rightarrow> string \<Rightarrow> bool" where
  "usable_for s kind = (ps_enabled s \<and> ps_active s \<and> has_content s kind)"

record network_iface =
  ni_iface :: string
  ni_kind :: string
  ni_active :: bool
  ni_vlan_aware :: bool

definition is_bridge :: "network_iface \<Rightarrow> bool" where
  "is_bridge n = (ni_kind n = ''bridge'')"

record volume =
  vol_volid :: string
  vol_content :: string
  vol_size :: "nat option"
  vol_format :: "string option"

record task_status =
  ts_status :: string
  ts_exitstatus :: "string option"

definition task_is_running :: "task_status \<Rightarrow> bool" where
  "task_is_running s = (ts_status s \<noteq> ''stopped'')"

definition task_succeeded :: "task_status \<Rightarrow> bool" where
  "task_succeeded s = (\<not> task_is_running s \<and> ts_exitstatus s = Some ''OK'')"

record pve_vm_status =
  pvs_status :: string
  pvs_name :: "string option"
  pvs_qmpstatus :: "string option"
  pvs_agent :: bool

definition vm_is_running :: "pve_vm_status \<Rightarrow> bool" where
  "vm_is_running s = (pvs_status s = ''running'')"

record guest_ip =
  gip_address :: string
  gip_type :: string
  gip_prefix :: "nat option"

definition is_ipv4 :: "guest_ip \<Rightarrow> bool" where
  "is_ipv4 a = (gip_type a = ''ipv4'')"

record guest_interface =
  gif_name :: string
  gif_hardware_address :: "string option"
  gif_ip_addresses :: "guest_ip list"

type_synonym vm_config = btmap

record clone_params =
  cp_newid :: nat
  cp_name :: "string option"
  cp_target :: "string option"
  cp_storage :: "string option"
  cp_pool :: "string option"
  cp_description :: "string option"
  cp_full :: bool

definition clone_params_new :: "nat \<Rightarrow> clone_params" where
  "clone_params_new newid = \<lparr>cp_newid = newid, cp_name = None, cp_target = None, cp_storage = None, cp_pool = None,
     cp_description = None, cp_full = True\<rparr>"

definition clone_params_params :: "clone_params \<Rightarrow> params" where
  "clone_params_params p =
     params_set_opt ''description'' (cp_description p) (params_set_opt ''pool'' (cp_pool p)
     (params_set_opt ''storage'' (cp_storage p) (params_set_opt ''target'' (cp_target p)
     (params_flag ''full'' (cp_full p) (params_set_opt ''name'' (cp_name p) (params_set ''newid'' (show_nat (cp_newid p)) []))))))"

text \<open>\<^verbatim>\<open>ProxmoxApi\<close>: the operations, each of which may fail and change the world.\<close>

type_synonym ('w, 'a) pve_op = "'w \<Rightarrow> (pve_error, 'a) result \<times> 'w"

record 'w pve =
  px_version :: "('w, pve_version) pve_op"
  px_list_nodes :: "('w, pve_node list) pve_op"
  px_cluster_vms :: "('w, cluster_vm list) pve_op"
  px_next_id :: "('w, nat) pve_op"
  px_node_storage :: "string \<Rightarrow> ('w, pve_storage list) pve_op"
  px_node_networks :: "string \<Rightarrow> ('w, network_iface list) pve_op"
  px_storage_content :: "string \<Rightarrow> string \<Rightarrow> ('w, volume list) pve_op"
  px_clone_vm :: "string \<Rightarrow> nat \<Rightarrow> clone_params \<Rightarrow> ('w, upid) pve_op"
  px_vm_config :: "string \<Rightarrow> nat \<Rightarrow> ('w, vm_config) pve_op"
  px_set_vm_config :: "string \<Rightarrow> nat \<Rightarrow> params \<Rightarrow> ('w, unit) pve_op"
  px_resize_disk :: "string \<Rightarrow> nat \<Rightarrow> string \<Rightarrow> string \<Rightarrow> ('w, upid option) pve_op"
  px_start_vm :: "string \<Rightarrow> nat \<Rightarrow> ('w, upid) pve_op"
  px_stop_vm :: "string \<Rightarrow> nat \<Rightarrow> ('w, upid) pve_op"
  px_shutdown_vm :: "string \<Rightarrow> nat \<Rightarrow> ('w, upid) pve_op"
  px_vm_status :: "string \<Rightarrow> nat \<Rightarrow> ('w, pve_vm_status) pve_op"
  px_delete_vm :: "string \<Rightarrow> nat \<Rightarrow> ('w, upid) pve_op"
  px_upload_iso :: "string \<Rightarrow> string \<Rightarrow> string \<Rightarrow> u8 list \<Rightarrow> ('w, upid) pve_op"
  px_delete_volume :: "string \<Rightarrow> string \<Rightarrow> string \<Rightarrow> ('w, upid) pve_op"
  px_task_status :: "upid \<Rightarrow> ('w, task_status) pve_op"
  px_agent_interfaces :: "string \<Rightarrow> nat \<Rightarrow> ('w, guest_interface list) pve_op"
  px_wait_task :: "upid \<Rightarrow> nat \<Rightarrow> ('w, unit) pve_op"

subsection \<open>Decoding\<close>

text \<open>A JSON value; numbers are integers or else kept as text.  \<^verbatim>\<open>from_str\<close> is a parameter.\<close>

datatype json = JNull | JBool bool | JInt int | JFloat string | JString string | JArray "json list"
  | JObject "(string \<times> json) list"

fun json_get :: "string \<Rightarrow> json \<Rightarrow> json option" where
  "json_get k (JObject kvs) = map_of kvs k"
| "json_get k _ = None"

definition flex_bool :: "json \<Rightarrow> bool" where
  "flex_bool v = (case v of
     JBool b \<Rightarrow> b
   | JInt n \<Rightarrow> (if - (2 ^ 63) \<le> n \<and> n < 2 ^ 63 then n else 0) \<noteq> 0
   | JString s \<Rightarrow> s = ''1'' \<or> s = ''true''
   | _ \<Rightarrow> False)"

definition vm_id_decode :: "json \<Rightarrow> (string, nat) result" where
  "vm_id_decode v = (case (case v of
       JInt n \<Rightarrow> if 0 \<le> n \<and> n \<le> int u32_max then Some (nat n) else None
     | JString s \<Rightarrow> (case parse_u32 (trim s) of Inr n \<Rightarrow> Some n | Inl _ \<Rightarrow> None)
     | _ \<Rightarrow> None) of Some n \<Rightarrow> Inr n | None \<Rightarrow> Inl ''not a VMID'')"

definition vm_config_decode :: "(json \<Rightarrow> string) \<Rightarrow> json \<Rightarrow> (string, vm_config) result" where
  "vm_config_decode json_text v = (case v of
     JObject kvs \<Rightarrow> Inr (map (\<lambda>(k, x). (k, case x of JString s \<Rightarrow> s | other \<Rightarrow> json_text other)) kvs)
   | _ \<Rightarrow> Inl ''expected a map'')"

definition decode_data :: "('b \<Rightarrow> (string, json) result) \<Rightarrow> (json \<Rightarrow> (string, 'a) result) \<Rightarrow> 'b \<Rightarrow> (pve_error, 'a) result" where
  "decode_data parse dec body = (case parse body of
     Inl e \<Rightarrow> Inl (PveDecode e)
   | Inr v \<Rightarrow> (case json_get ''data'' v of
       None \<Rightarrow> Inl (PveDecode (''response has no '' @ [CHR 0x60] @ ''data'' @ [CHR 0x60] @ '' key''))
     | Some d \<Rightarrow> (case dec d of Inl e \<Rightarrow> Inl (PveDecode e) | Inr x \<Rightarrow> Inr x)))"

definition api_message :: "('b \<Rightarrow> (string, json) result) \<Rightarrow> (json \<Rightarrow> string) \<Rightarrow> string \<Rightarrow> 'b \<Rightarrow> string" where
  "api_message parse json_text reason body =
     (let parsed = (case parse body of Inr v \<Rightarrow> Some v | Inl _ \<Rightarrow> None);
          detail = Option.bind (Option.bind parsed (json_get ''errors'')) (\<lambda>v. case v of JObject kvs \<Rightarrow> Some kvs | _ \<Rightarrow> None);
          message = trim reason;
          message = (if message = [] then
              (case Option.bind parsed (json_get ''message'') of Some (JString m) \<Rightarrow> m | _ \<Rightarrow> message)
            else message);
          message = (case detail of
              Some (kv # kvs) \<Rightarrow>
                let joined = join_with ''; '' (map (\<lambda>(k, v). k @ '': '' @ (case v of JString s \<Rightarrow> s | other \<Rightarrow> json_text other)) (kv # kvs))
                in if message = [] then joined else message @ '': '' @ joined
            | _ \<Rightarrow> message)
      in if message = [] then ''no message from Proxmox'' else message)"

subsection \<open>Requests\<close>

datatype http_method = GET | POST | PUT | DELETE

record http_request =
  hr_method :: http_method
  hr_url :: string
  hr_authorization :: string
  hr_content_type :: "string option"
  hr_body :: "u8 list"

datatype send_error = SendTimeout | SendFailed string

text \<open>A response: status, reason phrase, canonical reason, declared length, and the chunks of its body.\<close>

record http_reply =
  rp_status :: nat
  rp_reason :: "string option"
  rp_canonical :: "string option"
  rp_content_length :: "nat option"
  rp_chunks :: "(send_error, u8 list) result list"

text \<open>The decoders \<^verbatim>\<open>serde\<close> derives, and the ones of this crate they use.\<close>

record decoders =
  de_version :: "json \<Rightarrow> (string, pve_version) result"
  de_nodes :: "json \<Rightarrow> (string, pve_node list) result"
  de_cluster_vms :: "json \<Rightarrow> (string, cluster_vm list) result"
  de_storages :: "json \<Rightarrow> (string, pve_storage list) result"
  de_networks :: "json \<Rightarrow> (string, network_iface list) result"
  de_volumes :: "json \<Rightarrow> (string, volume list) result"
  de_string :: "json \<Rightarrow> (string, string) result"
  de_string_option :: "json \<Rightarrow> (string, string option) result"
  de_unit :: "json \<Rightarrow> (string, unit) result"
  de_task_status :: "json \<Rightarrow> (string, task_status) result"
  de_vm_status :: "json \<Rightarrow> (string, pve_vm_status) result"
  de_interfaces :: "json \<Rightarrow> (string, guest_interface list) result"

record 'w pve_client =
  pcl_base :: string
  pcl_token :: api_token
  pcl_request_timeout :: nat
  pcl_max_response_bytes :: nat
  pcl_send :: "http_request \<Rightarrow> 'w \<Rightarrow> (send_error, http_reply) result \<times> 'w"
  pcl_parse :: "u8 list \<Rightarrow> (string, json) result"
  pcl_json_text :: "json \<Rightarrow> string"
  pcl_form_encode :: "params \<Rightarrow> string"
  pcl_decoders :: decoders

definition transport_error :: "'w pve_client \<Rightarrow> send_error \<Rightarrow> pve_error" where
  "transport_error c e = (case e of SendTimeout \<Rightarrow> PveTimeout (pcl_request_timeout c) | SendFailed m \<Rightarrow> PveTransport m)"

fun read_chunks :: "'w pve_client \<Rightarrow> u8 list \<Rightarrow> (send_error, u8 list) result list \<Rightarrow> (pve_error, u8 list) result" where
  "read_chunks c body [] = Inr body"
| "read_chunks c body (Inl e # _) = Inl (transport_error c e)"
| "read_chunks c body (Inr chunk # rest) =
     (if length body + length chunk > pcl_max_response_bytes c then Inl (PveResponseTooLarge (pcl_max_response_bytes c))
      else read_chunks c (body @ chunk) rest)"

definition read_body :: "'w pve_client \<Rightarrow> http_reply \<Rightarrow> (pve_error, u8 list) result" where
  "read_body c resp =
     (if (case rp_content_length resp of Some n \<Rightarrow> n > pcl_max_response_bytes c | None \<Rightarrow> False)
      then Inl (PveResponseTooLarge (pcl_max_response_bytes c))
      else read_chunks c [] (rp_chunks resp))"

definition http_call ::
  "'w pve_client \<Rightarrow> http_method \<Rightarrow> string \<Rightarrow> params \<Rightarrow> (string \<times> u8 list) option \<Rightarrow> ('w, u8 list) pve_op" where
  "http_call c method path ps body w =
     (let carries_body = (method = POST \<or> method = PUT);
          url = pcl_base c @ path @ (if \<not> carries_body \<and> ps \<noteq> [] then ''?'' @ pcl_form_encode c ps else []);
          req = \<lparr>hr_method = method, hr_url = url, hr_authorization = at_header (pcl_token c),
                 hr_content_type = (case body of Some (ct, _) \<Rightarrow> Some ct
                   | None \<Rightarrow> if carries_body then Some ''application/x-www-form-urlencoded'' else None),
                 hr_body = (case body of Some (_, bs) \<Rightarrow> bs
                   | None \<Rightarrow> if carries_body then as_bytes (pcl_form_encode c ps) else [])\<rparr>
      in case pcl_send c req w of
           (Inl e, w1) \<Rightarrow> (Inl (transport_error c e), w1)
         | (Inr resp, w1) \<Rightarrow>
             (let reason = (case rp_reason resp of Some r \<Rightarrow> r
                 | None \<Rightarrow> (case rp_canonical resp of Some r \<Rightarrow> r | None \<Rightarrow> []))
              in case read_body c resp of
                   Inl e \<Rightarrow> (Inl e, w1)
                 | Inr bytes \<Rightarrow>
                     if \<not> (200 \<le> rp_status resp \<and> rp_status resp < 300)
                     then (Inl (PveApi (rp_status resp) (api_message (pcl_parse c) (pcl_json_text c) reason bytes)), w1)
                     else (Inr bytes, w1)))"

definition http_then :: "('w, 'a) pve_op \<Rightarrow> ('a \<Rightarrow> (pve_error, 'b) result) \<Rightarrow> ('w, 'b) pve_op" where
  "http_then m f w = (case m w of (Inl e, w') \<Rightarrow> (Inl e, w') | (Inr x, w') \<Rightarrow> (f x, w'))"

definition http_get :: "'w pve_client \<Rightarrow> (json \<Rightarrow> (string, 'a) result) \<Rightarrow> string \<Rightarrow> params \<Rightarrow> ('w, 'a) pve_op" where
  "http_get c dec path ps = http_then (http_call c GET path ps None) (decode_data (pcl_parse c) dec)"

definition decode_upid :: "'w pve_client \<Rightarrow> u8 list \<Rightarrow> (pve_error, upid) result" where
  "decode_upid c body = (case decode_data (pcl_parse c) (de_string (pcl_decoders c)) body of Inl e \<Rightarrow> Inl e | Inr s \<Rightarrow> upid_parse s)"

definition http_task :: "'w pve_client \<Rightarrow> http_method \<Rightarrow> string \<Rightarrow> params \<Rightarrow> ('w, upid) pve_op" where
  "http_task c method path ps = http_then (http_call c method path ps None) (decode_upid c)"

definition qemu :: "string \<Rightarrow> nat \<Rightarrow> string" where
  "qemu node vmid = ''/nodes/'' @ encode_segment node @ ''/qemu/'' @ show_nat vmid"

definition storage_path :: "string \<Rightarrow> string \<Rightarrow> string \<Rightarrow> string" where
  "storage_path node storage rest = ''/nodes/'' @ encode_segment node @ ''/storage/'' @ encode_segment storage @ rest"

definition check_filename :: "string \<Rightarrow> (pve_error, unit) result" where
  "check_filename name =
     (if name = [] \<or> list_ex (\<lambda>c. c \<in> {CHR 0x22, CHR 0x0D, CHR 0x0A, CHR ''/'', CHR 0x5C, CHR 0x00}) name \<or> starts_with ''.'' name
      then Inl (PveConfig (''unsafe upload filename '' @ debug_str name)) else Inr ())"

definition MULTIPART_BOUNDARY :: string where "MULTIPART_BOUNDARY = ''banlieue-proxmox-boundary''"

lemma contains_str_length: "contains_str pat s \<Longrightarrow> length pat \<le> length s"
  by (induction s) (auto simp: take_Cons' split: if_splits dest: arg_cong [where f = length])

text \<open>The boundary grows until the data does not contain it, which ends because it outgrows the data.\<close>

function free_boundary :: "u8 list \<Rightarrow> string \<Rightarrow> string" where
  "free_boundary data boundary =
     (if contains_str (as_bytes boundary) data then free_boundary data (boundary @ ''x'') else boundary)"
  by auto
termination
  by (relation "measure (\<lambda>(data, boundary). length data + 1 - length boundary)")
    (auto simp: as_bytes_def dest!: contains_str_length)

declare free_boundary.simps [simp del]

definition crlf :: "u8 list" where "crlf = [13, 10]"

definition dquoted :: "string \<Rightarrow> string" where "dquoted s = [CHR 0x22] @ s @ [CHR 0x22]"

definition multipart :: "string \<Rightarrow> u8 list \<Rightarrow> string \<times> u8 list" where
  "multipart filename data =
     (let boundary = free_boundary data MULTIPART_BOUNDARY;
          delimiter = as_bytes (''--'' @ boundary)
      in (''multipart/form-data; boundary='' @ boundary,
          delimiter @ crlf @ as_bytes (''Content-Disposition: form-data; name='' @ dquoted ''content'') @ crlf @ crlf @ as_bytes ''iso'' @ crlf
          @ delimiter @ crlf @ as_bytes (''Content-Disposition: form-data; name='' @ dquoted ''filename'' @ ''; filename='' @ dquoted filename) @ crlf
          @ as_bytes ''Content-Type: application/octet-stream'' @ crlf @ crlf
          @ data @ crlf @ delimiter @ as_bytes ''--'' @ crlf))"

definition upload_iso :: "'w pve_client \<Rightarrow> string \<Rightarrow> string \<Rightarrow> string \<Rightarrow> u8 list \<Rightarrow> ('w, upid) pve_op" where
  "upload_iso c node storage filename data w =
     (case check_filename filename of
        Inl e \<Rightarrow> (Inl e, w)
      | Inr _ \<Rightarrow> http_then (http_call c POST (storage_path node storage ''/upload'') [] (Some (multipart filename data))) (decode_upid c) w)"

text \<open>The client as an implementation of the interface; how it waits for a task is the trait's default, below.\<close>

definition http_pve :: "'w pve_client \<Rightarrow> (upid \<Rightarrow> nat \<Rightarrow> ('w, unit) pve_op) \<Rightarrow> 'w pve" where
  "http_pve c wait =
     (let d = pcl_decoders c
      in \<lparr>px_version = http_get c (de_version d) ''/version'' [],
          px_list_nodes = http_get c (de_nodes d) ''/nodes'' [],
          px_cluster_vms = http_get c (de_cluster_vms d) ''/cluster/resources'' (params_set ''type'' ''vm'' []),
          px_next_id = http_get c vm_id_decode ''/cluster/nextid'' [],
          px_node_storage = (\<lambda>node. http_get c (de_storages d) (''/nodes/'' @ encode_segment node @ ''/storage'') []),
          px_node_networks = (\<lambda>node. http_get c (de_networks d) (''/nodes/'' @ encode_segment node @ ''/network'') []),
          px_storage_content = (\<lambda>node storage. http_get c (de_volumes d) (storage_path node storage ''/content'') []),
          px_clone_vm = (\<lambda>node template ps. http_task c POST (qemu node template @ ''/clone'') (clone_params_params ps)),
          px_vm_config = (\<lambda>node vmid. http_get c (vm_config_decode (pcl_json_text c)) (qemu node vmid @ ''/config'') []),
          px_set_vm_config = (\<lambda>node vmid ps. http_then (http_call c PUT (qemu node vmid @ ''/config'') ps None)
            (decode_data (pcl_parse c) (de_unit d))),
          px_resize_disk = (\<lambda>node vmid disk sz. http_then
            (http_call c PUT (qemu node vmid @ ''/resize'') (params_set ''size'' sz (params_set ''disk'' disk [])) None)
            (\<lambda>body. case decode_data (pcl_parse c) (de_string_option d) body of
               Inl e \<Rightarrow> Inl e
             | Inr None \<Rightarrow> Inr None
             | Inr (Some u) \<Rightarrow> (case upid_parse u of Inl e \<Rightarrow> Inl e | Inr x \<Rightarrow> Inr (Some x)))),
          px_start_vm = (\<lambda>node vmid. http_task c POST (qemu node vmid @ ''/status/start'') []),
          px_stop_vm = (\<lambda>node vmid. http_task c POST (qemu node vmid @ ''/status/stop'') []),
          px_shutdown_vm = (\<lambda>node vmid. http_task c POST (qemu node vmid @ ''/status/shutdown'') []),
          px_vm_status = (\<lambda>node vmid. http_get c (de_vm_status d) (qemu node vmid @ ''/status/current'') []),
          px_delete_vm = (\<lambda>node vmid. http_task c DELETE (qemu node vmid)
            (params_flag ''destroy-unreferenced-disks'' True (params_flag ''purge'' True []))),
          px_upload_iso = upload_iso c,
          px_delete_volume = (\<lambda>node storage volid. http_task c DELETE (storage_path node storage (''/content/'' @ encode_segment volid)) []),
          px_task_status = (\<lambda>u. http_get c (de_task_status d)
            (''/nodes/'' @ encode_segment (upid_node u) @ ''/tasks/'' @ encode_segment (upid_raw u) @ ''/status'') []),
          px_agent_interfaces = (\<lambda>node vmid. http_get c (de_interfaces d) (qemu node vmid @ ''/agent/network-get-interfaces'') []),
          px_wait_task = wait\<rparr>)"

subsection \<open>Waiting for a task\<close>

text \<open>The clock of the process: \<^verbatim>\<open>Instant::now\<close> and \<^verbatim>\<open>tokio::time::sleep\<close>.\<close>

record 'w timer =
  tm_now :: "'w \<Rightarrow> nat \<times> 'w"
  tm_sleep :: "nat \<Rightarrow> 'w \<Rightarrow> 'w"

partial_function (option) wait_loop ::
  "'w timer \<Rightarrow> 'w pve \<Rightarrow> upid \<Rightarrow> nat \<Rightarrow> nat \<Rightarrow> nat \<Rightarrow> 'w \<Rightarrow> ((pve_error, unit) result \<times> 'w) option" where
  "wait_loop t api u timeout interval started w =
     (case px_task_status api u w of
        (Inl e, w1) \<Rightarrow> Some (Inl e, w1)
      | (Inr st, w1) \<Rightarrow>
          if \<not> task_is_running st
          then Some (if task_succeeded st then Inr ()
                     else Inl (PveTaskFailed (upid_raw u) (case ts_exitstatus st of Some x \<Rightarrow> x | None \<Rightarrow> ''no exit status'')), w1)
          else (case tm_now t w1 of (now, w2) \<Rightarrow>
            let waited = now - started
            in if timeout \<le> waited then Some (Inl (PveTaskTimeout (upid_raw u) waited), w2)
               else wait_loop t api u timeout interval started (tm_sleep t (min interval (timeout - waited)) w2)))"

definition wait_task_with ::
  "'w timer \<Rightarrow> 'w pve \<Rightarrow> upid \<Rightarrow> nat \<Rightarrow> nat \<Rightarrow> 'w \<Rightarrow> ((pve_error, unit) result \<times> 'w) option" where
  "wait_task_with t api u timeout interval w = (case tm_now t w of (started, w1) \<Rightarrow> wait_loop t api u timeout interval started w1)"

definition TASK_POLL_INTERVAL :: nat where "TASK_POLL_INTERVAL = 1000000000"

definition wait_task :: "'w timer \<Rightarrow> 'w pve \<Rightarrow> upid \<Rightarrow> nat \<Rightarrow> 'w \<Rightarrow> ((pve_error, unit) result \<times> 'w) option" where
  "wait_task t api u timeout = wait_task_with t api u timeout TASK_POLL_INTERVAL"

end
