(* ===== verification/Proxmox_Wire.thy ===== *)
theory Proxmox_Wire
  imports Proxmox_Api
begin

section \<open>What the Proxmox client sends and awaits\<close>

text \<open>
  Theorems about \<^verbatim>\<open>crates/banlieue-proxmox/src\<close>: a request path names exactly one object whatever its arguments
  contain, an uploaded file arrives byte for byte, and waiting for a task ends and never mistakes a failed or
  unfinished task for a finished one.
\<close>

subsection \<open>Paths\<close>

fun hex_value :: "char \<Rightarrow> nat" where
  "hex_value c = (let n = of_char c in if n < 58 then n - 48 else n - 55)"

fun percent_decode :: "string \<Rightarrow> string" where
  "percent_decode [] = []"
| "percent_decode (c # s) = (if c \<noteq> CHR ''%'' then c # percent_decode s
     else (case s of a # b # r \<Rightarrow> char_of (16 * hex_value a + hex_value b) # percent_decode r | _ \<Rightarrow> c # s))"

lemma hex_value_upper_hex: "n < 16 \<Longrightarrow> hex_value (upper_hex n) = n"
  by (simp add: upper_hex_def Let_def)

lemma char_div_16: "of_char (c :: char) div 16 < (16 :: nat)"
proof -
  have "(of_char c :: nat) < 256"
    by (metis mod_less_divisor of_char_mod_256 zero_less_numeral)
  then show ?thesis
    by (intro less_mult_imp_div_less) simp
qed

lemma percent_not_segment: "\<not> segment_char (CHR ''%'')"
  by (simp add: segment_char_def is_ascii_alphanumeric_def is_ascii_uppercase_def is_ascii_lowercase_def is_ascii_digit_def)

lemma slash_not_segment: "\<not> segment_char (CHR ''/'')"
  by (simp add: segment_char_def is_ascii_alphanumeric_def is_ascii_uppercase_def is_ascii_lowercase_def is_ascii_digit_def)

lemma decode_encode_byte: "percent_decode (encode_byte c @ s) = c # percent_decode s"
proof (cases "segment_char c")
  case True
  then have "c \<noteq> CHR ''%''"
    using percent_not_segment by auto
  with True show ?thesis
    by (simp add: encode_byte_def)
next
  case False
  have "char_of (16 * (of_char c div 16) + of_char c mod 16 :: nat) = c"
    by simp
  with False show ?thesis
    by (simp add: encode_byte_def hex_value_upper_hex char_div_16 del: hex_value.simps)
qed

lemma decode_encode_bytes: "percent_decode (concat (map encode_byte s)) = s"
  by (induction s) (simp_all add: decode_encode_byte)

lemma decode_encode_segment: "percent_decode (encode_segment s) = s"
proof -
  have "percent_decode ''%2E%2E'' = ''..''" "percent_decode ''%2E'' = ''.''" "percent_decode ''..'' = ''..''" "percent_decode ''.'' = ''.''"
    by code_simp+
  with decode_encode_bytes [of s] show ?thesis
    by (auto simp: encode_segment_def Let_def)
qed

lemma encode_segment_inject [simp]: "encode_segment s = encode_segment t \<longleftrightarrow> s = t"
  by (metis decode_encode_segment)

lemma upper_hex_not_slash: "n < 16 \<Longrightarrow> upper_hex n \<noteq> CHR ''/''"
proof
  assume n: "n < 16" and "upper_hex n = CHR ''/''"
  then have "(of_char (upper_hex n) :: nat) = 47"
    by simp
  with n show False
    by (simp add: upper_hex_def split: if_splits)
qed

lemma encode_byte_no_slash: "CHR ''/'' \<notin> set (encode_byte c)"
  using slash_not_segment upper_hex_not_slash [of "of_char c mod 16"] upper_hex_not_slash [OF char_div_16 [of c]]
  by (auto simp: encode_byte_def)

lemma encode_segment_no_slash [simp]: "CHR ''/'' \<notin> set (encode_segment s)"
  using encode_byte_no_slash by (auto simp: encode_segment_def Let_def split: if_splits)

lemma encode_segment_no_dots: "encode_segment s \<noteq> ''.'' \<and> encode_segment s \<noteq> ''..''"
  by (auto simp: encode_segment_def Let_def split: if_splits)

lemma show_nat_no_slash [simp]: "CHR ''/'' \<notin> set (show_nat n)"
proof
  assume "CHR ''/'' \<in> set (show_nat n)"
  with show_nat_digits [of n] have "is_digit 10 (CHR ''/'')"
    by (auto simp: list_all_iff)
  then show False
    by (simp add: is_digit_def to_digit_def)
qed

lemma show_nat_inject: "show_nat m = show_nat n \<longleftrightarrow> m = n"
  by (metis digits_value_show_nat)

lemma split_slash [simp]: "CHR ''/'' \<notin> set a \<Longrightarrow> split_char (CHR ''/'') (a @ CHR ''/'' # b) = a # split_char (CHR ''/'') b"
  by (rule split_char_append)

lemma qemu_segments: "split_char (CHR ''/'') (qemu node vmid) = [[], ''nodes'', encode_segment node, ''qemu'', show_nat vmid]"
  by (simp add: qemu_def)

lemma storage_segments:
  "split_char (CHR ''/'') (storage_path node storage (''/content/'' @ encode_segment volid))
     = [[], ''nodes'', encode_segment node, ''storage'', encode_segment storage, ''content'', encode_segment volid]"
  by (simp add: storage_path_def)

text \<open>
  (C26) A request path names exactly one object: an argument never adds a path segment and never is a relative
  one, decoding gives it back, and so the requests that act on a machine or delete a volume have equal paths
  only for the same node and machine, or the same node, storage and volume.
\<close>

theorem request_path_names_one_object:
  "CHR ''/'' \<notin> set (encode_segment s) \<and> encode_segment s \<notin> {''.'', ''..''} \<and> percent_decode (encode_segment s) = s
    \<and> (qemu node vmid = qemu node' vmid') = (node = node' \<and> vmid = vmid')
    \<and> (storage_path node storage (''/content/'' @ encode_segment volid) = storage_path node' storage' (''/content/'' @ encode_segment volid'))
        = (node = node' \<and> storage = storage' \<and> volid = volid')"
proof (intro conjI)
  show "(qemu node vmid = qemu node' vmid') = (node = node' \<and> vmid = vmid')"
    using arg_cong [where f = "split_char (CHR ''/'')", of "qemu node vmid" "qemu node' vmid'"]
    unfolding qemu_segments by (auto simp: show_nat_inject)
  show "(storage_path node storage (''/content/'' @ encode_segment volid) = storage_path node' storage' (''/content/'' @ encode_segment volid'))
      = (node = node' \<and> storage = storage' \<and> volid = volid')"
    using arg_cong [where f = "split_char (CHR ''/'')", of "storage_path node storage (''/content/'' @ encode_segment volid)"
        "storage_path node' storage' (''/content/'' @ encode_segment volid')"]
    unfolding storage_segments by auto
qed (simp_all add: encode_segment_no_dots decode_encode_segment)

subsection \<open>Uploads\<close>

text \<open>A reader of a multipart body: what lies between the second header and the next delimiter.\<close>

fun find_str :: "'a list \<Rightarrow> 'a list \<Rightarrow> ('a list \<times> 'a list) option" where
  "find_str pat s = (if take (length pat) s = pat then Some ([], drop (length pat) s)
     else (case s of [] \<Rightarrow> None | c # r \<Rightarrow> map_option (\<lambda>(a, b). (c # a, b)) (find_str pat r)))"

declare find_str.simps [simp del]

definition read_upload :: "string \<Rightarrow> u8 list \<Rightarrow> u8 list option" where
  "read_upload boundary body =
     (let delimiter = as_bytes (''--'' @ boundary)
      in Option.bind (find_str delimiter body) (\<lambda>(_, r1).
         Option.bind (find_str (crlf @ delimiter) r1) (\<lambda>(_, r2).
         Option.bind (find_str (crlf @ crlf) r2) (\<lambda>(_, r3).
         map_option fst (find_str (crlf @ delimiter) r3)))))"

lemma find_here [simp]: "find_str pat (pat @ s) = Some ([], s)"
  by (subst find_str.simps) simp

lemma find_later: "take (length pat) (c # s) \<noteq> pat \<Longrightarrow> find_str pat (c # s) = map_option (\<lambda>(a, b). (c # a, b)) (find_str pat s)"
  by (subst find_str.simps) simp

lemma find_skip:
  assumes "p \<notin> set s"
  shows "find_str (p # ps) (s @ t) = map_option (\<lambda>(a, b). (s @ a, b)) (find_str (p # ps) t)"
  using assms by (induction s) (auto simp: find_later option.map_comp option.map_ident o_def case_prod_unfold)

lemma contains_str_append: "contains_str p (a @ p @ b)"
proof (induction a)
  case Nil
  show ?case
    by (cases "p @ b") (metis append_eq_conv_conj append_Nil contains_str.simps append_is_Nil_conv)+
qed simp

lemma contains_strI: "take (length p) (drop k s) = p \<Longrightarrow> contains_str p s"
  using contains_str_append [of p "take k s" "drop (length p) (drop k s)"] by (metis append_take_drop_id)

lemma free_boundary_absent: "\<not> contains_str (as_bytes (free_boundary data b)) data"
  by (induction data b rule: free_boundary.induct) (subst free_boundary.simps, simp)

lemma free_boundary_form: "\<exists>n. free_boundary data b = b @ replicate n (CHR ''x'')"
proof (induction data b rule: free_boundary.induct)
  case (1 data b)
  show ?case
  proof (cases "contains_str (as_bytes b) data")
    case True
    from "1.IH" [OF True] obtain n where "free_boundary data (b @ ''x'') = b @ ''x'' @ replicate n (CHR ''x'')"
      by auto
    with True show ?thesis
      by (subst free_boundary.simps) (auto intro: exI [of _ "Suc n"])
  next
    case False
    then show ?thesis
      by (subst free_boundary.simps) (auto intro: exI [of _ 0])
  qed
qed

lemma as_bytes_append [simp]: "as_bytes (a @ b) = as_bytes a @ as_bytes b"
  by (simp add: as_bytes_def)

lemma no_cr_as_bytes: "(13 :: u8) \<notin> set (as_bytes s)" if "CHR 0x0D \<notin> set s"
proof
  assume "(13 :: u8) \<in> set (as_bytes s)"
  then obtain c where c: "c \<in> set s" "(13 :: u8) = word_of_nat (of_char c)"
    by (auto simp: as_bytes_def)
  have "(of_char c :: nat) < 256"
    by (metis mod_less_divisor of_char_mod_256 zero_less_numeral)
  with arg_cong [OF c(2), of unat] have "(of_char c :: nat) = 13"
    by (simp add: unat_of_nat)
  then have "(of_char c :: nat) = of_char (CHR 0x0D)"
    by simp
  then have "c = CHR 0x0D"
    by (simp only: of_char_eq_iff)
  with c(1) that show False
    by simp
qed

text \<open>The delimiter starts with a carriage return and has no other, so it cannot start inside data that lacks the boundary.\<close>

lemma find_delimiter:
  assumes "13 \<notin> set ps" and "\<not> contains_str ps data"
  shows "find_str (13 # ps) (data @ 13 # ps @ rest) = Some (data, rest)"
  using assms(2)
proof (induction data)
  case Nil
  show ?case
    using find_here [of "13 # ps" rest] by simp
next
  case (Cons c data)
  have "take (length (13 # ps)) (c # data @ 13 # ps @ rest) \<noteq> 13 # ps"
  proof
    assume eq: "take (length (13 # ps)) (c # data @ 13 # ps @ rest) = 13 # ps"
    then have ps: "take (length ps) (data @ 13 # ps @ rest) = ps"
      by simp
    show False
    proof (cases "length ps \<le> length data")
      case True
      with ps have "take (length ps) data = ps"
        by simp
      then have "contains_str ps data"
        using contains_strI [of ps 0 data] by simp
      with Cons.prems show False
        by simp
    next
      case False
      then have "ps ! length data = 13"
        using ps by (metis nth_append_length nth_take not_le)
      with False assms(1) show False
        by (metis not_le nth_mem)
    qed
  qed
  moreover have "\<not> contains_str ps data"
    using Cons.prems by simp
  ultimately show ?case
    using Cons.IH by (simp add: find_later del: take_Suc_Cons)
qed

lemma contains_strE:
  assumes "contains_str p s"
  obtains a b where "s = a @ p @ b"
proof -
  have "\<exists>a b. s = a @ p @ b"
    using assms
  proof (induction s)
    case (Cons c s)
    show ?case
    proof (cases "take (length p) (c # s) = p")
      case True
      then have "c # s = [] @ p @ drop (length p) (c # s)"
        by (metis append_Nil append_take_drop_id)
      then show ?thesis
        by blast
    next
      case False
      with Cons obtain a b where "s = a @ p @ b"
        by auto
      then have "c # s = (c # a) @ p @ b"
        by simp
      then show ?thesis
        by blast
    qed
  qed simp
  then show thesis
    using that by blast
qed

lemma contains_suffix: "contains_str (q @ p) s \<Longrightarrow> contains_str p s"
  by (metis append.assoc contains_strE contains_str_append)

lemma find_line:
  fixes y :: u8
  assumes "l \<noteq> []" and "13 \<notin> set l" and "hd l \<noteq> y"
  shows "find_str (13 # 10 # y # q) (13 # 10 # l @ t) = map_option (\<lambda>(a, b). (13 # 10 # l @ a, b)) (find_str (13 # 10 # y # q) t)"
proof -
  obtain x l' where l: "l = x # l'"
    using assms(1) by (cases l) auto
  have "find_str (13 # 10 # y # q) (13 # 10 # l @ t) = map_option (\<lambda>(a, b). (13 # a, b)) (find_str (13 # 10 # y # q) ((10 # l) @ t))"
    using assms(3) by (subst find_later) (simp_all add: l)
  also have "\<dots> = map_option (\<lambda>(a, b). (13 # 10 # l @ a, b)) (find_str (13 # 10 # y # q) t)"
    using assms(2) by (subst find_skip) (simp_all add: option.map_comp o_def case_prod_unfold)
  finally show ?thesis .
qed

lemma find_blank:
  fixes y :: u8
  assumes "y \<noteq> 13"
  shows "find_str (13 # 10 # y # q) (13 # 10 # 13 # t) = map_option (\<lambda>(a, b). (13 # 10 # a, b)) (find_str (13 # 10 # y # q) (13 # t))"
proof -
  have "find_str (13 # 10 # y # q) (13 # 10 # 13 # t) = map_option (\<lambda>(a, b). (13 # a, b)) (find_str (13 # 10 # y # q) ([10] @ 13 # t))"
    using assms by (subst find_later) simp_all
  also have "\<dots> = map_option (\<lambda>(a, b). (13 # 10 # a, b)) (find_str (13 # 10 # y # q) (13 # t))"
    by (subst find_skip) (simp_all add: option.map_comp o_def case_prod_unfold)
  finally show ?thesis .
qed

text \<open>
  An uploaded image arrives byte for byte: the search for a boundary ends with one that does not occur in
  the data, and a reader that splits the body at that boundary gets exactly the data, whatever bytes it has,
  for every file name the client accepts.
\<close>

theorem upload_reads_back:
  assumes "check_filename name = Inr ()"
  shows "\<exists>b. fst (multipart name data) = ''multipart/form-data; boundary='' @ b \<and> \<not> contains_str (as_bytes b) data
    \<and> read_upload b (snd (multipart name data)) = Some data"
proof -
  define b where "b = free_boundary data MULTIPART_BOUNDARY"
  define h1 where "h1 = as_bytes (''Content-Disposition: form-data; name='' @ dquoted ''content'')"
  define h2 where "h2 = as_bytes (''Content-Disposition: form-data; name='' @ dquoted ''filename'' @ ''; filename='' @ dquoted name)"
  define h3 where "h3 = as_bytes ''Content-Type: application/octet-stream''"
  define ps where "ps = 10 # 45 # 45 # as_bytes b"
  have absent: "\<not> contains_str (as_bytes b) data"
    unfolding b_def by (rule free_boundary_absent)
  then have nops: "\<not> contains_str ps data"
    using contains_suffix [of "[10, 45, 45]" "as_bytes b" data] by (auto simp: ps_def)
  have "CHR 0x0D \<notin> set b"
    using free_boundary_form [of data MULTIPART_BOUNDARY] by (auto simp: b_def MULTIPART_BOUNDARY_def)
  then have cr: "13 \<notin> set ps"
    using no_cr_as_bytes [of b] by (simp add: ps_def)
  have name: "CHR 0x0D \<notin> set name"
    using assms by (auto simp: check_filename_def list_ex_iff split: if_splits)
  have lines: "13 \<notin> set h1" "13 \<notin> set h2" "13 \<notin> set h3"
    unfolding h1_def h2_def h3_def by (rule no_cr_as_bytes; simp add: dquoted_def name)+
  have heads: "h1 \<noteq> []" "hd h1 = 67" "h2 \<noteq> []" "hd h2 = 67" "h3 \<noteq> []" "hd h3 = 67"
    by (simp_all add: h1_def h2_def h3_def as_bytes_def)
  have iso: "as_bytes ''iso'' = [105, 115, 111]" and dashes: "as_bytes ''--'' = [45, 45]"
    and delimiter: "as_bytes (''--'' @ b) = 45 # 45 # as_bytes b"
    by (simp_all add: as_bytes_def)
  let ?rest = "as_bytes ''--'' @ crlf"
  have body: "snd (multipart name data) = (45 # 45 # as_bytes b) @ 13 # 10 # h1 @ 13 # 10 # 13 # 10 # 105 # 115 # 111 # 13 # ps
      @ 13 # 10 # h2 @ 13 # 10 # h3 @ 13 # 10 # 13 # 10 # data @ 13 # ps @ ?rest"
    unfolding multipart_def Let_def snd_conv b_def [symmetric] h1_def [symmetric] h2_def [symmetric] h3_def [symmetric] delimiter iso
    by (simp add: crlf_def ps_def)
  have "find_str (13 # ps) (13 # 10 # 105 # 115 # 111 # 13 # ps @ t) = Some (13 # 10 # 105 # 115 # 111 # [], t)" for t
    using find_line [of "[105, 115, 111]" 45 "45 # as_bytes b" "13 # ps @ t"] find_here [of "13 # ps" t] by (simp add: ps_def)
  then have 1: "\<exists>a. find_str (13 # ps) (13 # 10 # h1 @ 13 # 10 # 13 # 10 # 105 # 115 # 111 # 13 # ps @ t) = Some (a, t)" for t
    using find_line [of h1 45 "45 # as_bytes b" "13 # 10 # 13 # 10 # 105 # 115 # 111 # 13 # ps @ t"]
      find_blank [of 45 "45 # as_bytes b" "10 # 105 # 115 # 111 # 13 # ps @ t"] lines heads by (simp add: ps_def)
  have 2: "\<exists>a. find_str [13, 10, 13, 10] (13 # 10 # h2 @ 13 # 10 # h3 @ 13 # 10 # 13 # 10 # t) = Some (a, t)" for t
    using find_line [of h2 13 "[10]" "13 # 10 # h3 @ 13 # 10 # 13 # 10 # t"] find_line [of h3 13 "[10]" "13 # 10 # 13 # 10 # t"]
      find_here [of "[13, 10, 13, 10]" t] lines heads by simp
  have 3: "find_str (13 # ps) (data @ 13 # ps @ ?rest) = Some (data, ?rest)"
    by (rule find_delimiter [OF cr nops])
  have "read_upload b (snd (multipart name data)) = Some data"
    using 1 [of "13 # 10 # h2 @ 13 # 10 # h3 @ 13 # 10 # 13 # 10 # data @ 13 # ps @ ?rest"] 2 [of "data @ 13 # ps @ ?rest"] 3
      find_here [of "45 # 45 # as_bytes b"]
    unfolding body read_upload_def delimiter by (auto simp: crlf_def ps_def)
  then show ?thesis
    using absent by (auto simp: multipart_def Let_def b_def)
qed

theorem upload_reads_back_witness:
  "\<exists>b. read_upload b (snd (multipart ''banlieue-u1.iso'' [13, 10, 45, 45])) = Some [13, 10, 45, 45]"
proof -
  have "check_filename ''banlieue-u1.iso'' = Inr ()"
    by (simp add: check_filename_def starts_with_def)
  from upload_reads_back [OF this, of "[13, 10, 45, 45]"] show ?thesis
    by blast
qed

subsection \<open>Waiting\<close>

text \<open>A monotonic clock: it reads the time, sleeping takes at least as long as asked, and no poll turns it back.\<close>

definition steady :: "'w timer \<Rightarrow> 'w pve \<Rightarrow> ('w \<Rightarrow> nat) \<Rightarrow> bool" where
  "steady t api clk =
     ((\<forall>w. fst (tm_now t w) = clk w \<and> clk w \<le> clk (snd (tm_now t w))) \<and> (\<forall>d w. clk w + d \<le> clk (tm_sleep t d w))
      \<and> (\<forall>u w. clk w \<le> clk (snd (px_task_status api u w))))"

lemma wait_loop_ends:
  assumes "steady t api clk" and "0 < interval"
  shows "\<exists>r w'. wait_loop t api u timeout interval started w = Some (r, w')
    \<and> (r = Inr () \<longrightarrow> (\<exists>w1 st. px_task_status api u w1 = (Inr st, w') \<and> task_succeeded st))"
proof (induction "started + timeout - clk w" arbitrary: w rule: less_induct)
  case less
  obtain p w1 where p: "px_task_status api u w = (p, w1)"
    by (metis prod.exhaust)
  obtain now w2 where now: "tm_now t w1 = (now, w2)"
    by (metis prod.exhaust)
  have time: "clk w \<le> clk w1" "now = clk w1" "clk w1 \<le> clk w2"
    using assms(1) p now by (auto simp: steady_def dest: spec [of _ w1] spec [of _ w] spec [of _ u]; metis fst_conv snd_conv)+
  let ?d = "min interval (timeout - (now - started))"
  have later: "clk w2 + ?d \<le> clk (tm_sleep t ?d w2)"
    using assms(1) by (simp add: steady_def)
  show ?case
  proof (cases p)
    case (Inl e)
    then show ?thesis
      by (subst wait_loop.simps) (simp add: p)
  next
    case (Inr st)
    show ?thesis
    proof (cases "task_is_running st \<and> \<not> timeout \<le> now - started")
      case True
      then have "started + timeout - clk (tm_sleep t ?d w2) < started + timeout - clk w"
        using time later assms(2) by linarith
      from less [OF this] show ?thesis
        using True by (subst wait_loop.simps) (simp add: p Inr now Let_def)
    next
      case False
      have "\<exists>w0 st. px_task_status api u w0 = (Inr st, w1) \<and> task_succeeded st" if "task_succeeded st"
        using that p Inr by (intro exI [of _ w] exI [of _ st]) simp
      then show ?thesis
        using False by (subst wait_loop.simps) (auto simp: p Inr now Let_def)
    qed
  qed
qed


text \<open>A backend without machines whose tasks never stop, over a clock that is the world.\<close>

definition pve_gone :: "('w, 'a) pve_op" where
  "pve_gone w = (Inl (PveApi 404 ''gone''), w)"

definition stuck_pve :: "nat pve" where
  "stuck_pve = \<lparr>px_version = pve_gone, px_list_nodes = pve_gone, px_cluster_vms = (\<lambda>w. (Inr [], w)), px_next_id = (\<lambda>w. (Inr 100, w)),
         px_node_storage = (\<lambda>_. pve_gone), px_node_networks = (\<lambda>_. pve_gone), px_storage_content = (\<lambda>_ _. pve_gone),
         px_clone_vm = (\<lambda>_ _ _. pve_gone), px_vm_config = (\<lambda>_ _. pve_gone), px_set_vm_config = (\<lambda>_ _ _. pve_gone),
         px_resize_disk = (\<lambda>_ _ _ _. pve_gone), px_start_vm = (\<lambda>_ _. pve_gone), px_stop_vm = (\<lambda>_ _. pve_gone),
         px_shutdown_vm = (\<lambda>_ _. pve_gone), px_vm_status = (\<lambda>_ _. pve_gone), px_delete_vm = (\<lambda>_ _. pve_gone),
         px_upload_iso = (\<lambda>_ _ _ _. pve_gone), px_delete_volume = (\<lambda>_ _ _. pve_gone),
         px_task_status = (\<lambda>_ w. (Inr \<lparr>ts_status = ''running'', ts_exitstatus = None\<rparr>, w)),
         px_agent_interfaces = (\<lambda>_ _. pve_gone), px_wait_task = (\<lambda>_ _ w. (Inr (), w))\<rparr>"

definition world_clock :: "nat timer" where
  "world_clock = \<lparr>tm_now = (\<lambda>w. (w, w)), tm_sleep = (\<lambda>d w. w + d)\<rparr>"

definition demo_upid :: upid where
  "demo_upid = \<lparr>upid_raw = ''UPID:pve1:0000C530:001C9BEC:677E934A:qmclone:9000:banlieue:'', upid_node = ''pve1'', upid_task_type = ''qmclone'', upid_id = ''9000''\<rparr>"


end
