(* ===== verification/Iso9660.thy ===== *)
theory Iso9660
  imports Text_Util
begin

section \<open>The seed image\<close>

text \<open>
  \<^verbatim>\<open>banlieue-provider-sdk/src/cloudinit/iso9660.rs\<close>: the writer of an ISO9660 image with a Joliet tree.  A \<^verbatim>\<open>u32\<close> is a
  number below \<^verbatim>\<open>2^32\<close>; strings are UTF-8 bytes, which \<open>code_points\<close> decodes where the source walks over
  \<^verbatim>\<open>chars\<close>.  A reader that follows the volume descriptors, as ECMA-119 lays them out, is the specification.
\<close>

subsection \<open>Constants\<close>

definition SECTOR :: nat where "SECTOR = 2048"
definition SYSTEM_AREA_SECTORS :: nat where "SYSTEM_AREA_SECTORS = 16"
definition LABEL_MAX :: nat where "LABEL_MAX = 32"
definition PRIMARY_NAME_MAX :: nat where "PRIMARY_NAME_MAX = 30"
definition LBA_PVD :: nat where "LBA_PVD = 16"
definition LBA_SVD :: nat where "LBA_SVD = 17"
definition LBA_TERMINATOR :: nat where "LBA_TERMINATOR = 18"
definition LBA_PATH_L :: nat where "LBA_PATH_L = 19"
definition LBA_PATH_M :: nat where "LBA_PATH_M = 20"
definition LBA_PATH_L_JOLIET :: nat where "LBA_PATH_L_JOLIET = 21"
definition LBA_PATH_M_JOLIET :: nat where "LBA_PATH_M_JOLIET = 22"
definition LBA_ROOT :: nat where "LBA_ROOT = 23"
definition LBA_ROOT_JOLIET :: nat where "LBA_ROOT_JOLIET = 24"
definition LBA_FIRST_FILE :: nat where "LBA_FIRST_FILE = 25"
definition PVD_CREATION_DATE :: nat where "PVD_CREATION_DATE = 813"
definition PVD_MODIFICATION_DATE :: nat where "PVD_MODIFICATION_DATE = 830"
definition PVD_EXPIRATION_DATE :: nat where "PVD_EXPIRATION_DATE = 847"
definition PVD_EFFECTIVE_DATE :: nat where "PVD_EFFECTIVE_DATE = 864"
definition DATE_DIGITS :: nat where "DATE_DIGITS = 16"
definition FIXED_VOLUME_DATE :: "u8 list" where "FIXED_VOLUME_DATE = as_bytes ''1970010100000000''"

datatype iso_error =
    NestedPath string
  | EmptyName
  | NameTooLong string nat
  | LabelTooLong string nat

record iso_file =
  if_name :: string
  if_data :: "u8 list"

definition iso_file_new :: "string \<Rightarrow> u8 list \<Rightarrow> iso_file" where
  "iso_file_new n d = \<lparr>if_name = n, if_data = d\<rparr>"

subsection \<open>Text\<close>

text \<open>\<^verbatim>\<open>str::chars\<close> on valid UTF-8, and \<^verbatim>\<open>encode_utf16\<close>.\<close>

function code_points :: "nat list \<Rightarrow> nat list" where
  "code_points [] = []"
| "code_points (a # r) =
     (let byte = (\<lambda>i. if i < length r then r ! i mod 64 else 0)
      in if a < 0x80 then a # code_points r
         else if a < 0xE0 then (a mod 32 * 64 + byte 0) # code_points (drop 1 r)
         else if a < 0xF0 then (a mod 16 * 4096 + byte 0 * 64 + byte 1) # code_points (drop 2 r)
         else (a mod 8 * 262144 + byte 0 * 4096 + byte 1 * 64 + byte 2) # code_points (drop 3 r))"
  by pat_completeness auto
termination by (relation "measure length") auto

definition chars :: "string \<Rightarrow> nat list" where
  "chars s = code_points (map of_char s)"

definition utf16_units :: "nat \<Rightarrow> nat list" where
  "utf16_units c = (if c < 0x10000 then [c] else [0xD800 + (c - 0x10000) div 0x400, 0xDC00 + (c - 0x10000) mod 0x400])"

definition ucs2be :: "string \<Rightarrow> u8 list" where
  "ucs2be s = concat (map (be_nat 2) (concat (map utf16_units (chars s))))"

definition to_ascii_upper :: "nat \<Rightarrow> nat" where
  "to_ascii_upper c = (if 97 \<le> c \<and> c \<le> 122 then c - 32 else c)"

definition d_char :: "nat \<Rightarrow> char" where
  "d_char c = (if 65 \<le> c \<and> c \<le> 90 \<or> 48 \<le> c \<and> c \<le> 57 \<or> c = 95 \<or> c = 46 then char_of c else CHR ''_'')"

definition primary_name :: "string \<Rightarrow> string" where
  "primary_name n = (let mapped = map (d_char \<circ> to_ascii_upper) (chars n)
     in if CHR ''.'' \<in> set mapped then mapped else mapped @ ''.'')"

subsection \<open>Structures\<close>

datatype descriptor_kind = Primary | Joliet
datatype endian = LittleEndian | BigEndian
datatype dir_entry = DirRoot | DirParent | DirFile string

definition sectors_for :: "nat \<Rightarrow> nat" where
  "sectors_for len = (let n = (max len 1 + SECTOR - 1) div SECTOR in if n \<le> u32_max then n else 1)"

definition le_nat :: "nat \<Rightarrow> nat \<Rightarrow> u8 list" where
  "le_nat k n = rev (be_nat k n)"

definition both32 :: "nat \<Rightarrow> u8 list" where "both32 v = le_nat 4 v @ be_nat 4 v"
definition both16 :: "nat \<Rightarrow> u8 list" where "both16 v = le_nat 2 v @ be_nat 2 v"

text \<open>Writing a slice, \<^verbatim>\<open>s[at..at + n].copy_from_slice(bs)\<close>, and \<^verbatim>\<open>Vec::resize\<close>.\<close>

definition put_at :: "nat \<Rightarrow> u8 list \<Rightarrow> u8 list \<Rightarrow> u8 list" where
  "put_at at bs s = take at s @ bs @ drop (at + length bs) s"

definition padded :: "nat \<Rightarrow> u8 list \<Rightarrow> u8 \<Rightarrow> u8 list" where
  "padded n t pad = take n t @ replicate (n - length t) pad"

definition resize :: "nat \<Rightarrow> u8 list \<Rightarrow> u8 list" where
  "resize n s = take n s @ replicate (n - length s) 0"

definition saturate :: "nat \<Rightarrow> nat \<Rightarrow> nat" where
  "saturate m n = (if n \<le> m then n else m)"

definition record_name :: "descriptor_kind \<Rightarrow> dir_entry \<Rightarrow> u8 list" where
  "record_name kind e = (case e of
     DirRoot \<Rightarrow> [0] | DirParent \<Rightarrow> [1]
   | DirFile n \<Rightarrow> (case kind of Primary \<Rightarrow> as_bytes (primary_name n) | Joliet \<Rightarrow> ucs2be n))"

definition directory_record :: "descriptor_kind \<Rightarrow> dir_entry \<Rightarrow> nat \<Rightarrow> nat \<Rightarrow> u8 list" where
  "directory_record kind e lba sz =
     (let name = record_name kind e;
          tail = [0] @ both32 lba @ both32 sz @ [70, 1, 1, 0, 0, 0, 0]
            @ [(case e of DirFile _ \<Rightarrow> 0 | _ \<Rightarrow> 2), 0, 0] @ both16 1 @ [word_of_nat (saturate 255 (length name))] @ name;
          r = tail @ (if odd (length tail + 1) then [0] else [])
      in word_of_nat (saturate 255 (length r + 1)) # r)"

text \<open>The fields of a volume descriptor, at their offsets, in the order the source writes them.\<close>

definition volume_fields :: "descriptor_kind \<Rightarrow> string \<Rightarrow> nat \<Rightarrow> (nat \<times> u8 list) list" where
  "volume_fields kind label total_sectors =
     (let joliet = (kind = Joliet)
      in [(0, [if joliet then 2 else 1]), (1, as_bytes ''CD001''), (6, [1])]
         @ (if joliet
            then [(8, padded 32 [] 0), (40, padded 32 (ucs2be label @ concat (replicate 16 [0, 0x20])) 0), (88, as_bytes ''%/E'')]
            else [(8, padded 32 [] 0x20), (40, padded 32 (as_bytes label) 0x20)])
         @ [(80, both32 total_sectors), (120, both16 1), (124, both16 1), (128, both16 SECTOR), (132, both32 SECTOR),
            (140, le_nat 4 (if joliet then LBA_PATH_L_JOLIET else LBA_PATH_L)),
            (148, be_nat 4 (if joliet then LBA_PATH_M_JOLIET else LBA_PATH_M)),
            (156, directory_record kind DirRoot (if joliet then LBA_ROOT_JOLIET else LBA_ROOT) SECTOR),
            (318, padded 128 [] 0x20), (446, padded 128 [] 0x20), (574, padded 128 [] 0x20), (702, padded 37 [] 0x20),
            (PVD_CREATION_DATE, FIXED_VOLUME_DATE), (PVD_CREATION_DATE + DATE_DIGITS, [0]),
            (PVD_MODIFICATION_DATE, FIXED_VOLUME_DATE), (PVD_MODIFICATION_DATE + DATE_DIGITS, [0]),
            (PVD_EFFECTIVE_DATE, FIXED_VOLUME_DATE), (PVD_EFFECTIVE_DATE + DATE_DIGITS, [0]),
            (PVD_EXPIRATION_DATE, padded DATE_DIGITS [] 0x30), (PVD_EXPIRATION_DATE + DATE_DIGITS, [0]), (881, [1])])"

definition write_fields :: "(nat \<times> u8 list) list \<Rightarrow> u8 list \<Rightarrow> u8 list" where
  "write_fields fs s = fold (\<lambda>(at, bs). put_at at bs) fs s"

definition volume_descriptor :: "descriptor_kind \<Rightarrow> string \<Rightarrow> nat \<Rightarrow> u8 list" where
  "volume_descriptor kind label total_sectors = write_fields (volume_fields kind label total_sectors) (replicate SECTOR 0)"

definition terminator :: "u8 list" where
  "terminator = write_fields [(0, [255]), (1, as_bytes ''CD001''), (6, [1])] (replicate SECTOR 0)"

definition path_table :: "endian \<Rightarrow> nat \<Rightarrow> u8 list" where
  "path_table e root_lba =
     (let num = (case e of LittleEndian \<Rightarrow> le_nat | BigEndian \<Rightarrow> be_nat)
      in write_fields [(0, [1]), (1, [0]), (2, num 4 root_lba), (6, num 2 1), (8, [0])] (replicate SECTOR 0))"

definition root_directory :: "descriptor_kind \<Rightarrow> (iso_file \<times> nat) list \<Rightarrow> u8 list" where
  "root_directory kind placed =
     (let root_lba = (case kind of Primary \<Rightarrow> LBA_ROOT | Joliet \<Rightarrow> LBA_ROOT_JOLIET)
      in resize SECTOR (directory_record kind DirRoot root_lba SECTOR @ directory_record kind DirParent root_lba SECTOR
           @ concat (map (\<lambda>(f, at). directory_record kind (DirFile (if_name f)) at (saturate u32_max (length (if_data f)))) placed)))"

subsection \<open>The image\<close>

fun check_files :: "iso_file list \<Rightarrow> (iso_error, unit) result" where
  "check_files [] = Inr ()"
| "check_files (f # fs) =
     (if if_name f = [] then Inl EmptyName
      else if CHR ''/'' \<in> set (if_name f) \<or> CHR 0x5C \<in> set (if_name f) then Inl (NestedPath (if_name f))
      else if PRIMARY_NAME_MAX < length (primary_name (if_name f)) then Inl (NameTooLong (if_name f) (length (if_name f)))
      else check_files fs)"

fun place_files :: "nat \<Rightarrow> iso_file list \<Rightarrow> (iso_file \<times> nat) list \<times> nat" where
  "place_files lba [] = ([], lba)"
| "place_files lba (f # fs) = (case place_files (wadd32 lba (sectors_for (length (if_data f)))) fs of (ps, e) \<Rightarrow> ((f, lba) # ps, e))"

fun write_extents :: "(iso_file \<times> nat) list \<Rightarrow> u8 list \<Rightarrow> u8 list" where
  "write_extents [] img = img"
| "write_extents ((f, at) # ps) img =
     write_extents ps (resize (wadd32 at (sectors_for (length (if_data f))) * SECTOR) (img @ if_data f))"

definition build_iso9660 :: "string \<Rightarrow> iso_file list \<Rightarrow> (iso_error, u8 list) result" where
  "build_iso9660 label files =
     (if LABEL_MAX < length label then Inl (LabelTooLong label (length label))
      else case check_files files of
        Inl e \<Rightarrow> Inl e
      | Inr _ \<Rightarrow>
          (case place_files LBA_FIRST_FILE files of (placed, total_sectors) \<Rightarrow>
             Inr (write_extents placed
               (replicate (SYSTEM_AREA_SECTORS * SECTOR) 0
                @ volume_descriptor Primary label total_sectors @ volume_descriptor Joliet label total_sectors @ terminator
                @ path_table LittleEndian LBA_ROOT @ path_table BigEndian LBA_ROOT
                @ path_table LittleEndian LBA_ROOT_JOLIET @ path_table BigEndian LBA_ROOT_JOLIET
                @ root_directory Primary placed @ root_directory Joliet placed))))"

subsection \<open>A reader\<close>

text \<open>
  What a guest does with the image: look for the supplementary descriptor with the Joliet escape sequence, take
  extent and size of the root directory from its root record, walk over the directory records, and read the
  extent of the record with the wanted name.
\<close>

definition slice :: "nat \<Rightarrow> nat \<Rightarrow> u8 list \<Rightarrow> u8 list" where
  "slice at n s = take n (drop at s)"

definition le_at :: "nat \<Rightarrow> nat \<Rightarrow> u8 list \<Rightarrow> nat" where
  "le_at at n s = nat_be (rev (slice at n s))"

definition sector :: "u8 list \<Rightarrow> nat \<Rightarrow> u8 list" where
  "sector img n = slice (n * SECTOR) SECTOR img"

function read_records :: "u8 list \<Rightarrow> (u8 list \<times> nat \<times> nat) list" where
  "read_records s =
     (if length s < 33 \<or> unat (s ! 0) < 33 then []
      else (slice 33 (unat (s ! 32)) s, le_at 2 4 s, le_at 10 4 s) # read_records (drop (unat (s ! 0)) s))"
  by auto
termination by (relation "measure length") auto

declare read_records.simps [simp del]

definition joliet_descriptor :: "u8 list \<Rightarrow> u8 list option" where
  "joliet_descriptor img = find (\<lambda>d. slice 0 6 d = 2 # as_bytes ''CD001'' \<and> slice 88 3 d = as_bytes ''%/E'')
     (map (sector img) [16..<length img div SECTOR])"

definition read_file :: "u8 list \<Rightarrow> string \<Rightarrow> u8 list option" where
  "read_file img name = Option.bind (joliet_descriptor img) (\<lambda>d.
     map_option (\<lambda>(at, n). slice (at * SECTOR) n img)
       (map_of (read_records (slice (le_at 158 4 d * SECTOR) (le_at 166 4 d) img)) (ucs2be name)))"

subsection \<open>Slices and lengths\<close>

lemma length_put [simp]: "at + length bs \<le> length s \<Longrightarrow> length (put_at at bs s) = length s"
  by (simp add: put_at_def)

lemma slice_put_same: "at + length bs \<le> length s \<Longrightarrow> n = length bs \<Longrightarrow> slice at n (put_at at bs s) = bs"
  by (simp add: put_at_def slice_def)

lemma slice_put_before:
  assumes "at + length bs \<le> length s" and "off + n \<le> at"
  shows "slice off n (put_at at bs s) = slice off n s"
proof -
  have "n \<le> length (drop off (take at s))" "off \<le> length (take at s)"
    using assms by simp_all
  then have "take n (drop off (take at s @ bs @ drop (at + length bs) s)) = take n (drop off (take at s))"
    by simp
  also have "\<dots> = take n (drop off s)"
    using assms(2) by (simp add: drop_take)
  finally show ?thesis
    by (simp add: put_at_def slice_def)
qed

lemma slice_put_after: "at + length bs \<le> length s \<Longrightarrow> at + length bs \<le> off \<Longrightarrow> slice off n (put_at at bs s) = slice off n s"
  by (simp add: put_at_def slice_def)

lemma slice_put_inside:
  assumes "at + length bs \<le> length s" and "at \<le> off" and "off + n \<le> at + length bs"
  shows "slice off n (put_at at bs s) = slice (off - at) n bs"
  using assms by (simp add: put_at_def slice_def)

lemma length_padded [simp]: "length (padded n t p) = n"
  by (simp add: padded_def)

lemma length_resize [simp]: "length (resize n s) = n"
  by (simp add: resize_def)

lemma length_le_nat [simp]: "length (le_nat k n) = k"
  by (simp add: le_nat_def)

lemma length_both [simp]: "length (both32 v) = 8" "length (both16 v) = 4"
  by (simp_all add: both32_def both16_def)

lemma length_as_bytes [simp]: "length (as_bytes s) = length s"
  by (simp add: as_bytes_def)

lemma length_date [simp]: "length FIXED_VOLUME_DATE = 16"
  by (simp add: FIXED_VOLUME_DATE_def)

lemma length_record:
  "length (directory_record kind e lba sz) = (33 + length (record_name kind e)) + (33 + length (record_name kind e)) mod 2"
  by (simp add: directory_record_def Let_def) presburger

lemma length_root_record [simp]: "length (directory_record kind DirRoot lba sz) = 34"
  by (simp add: length_record record_name_def)

lemmas date_offsets = PVD_CREATION_DATE_def PVD_MODIFICATION_DATE_def PVD_EFFECTIVE_DATE_def PVD_EXPIRATION_DATE_def DATE_DIGITS_def

text \<open>Fields that lie inside and apart from each other are all readable.\<close>

definition fields_apart :: "nat \<times> u8 list \<Rightarrow> nat \<times> u8 list \<Rightarrow> bool" where
  "fields_apart x y = (fst x + length (snd x) \<le> fst y \<or> fst y + length (snd y) \<le> fst x)"

definition inside :: "nat \<Rightarrow> nat \<times> u8 list \<Rightarrow> bool" where
  "inside n x = (fst x + length (snd x) \<le> n)"

lemma length_write_fields: "list_all (inside (length s)) fs \<Longrightarrow> length (write_fields fs s) = length s"
  by (induction fs arbitrary: s) (auto simp: write_fields_def inside_def)

lemma slice_write_other:
  assumes "list_all (inside (length s)) fs" and "list_all (fields_apart x) fs"
  shows "slice (fst x) (length (snd x)) (write_fields fs s) = slice (fst x) (length (snd x)) s"
  using assms
proof (induction fs arbitrary: s)
  case (Cons f fs)
  obtain at bs where f: "f = (at, bs)"
    by (cases f)
  have "slice (fst x) (length (snd x)) (put_at at bs s) = slice (fst x) (length (snd x)) s"
    using Cons.prems by (auto simp: f inside_def fields_apart_def slice_put_before slice_put_after)
  moreover have "length (put_at at bs s) = length s"
    using Cons.prems by (simp add: f inside_def)
  ultimately show ?case
    using Cons.IH [of "put_at at bs s"] Cons.prems by (simp add: write_fields_def f)
qed (simp add: write_fields_def)

lemma slice_write_fields:
  assumes "x \<in> set fs" and "sorted_wrt fields_apart fs" and "list_all (inside (length s)) fs"
  shows "slice (fst x) (length (snd x)) (write_fields fs s) = snd x"
  using assms
proof (induction fs arbitrary: s)
  case (Cons f fs)
  obtain at bs where f: "f = (at, bs)"
    by (cases f)
  have len: "length (put_at at bs s) = length s"
    using Cons.prems by (simp add: f inside_def)
  show ?case
  proof (cases "x = f")
    case True
    then have "slice (fst x) (length (snd x)) (write_fields fs (put_at at bs s)) = slice (fst x) (length (snd x)) (put_at at bs s)"
      using Cons.prems len by (intro slice_write_other) (auto simp: list_all_iff)
    with True Cons.prems show ?thesis
      by (simp add: write_fields_def f slice_put_same inside_def)
  next
    case False
    with Cons.IH [of "put_at at bs s"] Cons.prems len show ?thesis
      by (simp add: write_fields_def f)
  qed
qed simp

lemma volume_fields_apart: "sorted_wrt fields_apart (volume_fields kind label n)"
  by (cases kind) (simp_all add: volume_fields_def Let_def fields_apart_def date_offsets)

lemma volume_fields_inside: "list_all (inside 2048) (volume_fields kind label n)"
  by (cases kind) (simp_all add: volume_fields_def Let_def inside_def date_offsets)

lemma length_volume_descriptor [simp]: "length (volume_descriptor kind label n) = SECTOR"
  using volume_fields_inside by (simp add: volume_descriptor_def length_write_fields SECTOR_def)

lemma length_terminator [simp]: "length terminator = SECTOR"
  unfolding terminator_def by (subst length_write_fields) (simp_all add: inside_def SECTOR_def)

lemma length_path_table [simp]: "length (path_table e lba) = SECTOR"
  unfolding path_table_def Let_def by (subst length_write_fields) (simp_all add: inside_def SECTOR_def split: endian.split)

lemma length_root_directory [simp]: "length (root_directory kind ps) = SECTOR"
  by (simp add: root_directory_def Let_def)

subsection \<open>Descriptors\<close>

lemma descriptor_field:
  assumes "(at, bs) \<in> set (volume_fields kind label n)" and "k = length bs"
  shows "slice at k (volume_descriptor kind label n) = bs"
  using slice_write_fields [OF assms(1) volume_fields_apart, of "replicate SECTOR 0"] volume_fields_inside assms(2)
  by (simp add: volume_descriptor_def SECTOR_def)

lemma descriptor_magic: "slice 0 6 (volume_descriptor kind label n) = (if kind = Joliet then 2 else 1) # as_bytes ''CD001''"
proof -
  have split: "slice 0 6 s = slice 0 1 s @ slice 1 5 s" for s :: "u8 list"
    using take_add [of 1 5 s] by (simp add: slice_def)
  have "slice 0 1 (volume_descriptor kind label n) = [if kind = Joliet then 2 else 1]"
    by (rule descriptor_field) (simp_all add: volume_fields_def Let_def)
  moreover have "slice 1 5 (volume_descriptor kind label n) = as_bytes ''CD001''"
    by (rule descriptor_field) (simp_all add: volume_fields_def Let_def)
  ultimately show ?thesis
    unfolding split by simp
qed

lemma joliet_escape: "slice 88 3 (volume_descriptor Joliet label n) = as_bytes ''%/E''"
  by (rule descriptor_field) (simp_all add: volume_fields_def Let_def)

lemma joliet_root_record:
  "slice 156 34 (volume_descriptor Joliet label n) = directory_record Joliet DirRoot LBA_ROOT_JOLIET SECTOR"
  by (rule descriptor_field) (simp_all add: volume_fields_def Let_def)

subsection \<open>Directory records\<close>

lemma nat_be_le_nat: "nat_be (rev (le_nat k n)) = n mod 256 ^ k"
  by (simp add: le_nat_def nat_be_be_nat)

lemma record_layout:
  "\<exists>pad. directory_record kind e lba sz = [word_of_nat (saturate 255 (length (directory_record kind e lba sz))), 0]
     @ le_nat 4 lba @ be_nat 4 lba @ le_nat 4 sz @ be_nat 4 sz @ [70, 1, 1, 0, 0, 0, 0]
     @ [(case e of DirFile _ \<Rightarrow> 0 | _ \<Rightarrow> 2), 0, 0] @ both16 1 @ [word_of_nat (saturate 255 (length (record_name kind e)))]
     @ record_name kind e @ pad"
  by (simp add: directory_record_def Let_def both32_def)

lemma record_extent: "slice 2 4 (directory_record kind e lba sz @ rest) = le_nat 4 lba"
proof -
  obtain pad where "directory_record kind e lba sz @ rest = ([word_of_nat (saturate 255 (length (directory_record kind e lba sz))), 0] @ le_nat 4 lba) @ pad"
    using record_layout [of kind e lba sz] by (metis append.assoc)
  then show ?thesis
    by (simp add: slice_def)
qed

lemma record_size: "slice 10 4 (directory_record kind e lba sz @ rest) = le_nat 4 sz"
proof -
  obtain pad where "directory_record kind e lba sz @ rest = ([word_of_nat (saturate 255 (length (directory_record kind e lba sz))), 0]
      @ le_nat 4 lba @ be_nat 4 lba) @ le_nat 4 sz @ pad"
    using record_layout [of kind e lba sz] by (metis append.assoc)
  then show ?thesis
    by (simp add: slice_def)
qed

lemma record_name_at:
  assumes "length (record_name kind e) \<le> 220"
  shows "(directory_record kind e lba sz @ rest) ! 0 = word_of_nat (length (directory_record kind e lba sz))"
    and "(directory_record kind e lba sz @ rest) ! 32 = word_of_nat (length (record_name kind e))"
    and "slice 33 (length (record_name kind e)) (directory_record kind e lba sz @ rest) = record_name kind e"
proof -
  obtain pad where r: "directory_record kind e lba sz @ rest = ([word_of_nat (saturate 255 (length (directory_record kind e lba sz))), 0]
      @ le_nat 4 lba @ be_nat 4 lba @ le_nat 4 sz @ be_nat 4 sz @ [70, 1, 1, 0, 0, 0, 0] @ [(case e of DirFile _ \<Rightarrow> 0 | _ \<Rightarrow> 2), 0, 0] @ both16 1)
      @ word_of_nat (saturate 255 (length (record_name kind e))) # record_name kind e @ pad"
    using record_layout [of kind e lba sz] by (metis append.assoc append_Cons append_Nil)
  have "saturate 255 (length (directory_record kind e lba sz)) = length (directory_record kind e lba sz)"
    "saturate 255 (length (record_name kind e)) = length (record_name kind e)"
    using assms by (simp_all add: saturate_def length_record)
  then show "(directory_record kind e lba sz @ rest) ! 0 = word_of_nat (length (directory_record kind e lba sz))"
    and "(directory_record kind e lba sz @ rest) ! 32 = word_of_nat (length (record_name kind e))"
    and "slice 33 (length (record_name kind e)) (directory_record kind e lba sz @ rest) = record_name kind e"
    unfolding r by (simp_all add: slice_def nth_append)
qed

lemma read_record:
  assumes "length (record_name kind e) \<le> 220" and "lba \<le> u32_max" and "sz \<le> u32_max"
  shows "read_records (directory_record kind e lba sz @ rest) = (record_name kind e, lba, sz) # read_records rest"
proof -
  let ?r = "directory_record kind e lba sz"
  have len: "33 \<le> length ?r" "length ?r \<le> 254" "length (record_name kind e) < 256"
    using assms(1) by (simp_all add: length_record)
  have "unat (word_of_nat (length ?r) :: u8) = length ?r" "unat (word_of_nat (length (record_name kind e)) :: u8) = length (record_name kind e)"
    using len by (simp_all add: unat_of_nat)
  then show ?thesis
    using len assms(2,3) record_name_at [OF assms(1), of lba sz rest]
    by (simp add: read_records.simps [of "?r @ rest"] le_at_def record_extent record_size nat_be_le_nat u32_max_def)
qed

lemma read_records_end: "read_records (replicate n 0) = []"
  by (subst read_records.simps) (cases n; simp)

lemma read_directory:
  assumes "\<And>f at. (f, at) \<in> set placed \<Longrightarrow> length (record_name kind (DirFile (if_name f))) \<le> 220 \<and> at \<le> u32_max \<and> length (if_data f) \<le> u32_max"
  shows "read_records (concat (map (\<lambda>(f, at). directory_record kind (DirFile (if_name f)) at (saturate u32_max (length (if_data f)))) placed) @ replicate n 0)
    = map (\<lambda>(f, at). (record_name kind (DirFile (if_name f)), at, length (if_data f))) placed"
  using assms
proof (induction placed)
  case (Cons p placed)
  obtain f at where p: "p = (f, at)"
    by (cases p)
  have "length (record_name kind (DirFile (if_name f))) \<le> 220" "at \<le> u32_max" "length (if_data f) \<le> u32_max"
    using Cons.prems [of f at] by (simp_all add: p)
  moreover from this have "saturate u32_max (length (if_data f)) = length (if_data f)"
    by (simp add: saturate_def)
  moreover have "read_records (concat (map (\<lambda>(f, at). directory_record kind (DirFile (if_name f)) at (saturate u32_max (length (if_data f)))) placed)
      @ replicate n 0) = map (\<lambda>(f, at). (record_name kind (DirFile (if_name f)), at, length (if_data f))) placed"
    by (rule Cons.IH) (use Cons.prems in auto)
  ultimately show ?case
    by (simp add: p read_record)
qed (simp add: read_records_end)

subsection \<open>Extents\<close>

definition extent :: "iso_file \<Rightarrow> u8 list" where
  "extent f = resize (sectors_for (length (if_data f)) * SECTOR) (if_data f)"

lemma sectors_enough: "len \<le> u32_max \<Longrightarrow> len \<le> sectors_for len * SECTOR"
  unfolding sectors_for_def Let_def SECTOR_def u32_max_def by auto

lemma resize_append: "length img = a \<Longrightarrow> resize (a + n) (img @ d) = img @ resize n d"
  by (simp add: resize_def)

definition sectors_of :: "iso_file list \<Rightarrow> nat" where
  "sectors_of files = sum_list (map (\<lambda>f. sectors_for (length (if_data f))) files)"

lemma place_files_total:
  "lba + sectors_of files \<le> u32_max \<Longrightarrow> snd (place_files lba files) = lba + sectors_of files"
proof (induction files arbitrary: lba)
  case (Cons f fs)
  have "wadd32 lba (sectors_for (length (if_data f))) = lba + sectors_for (length (if_data f))"
    using Cons.prems by (intro wadd32_exact) (simp add: sectors_of_def)
  with Cons.IH [of "lba + sectors_for (length (if_data f))"] Cons.prems show ?case
    by (simp add: sectors_of_def case_prod_unfold)
qed (simp add: sectors_of_def)

lemma write_extents_placed:
  assumes "lba + sectors_of files \<le> u32_max" and "length img = lba * SECTOR"
  shows "write_extents (fst (place_files lba files)) img = img @ concat (map extent files)"
  using assms
proof (induction files arbitrary: lba img)
  case (Cons f fs)
  let ?n = "sectors_for (length (if_data f))"
  have w: "wadd32 lba ?n = lba + ?n"
    using Cons.prems by (intro wadd32_exact) (simp add: sectors_of_def)
  have "resize ((lba + ?n) * SECTOR) (img @ if_data f) = img @ extent f"
    using resize_append [OF Cons.prems(2)] by (simp add: extent_def add_mult_distrib)
  with Cons.IH [of "lba + ?n" "img @ extent f"] Cons.prems w show ?case
    by (simp add: case_prod_unfold sectors_of_def extent_def add_mult_distrib)
qed simp

lemma placed_bounds:
  assumes "lba + sectors_of files \<le> u32_max" and "(f, at) \<in> set (fst (place_files lba files))"
  shows "f \<in> set files \<and> at \<le> u32_max"
  using assms
proof (induction files arbitrary: lba)
  case (Cons g fs)
  have "wadd32 lba (sectors_for (length (if_data g))) = lba + sectors_for (length (if_data g))"
    using Cons.prems by (intro wadd32_exact) (simp add: sectors_of_def)
  with Cons.IH [of "lba + sectors_for (length (if_data g))"] Cons.prems show ?case
    by (auto simp: sectors_of_def case_prod_unfold)
qed simp

lemma placed_extent:
  assumes "lba + sectors_of files \<le> u32_max" and "(f, at) \<in> set (fst (place_files lba files))" and "length img = lba * SECTOR"
    and "length (if_data f) \<le> u32_max"
  shows "slice (at * SECTOR) (length (if_data f)) (img @ concat (map extent files)) = if_data f"
  using assms
proof (induction files arbitrary: lba img)
  case (Cons g fs)
  let ?n = "sectors_for (length (if_data g))"
  have w: "wadd32 lba ?n = lba + ?n"
    using Cons.prems by (intro wadd32_exact) (simp add: sectors_of_def)
  consider "f = g" "at = lba" | "(f, at) \<in> set (fst (place_files (lba + ?n) fs))"
    using Cons.prems(2) by (auto simp: case_prod_unfold w)
  then show ?case
  proof cases
    case 1
    with sectors_enough [OF Cons.prems(4)] Cons.prems(3) show ?thesis
      by (simp add: slice_def extent_def resize_def)
  next
    case 2
    have "length (img @ extent g) = (lba + ?n) * SECTOR"
      using Cons.prems(3) by (simp add: extent_def add_mult_distrib)
    with Cons.IH [of "lba + ?n" "img @ extent g"] 2 Cons.prems show ?thesis
      by (simp add: sectors_of_def)
  qed
qed simp

subsection \<open>The image can be read\<close>

definition iso_header :: "string \<Rightarrow> iso_file list \<Rightarrow> u8 list" where
  "iso_header label files = (case place_files LBA_FIRST_FILE files of (placed, total_sectors) \<Rightarrow>
     replicate (SYSTEM_AREA_SECTORS * SECTOR) 0
     @ volume_descriptor Primary label total_sectors @ volume_descriptor Joliet label total_sectors @ terminator
     @ path_table LittleEndian LBA_ROOT @ path_table BigEndian LBA_ROOT
     @ path_table LittleEndian LBA_ROOT_JOLIET @ path_table BigEndian LBA_ROOT_JOLIET
     @ root_directory Primary placed @ root_directory Joliet placed)"

lemma length_iso_header [simp]: "length (iso_header label files) = LBA_FIRST_FILE * SECTOR"
  by (simp add: iso_header_def case_prod_unfold SYSTEM_AREA_SECTORS_def LBA_FIRST_FILE_def)

text \<open>Sectors of the header: descriptors at 16 and 17, the Joliet root directory at 24.\<close>

lemma header_sectors:
  "sector (iso_header label files @ rest) 16 = volume_descriptor Primary label (snd (place_files LBA_FIRST_FILE files))"
  "sector (iso_header label files @ rest) 17 = volume_descriptor Joliet label (snd (place_files LBA_FIRST_FILE files))"
  "sector (iso_header label files @ rest) 24 = root_directory Joliet (fst (place_files LBA_FIRST_FILE files))"
  by (simp_all add: iso_header_def case_prod_unfold sector_def slice_def SYSTEM_AREA_SECTORS_def)

lemma build_image:
  assumes "build_iso9660 label files = Inr img" and "LBA_FIRST_FILE + sectors_of files \<le> u32_max"
  shows "img = iso_header label files @ concat (map extent files)"
  using assms(1) write_extents_placed [OF assms(2) length_iso_header [of label files]]
  by (auto simp: build_iso9660_def iso_header_def case_prod_unfold split: if_splits sum.splits)

lemma joliet_descriptor_found:
  "joliet_descriptor (iso_header label files @ rest) = Some (volume_descriptor Joliet label (snd (place_files LBA_FIRST_FILE files)))"
proof -
  have "LBA_FIRST_FILE * SECTOR div SECTOR \<le> length (iso_header label files @ rest) div SECTOR"
    by (intro div_le_mono) simp
  then have "25 \<le> length (iso_header label files @ rest) div SECTOR"
    by (simp add: LBA_FIRST_FILE_def SECTOR_def)
  then have "[16..<length (iso_header label files @ rest) div SECTOR] = 16 # 17 # [18..<length (iso_header label files @ rest) div SECTOR]"
    by (simp add: upt_conv_Cons)
  then show ?thesis
    by (simp add: joliet_descriptor_def header_sectors descriptor_magic joliet_escape)
qed

lemma descriptor_root:
  "le_at 158 4 (volume_descriptor Joliet label n) = LBA_ROOT_JOLIET" "le_at 166 4 (volume_descriptor Joliet label n) = SECTOR"
proof -
  have sub: "slice (156 + k) 4 s = slice k 4 (slice 156 34 s)" if "k + 4 \<le> 34" for k and s :: "u8 list"
    using that by (simp add: slice_def drop_take min_def add.commute)
  show "le_at 158 4 (volume_descriptor Joliet label n) = LBA_ROOT_JOLIET"
    using sub [of 2 "volume_descriptor Joliet label n"] record_extent [of Joliet DirRoot LBA_ROOT_JOLIET SECTOR "[]"]
    by (simp add: le_at_def joliet_root_record nat_be_le_nat LBA_ROOT_JOLIET_def)
  show "le_at 166 4 (volume_descriptor Joliet label n) = SECTOR"
    using sub [of 10 "volume_descriptor Joliet label n"] record_size [of Joliet DirRoot LBA_ROOT_JOLIET SECTOR "[]"]
    by (simp add: le_at_def joliet_root_record nat_be_le_nat SECTOR_def)
qed

lemma length_code_points_le: "length (code_points bs) \<le> length bs"
  by (induction bs rule: code_points.induct) (auto simp: Let_def)

lemma joliet_name_short: "length (ucs2be n) \<le> 4 * length (chars n)"
proof -
  have "length (concat (map utf16_units cs)) \<le> 2 * length cs" for cs
    by (induction cs) (auto simp: utf16_units_def)
  moreover have "length (concat (map (be_nat 2) us)) = 2 * length us" for us
    by (induction us) auto
  ultimately show ?thesis
    by (metis ucs2be_def mult.assoc mult_le_mono2 numeral_Bit0_eq_double mult_2 numeral_plus_numeral semiring_norm(2))
qed

lemma checked_name_short:
  assumes "check_files files = Inr ()" and "f \<in> set files"
  shows "length (record_name Joliet (DirFile (if_name f))) \<le> 120"
proof -
  have "length (primary_name (if_name f)) \<le> PRIMARY_NAME_MAX"
    using assms by (induction files) (auto split: if_splits)
  then have "length (chars (if_name f)) \<le> 30"
    by (auto simp: primary_name_def PRIMARY_NAME_MAX_def Let_def split: if_splits)
  with joliet_name_short [of "if_name f"] show ?thesis
    by (simp add: record_name_def)
qed

definition joliet_directory_size :: "iso_file list \<Rightarrow> nat" where
  "joliet_directory_size files = 68 + sum_list (map (\<lambda>f. length (directory_record Joliet (DirFile (if_name f)) 0 0)) files)"

lemma placed_files: "map fst (fst (place_files lba files)) = files"
  by (induction files arbitrary: lba) (auto simp: case_prod_unfold)

lemma length_parent_record [simp]: "length (directory_record kind DirParent lba sz) = 34"
  by (simp add: length_record record_name_def)

lemma joliet_directory_length:
  "length (concat (map (\<lambda>(f, at). directory_record Joliet (DirFile (if_name f)) at (sz f)) placed)) + 68
     = joliet_directory_size (map fst placed)"
  by (induction placed) (auto simp: joliet_directory_size_def length_record)

lemma resize_fits: "length s \<le> n \<Longrightarrow> resize n s = s @ replicate (n - length s) 0"
  by (simp add: resize_def)

lemma read_joliet_root:
  assumes "joliet_directory_size (map fst placed) \<le> SECTOR"
    and "\<And>f at. (f, at) \<in> set placed \<Longrightarrow> length (record_name Joliet (DirFile (if_name f))) \<le> 220 \<and> at \<le> u32_max \<and> length (if_data f) \<le> u32_max"
  shows "read_records (root_directory Joliet placed) = ([0], LBA_ROOT_JOLIET, SECTOR) # ([1], LBA_ROOT_JOLIET, SECTOR)
    # map (\<lambda>(f, at). (ucs2be (if_name f), at, length (if_data f))) placed"
proof -
  let ?recs = "concat (map (\<lambda>(f, at). directory_record Joliet (DirFile (if_name f)) at (saturate u32_max (length (if_data f)))) placed)"
  have "length ?recs + 68 \<le> SECTOR"
    using assms(1) joliet_directory_length [of "\<lambda>f. saturate u32_max (length (if_data f))" placed] by simp
  then have "root_directory Joliet placed = directory_record Joliet DirRoot LBA_ROOT_JOLIET SECTOR
      @ directory_record Joliet DirParent LBA_ROOT_JOLIET SECTOR @ ?recs @ replicate (SECTOR - 68 - length ?recs) 0"
    by (simp add: root_directory_def resize_fits)
  moreover have "LBA_ROOT_JOLIET \<le> u32_max" "SECTOR \<le> u32_max"
    by (simp_all add: LBA_ROOT_JOLIET_def SECTOR_def u32_max_def)
  ultimately show ?thesis
    using read_directory [OF assms(2), of placed] by (simp add: read_record record_name_def)
qed

lemma even_ucs2be: "even (length (ucs2be n))"
proof -
  have "even (length (concat (map (be_nat 2) us)))" for us
    by (induction us) auto
  then show ?thesis
    by (simp add: ucs2be_def)
qed

text \<open>The reader's view of an image is the list of files it was built from, keyed by the Joliet spelling of the name.\<close>

lemma lookup_placed:
  assumes "\<And>f at. (f, at) \<in> set placed \<Longrightarrow> read at (length (if_data f)) = if_data f"
  shows "map_option (\<lambda>(at, n). read at n) (map_of (map (\<lambda>(f, at). (k f, at, length (if_data f))) placed) key)
    = map_of (map (\<lambda>f. (k f, if_data f)) (map fst placed)) key"
  using assms by (induction placed) auto

lemma image_lookup:
  assumes "build_iso9660 label files = Inr img" and "joliet_directory_size files \<le> SECTOR"
    and "LBA_FIRST_FILE + sectors_of files \<le> u32_max" and "\<And>g. g \<in> set files \<Longrightarrow> length (if_data g) \<le> u32_max"
  shows "read_file img name = map_of (map (\<lambda>f. (ucs2be (if_name f), if_data f)) files) (ucs2be name)"
proof -
  let ?placed = "fst (place_files LBA_FIRST_FILE files)"
  have img: "img = iso_header label files @ concat (map extent files)"
    by (rule build_image [OF assms(1,3)])
  have ok: "check_files files = Inr ()"
    using assms(1) by (auto simp: build_iso9660_def split: if_splits sum.splits)
  have mem: "f \<in> set files" if "(f, at) \<in> set ?placed" for f at
    using that placed_files [of LBA_FIRST_FILE files] by (metis fst_conv image_eqI list.set_map)
  have "read_records (root_directory Joliet ?placed) = ([0], LBA_ROOT_JOLIET, SECTOR) # ([1], LBA_ROOT_JOLIET, SECTOR)
      # map (\<lambda>(f, at). (ucs2be (if_name f), at, length (if_data f))) ?placed"
  proof (rule read_joliet_root)
    show "length (record_name Joliet (DirFile (if_name g))) \<le> 220 \<and> b \<le> u32_max \<and> length (if_data g) \<le> u32_max"
      if "(g, b) \<in> set ?placed" for g b
      using placed_bounds [OF assms(3) that] checked_name_short [OF ok, of g] assms(4) [of g] by simp
  qed (simp add: placed_files assms(2))
  moreover have "ucs2be name \<noteq> [0]" "ucs2be name \<noteq> [1]"
    using even_ucs2be [of name] by auto
  moreover have "slice (LBA_ROOT_JOLIET * SECTOR) SECTOR img = root_directory Joliet ?placed"
    using header_sectors(3) [of label files "concat (map extent files)"] by (simp add: img sector_def LBA_ROOT_JOLIET_def)
  moreover have "map_option (\<lambda>(at, n). slice (at * SECTOR) n img)
      (map_of (map (\<lambda>(f, at). (ucs2be (if_name f), at, length (if_data f))) ?placed) (ucs2be name))
    = map_of (map (\<lambda>f. (ucs2be (if_name f), if_data f)) (map fst ?placed)) (ucs2be name)"
  proof (rule lookup_placed)
    show "slice (at * SECTOR) (length (if_data f)) img = if_data f" if "(f, at) \<in> set ?placed" for f at
      unfolding img by (rule placed_extent [OF assms(3) that length_iso_header]) (rule assms(4) [OF mem [OF that]])
  qed
  ultimately show ?thesis
    by (simp add: read_file_def img joliet_descriptor_found descriptor_root placed_files)
qed

text \<open>
  A guest reads back what was put in: if building succeeds, the directory fits its sector, the names are
  distinct as Joliet spells them and the image stays within 32-bit addresses, then the reader finds every file
  by its name and gets exactly its bytes.
\<close>

theorem seed_image_reads_back:
  assumes "build_iso9660 label files = Inr img" and "f \<in> set files" and "joliet_directory_size files \<le> SECTOR"
    and "distinct (map (\<lambda>f. ucs2be (if_name f)) files)" and "LBA_FIRST_FILE + sectors_of files \<le> u32_max"
    and "\<And>g. g \<in> set files \<Longrightarrow> length (if_data g) \<le> u32_max"
  shows "read_file img (if_name f) = Some (if_data f)"
proof -
  have "map fst (map (\<lambda>f. (ucs2be (if_name f), if_data f)) files) = map (\<lambda>f. ucs2be (if_name f)) files"
    by simp
  with assms(2,4) have "map_of (map (\<lambda>f. (ucs2be (if_name f), if_data f)) files) (ucs2be (if_name f)) = Some (if_data f)"
    by (intro map_of_is_SomeI) (auto simp only: set_map)
  then show ?thesis
    using image_lookup [OF assms(1,3,5,6)] by simp
qed

definition demo_seed :: "iso_file list" where
  "demo_seed = [iso_file_new ''user-data'' (as_bytes ''#cloud-config''), iso_file_new ''empty'' [], iso_file_new ''meta-data'' (as_bytes ''id: a'')]"

theorem seed_image_reads_back_witness:
  "\<exists>img. build_iso9660 ''CIDATA'' demo_seed = Inr img \<and> read_file img ''meta-data'' = Some (as_bytes ''id: a'')"
proof -
  have "check_files demo_seed = Inr ()"
    by code_simp
  then obtain img where img: "build_iso9660 ''CIDATA'' demo_seed = Inr img"
    by (auto simp: build_iso9660_def LABEL_MAX_def case_prod_unfold)
  have "read_file img (if_name (iso_file_new ''meta-data'' (as_bytes ''id: a''))) = Some (if_data (iso_file_new ''meta-data'' (as_bytes ''id: a'')))"
  proof (rule seed_image_reads_back [OF img])
    show "length (if_data g) \<le> u32_max" if "g \<in> set demo_seed" for g
      using that by (auto simp: demo_seed_def iso_file_new_def u32_max_def)
  qed (simp add: demo_seed_def, code_simp, code_simp, code_simp)
  with img show ?thesis
    by (simp add: iso_file_new_def)
qed

text \<open>
  Nothing checks that the directory fits: of sixty files the last ones have no complete record in the sector,
  and the image is built all the same.
\<close>

theorem directory_overflow_unnoticed:
  "let files = map (\<lambda>i. iso_file_new [CHR ''f'', char_of (48 + i div 10), char_of (48 + i mod 10)] []) [0..<60]
   in check_files files = Inr () \<and> SECTOR < joliet_directory_size files
     \<and> length (root_directory Joliet (fst (place_files LBA_FIRST_FILE files))) < joliet_directory_size files"
proof -
  let ?files = "map (\<lambda>i. iso_file_new [CHR ''f'', char_of (48 + i div 10), char_of (48 + i mod 10)] []) [0..<60]"
  have "check_files ?files = Inr ()" "SECTOR < joliet_directory_size ?files"
    by code_simp+
  then show ?thesis
    by (simp add: Let_def)
qed

text \<open>
  The label limit is that of the primary tree: a label of 32 bytes is accepted, and the Joliet descriptor,
  which has room for 16 characters, carries only the first half of it.
\<close>

theorem joliet_label_truncated:
  assumes "l = replicate 16 CHR ''A'' @ replicate 16 CHR ''B''"
  shows "\<not> LABEL_MAX < length l \<and> slice 40 32 (volume_descriptor Joliet l n) = ucs2be (replicate 16 CHR ''A'')"
proof -
  have "slice 40 32 (volume_descriptor Joliet l n) = padded 32 (ucs2be l @ concat (replicate 16 [0, 0x20])) 0"
    by (rule descriptor_field) (simp_all add: volume_fields_def Let_def)
  moreover have "padded 32 (ucs2be (replicate 16 CHR ''A'' @ replicate 16 CHR ''B'') @ concat (replicate 16 [0, 0x20])) 0 = ucs2be (replicate 16 CHR ''A'')"
    by code_simp
  ultimately show ?thesis
    by (simp add: assms LABEL_MAX_def)
qed

end
