(* ===== verification/Cloud_Init.thy ===== *)
theory Cloud_Init
  imports Iso9660 Naming
begin

section \<open>Cloud-init seeds\<close>

text \<open>
  \<^verbatim>\<open>banlieue-provider-sdk/src/cloudinit/mod.rs\<close> (the files of a seed image) and \<^verbatim>\<open>network.rs\<close> (the network
  document and derived hardware addresses), composed with the image writer.  SHA-256 is a parameter.  The last
  part reads a document back the way a YAML parser splits it, to state what a guest is configured with.
\<close>

definition nl :: string where "nl = [CHR 0x0A]"

subsection \<open>The seed\<close>

definition EMPTY_USER_DATA :: string where "EMPTY_USER_DATA = ''#cloud-config'' @ nl"
definition NETWORK_CONFIG_FILE :: string where "NETWORK_CONFIG_FILE = ''network-config''"
definition CIDATA_LABEL :: string where "CIDATA_LABEL = ''CIDATA''"

definition seed_files :: "string \<Rightarrow> string \<Rightarrow> string option \<Rightarrow> string option \<Rightarrow> iso_file list" where
  "seed_files domain_name domain_uuid user_data network_config =
     (let meta = ''instance-id: '' @ domain_uuid @ nl @ ''local-hostname: '' @ domain_name @ nl;
          ud = (case user_data of Some u \<Rightarrow> u | None \<Rightarrow> EMPTY_USER_DATA)
      in [iso_file_new ''meta-data'' (as_bytes meta), iso_file_new ''user-data'' (as_bytes ud)]
         @ (case network_config of Some nc \<Rightarrow> [iso_file_new NETWORK_CONFIG_FILE (as_bytes nc)] | None \<Rightarrow> []))"

definition build_seed_iso :: "string \<Rightarrow> string \<Rightarrow> string option \<Rightarrow> string option \<Rightarrow> (iso_error, u8 list) result" where
  "build_seed_iso domain_name domain_uuid user_data network_config =
     build_iso9660 CIDATA_LABEL (seed_files domain_name domain_uuid user_data network_config)"

subsection \<open>The network document\<close>

definition MAC_SUFFIX_BYTES :: nat where "MAC_SUFFIX_BYTES = 3"

record seed_nic =
  sn_name :: string
  sn_mac :: "string option"
  sn_ipam :: ipam_spec

text \<open>Every caller passes a constant ASCII prefix, for which \<^verbatim>\<open>to_lowercase\<close> is the ASCII one.\<close>

definition derive_mac :: "(u8 list \<Rightarrow> u8 list) \<Rightarrow> string \<Rightarrow> string \<Rightarrow> string \<Rightarrow> string" where
  "derive_mac sha256 prefix uid nic_name =
     (let digest = sha256 (as_bytes (uid @ ''/'' @ nic_name));
          suffix = map (\<lambda>b. hex_digits 2 (uint b)) (take MAC_SUFFIX_BYTES digest)
      in to_ascii_lowercase prefix @ '':'' @ join_with '':'' suffix)"

definition any_static :: "seed_nic list \<Rightarrow> bool" where
  "any_static nics = list_ex (\<lambda>n. is_static (sn_ipam n) \<noteq> None) nics"

definition flat :: "string \<Rightarrow> string" where
  "flat s = map (\<lambda>c. if c = CHR 0x0A \<or> c = CHR 0x0D then CHR '' '' else c) s"

definition QUOTE :: char where "QUOTE = CHR 0x27"

definition escape_quotes :: "string \<Rightarrow> string" where
  "escape_quotes s = concat (map (\<lambda>c. if c = QUOTE then [QUOTE, QUOTE] else [c]) s)"

definition quote :: "string \<Rightarrow> string" where
  "quote s = QUOTE # escape_quotes (flat s) @ [QUOTE]"

definition nic_match :: "seed_nic \<Rightarrow> string" where
  "nic_match nic = (case sn_mac nic of None \<Rightarrow> []
     | Some mac \<Rightarrow> ''    match:'' @ nl @ ''      macaddress: '' @ quote mac @ nl @ ''    set-name: '' @ quote (sn_name nic) @ nl)"

definition nameserver_doc :: "static_ipam_config \<Rightarrow> string" where
  "nameserver_doc cfg =
     (let dns = map quote (sic_nameservers cfg);
          search = (case sic_domain cfg of None \<Rightarrow> [] | Some d \<Rightarrow> [quote d])
      in if dns = [] \<and> search = [] then []
         else ''    nameservers:'' @ nl
            @ (if dns = [] then [] else ''      addresses: ['' @ join_with '', '' dns @ '']'' @ nl)
            @ (if search = [] then [] else ''      search: ['' @ join_with '', '' search @ '']'' @ nl))"

definition nic_addressing :: "seed_nic \<Rightarrow> string" where
  "nic_addressing nic = (case is_static (sn_ipam nic) of
       None \<Rightarrow> ''    dhcp4: true'' @ nl
     | Some cfg \<Rightarrow>
         ''    addresses:'' @ nl @ ''      - '' @ quote (sic_address cfg @ ''/'' @ show_nat (sic_prefix cfg)) @ nl
         @ (case sic_gateway cfg of None \<Rightarrow> []
            | Some gw \<Rightarrow> ''    routes:'' @ nl @ ''      - to: default'' @ nl @ ''        via: '' @ quote gw @ nl)
         @ nameserver_doc cfg)"

definition network_config :: "seed_nic list \<Rightarrow> string option" where
  "network_config nics =
     (if \<not> any_static nics then None
      else Some (''version: 2'' @ nl @ ''ethernets:'' @ nl
        @ concat (map (\<lambda>nic. ''  '' @ quote (sn_name nic) @ '':'' @ nl @ nic_match nic @ nic_addressing nic) nics)))"

subsection \<open>A reader\<close>

text \<open>
  A single-quoted YAML scalar ends at the first quote that is not doubled.  The reader goes line by line: a
  scalar at the indentation of an interface opens a new one, the other lines fill in the current one.
\<close>

fun scan_scalar :: "string \<Rightarrow> (string \<times> string) option" where
  "scan_scalar [] = None"
| "scan_scalar (c # s) =
     (if c \<noteq> QUOTE then map_option (\<lambda>(v, r). (c # v, r)) (scan_scalar s)
      else case s of
        [] \<Rightarrow> Some ([], [])
      | d # s' \<Rightarrow> if d = QUOTE then map_option (\<lambda>(v, r). (QUOTE # v, r)) (scan_scalar s') else Some ([], s))"

definition read_scalar :: "string \<Rightarrow> (string \<times> string) option" where
  "read_scalar s = (case s of c # r \<Rightarrow> if c = QUOTE then scan_scalar r else None | [] \<Rightarrow> None)"

lemma scan_scalar_length: "scan_scalar s = Some (v, r) \<Longrightarrow> length r < length s"
proof (induction s arbitrary: v r rule: scan_scalar.induct)
  case (2 c s)
  then show ?case
    by (fastforce split: if_splits list.splits)
qed simp

lemma read_scalar_length: "read_scalar s = Some (v, r) \<Longrightarrow> length r < length s"
  by (auto simp: read_scalar_def split: list.splits if_splits dest: scan_scalar_length)

function read_items :: "string \<Rightarrow> string list" where
  "read_items s = (case read_scalar s of
       None \<Rightarrow> []
     | Some (v, r) \<Rightarrow> v # (case strip_prefix '', '' r of Some t \<Rightarrow> read_items t | None \<Rightarrow> []))"
  by auto
termination
  by (relation "measure length") (auto simp: strip_prefix_Some dest!: read_scalar_length)

declare read_items.simps [simp del]

record nic_view =
  nv_name :: string
  nv_mac :: "string option"
  nv_address :: "string option"
  nv_gateway :: "string option"
  nv_dns :: "string list"
  nv_search :: "string list"

definition scalar_after :: "string \<Rightarrow> string \<Rightarrow> string option" where
  "scalar_after prefix line = Option.bind (strip_prefix prefix line) (\<lambda>r. map_option fst (read_scalar r))"

definition fill :: "(nic_view \<Rightarrow> nic_view) \<Rightarrow> nic_view list \<Rightarrow> nic_view list" where
  "fill f vs = (case vs of v # us \<Rightarrow> f v # us | [] \<Rightarrow> [])"

definition read_line :: "string \<Rightarrow> nic_view list \<Rightarrow> nic_view list" where
  "read_line line vs = (case scalar_after ''  '' line of
       Some n \<Rightarrow> \<lparr>nv_name = n, nv_mac = None, nv_address = None, nv_gateway = None, nv_dns = [], nv_search = []\<rparr> # vs
     | None \<Rightarrow> (case scalar_after ''      macaddress: '' line of
       Some m \<Rightarrow> fill (nv_mac_update (\<lambda>_. Some m)) vs
     | None \<Rightarrow> (case scalar_after ''      - '' line of
       Some a \<Rightarrow> fill (nv_address_update (\<lambda>_. Some a)) vs
     | None \<Rightarrow> (case scalar_after ''        via: '' line of
       Some g \<Rightarrow> fill (nv_gateway_update (\<lambda>_. Some g)) vs
     | None \<Rightarrow> (case strip_prefix ''      addresses: ['' line of
       Some r \<Rightarrow> fill (nv_dns_update (\<lambda>_. read_items r)) vs
     | None \<Rightarrow> (case strip_prefix ''      search: ['' line of
       Some r \<Rightarrow> fill (nv_search_update (\<lambda>_. read_items r)) vs
     | None \<Rightarrow> vs))))))"

definition read_network_config :: "string \<Rightarrow> nic_view list" where
  "read_network_config doc = rev (fold read_line (split_char (CHR 0x0A) doc) [])"

definition nic_view_of :: "seed_nic \<Rightarrow> nic_view" where
  "nic_view_of nic =
     \<lparr>nv_name = flat (sn_name nic), nv_mac = map_option flat (sn_mac nic),
      nv_address = map_option (\<lambda>c. flat (sic_address c @ ''/'' @ show_nat (sic_prefix c))) (is_static (sn_ipam nic)),
      nv_gateway = Option.bind (is_static (sn_ipam nic)) (\<lambda>c. map_option flat (sic_gateway c)),
      nv_dns = (case is_static (sn_ipam nic) of None \<Rightarrow> [] | Some c \<Rightarrow> map flat (sic_nameservers c)),
      nv_search = (case is_static (sn_ipam nic) of None \<Rightarrow> [] | Some c \<Rightarrow> (case sic_domain c of None \<Rightarrow> [] | Some d \<Rightarrow> [flat d]))\<rparr>"

subsection \<open>Quoting\<close>

lemma scan_escape: "(rest = [] \<or> hd rest \<noteq> QUOTE) \<Longrightarrow> scan_scalar (escape_quotes s @ QUOTE # rest) = Some (s, rest)"
  by (induction s) (auto simp: escape_quotes_def split: list.split)

lemma read_quote: "(rest = [] \<or> hd rest \<noteq> QUOTE) \<Longrightarrow> read_scalar (quote s @ rest) = Some (flat s, rest)"
  by (simp add: read_scalar_def quote_def scan_escape)

lemma read_scalar_quote [simp]: "read_scalar (quote s) = Some (flat s, [])"
  using read_quote [of "[]" s] by simp

lemma read_scalar_other: "c \<noteq> QUOTE \<Longrightarrow> read_scalar (c # r) = None"
  by (simp add: read_scalar_def)

lemma quote_one_line [simp]: "CHR 0x0A \<notin> set (quote s)"
  by (auto simp: quote_def escape_quotes_def flat_def QUOTE_def split: if_splits)

lemma read_items_join: "read_items (join_with '', '' (map quote xs) @ '']'') = map flat xs"
proof (induction xs)
  case Nil
  show ?case
    by (subst read_items.simps) (simp add: read_scalar_def QUOTE_def)
next
  case (Cons x xs)
  show ?case
  proof (cases xs)
    case Nil
    show ?thesis
      by (subst read_items.simps) (simp add: Nil read_quote QUOTE_def strip_prefix_def starts_with_def)
  next
    case (Cons y ys)
    have "read_items (quote x @ '', '' @ join_with '', '' (map quote xs) @ '']'') = flat x # read_items (join_with '', '' (map quote xs) @ '']'')"
      by (subst read_items.simps) (simp add: read_quote QUOTE_def strip_prefix_def starts_with_def)
    with Cons.IH show ?thesis
      by (simp add: Cons)
  qed
qed

subsection \<open>Lines of the document\<close>

definition nic_lines :: "seed_nic \<Rightarrow> string list" where
  "nic_lines nic = (''  '' @ quote (sn_name nic) @ '':'')
     # (case sn_mac nic of None \<Rightarrow> [] | Some mac \<Rightarrow> [''    match:'', ''      macaddress: '' @ quote mac, ''    set-name: '' @ quote (sn_name nic)])
     @ (case is_static (sn_ipam nic) of None \<Rightarrow> [''    dhcp4: true'']
        | Some cfg \<Rightarrow> [''    addresses:'', ''      - '' @ quote (sic_address cfg @ ''/'' @ show_nat (sic_prefix cfg))]
          @ (case sic_gateway cfg of None \<Rightarrow> [] | Some gw \<Rightarrow> [''    routes:'', ''      - to: default'', ''        via: '' @ quote gw])
          @ (if sic_nameservers cfg = [] \<and> sic_domain cfg = None then [] else [''    nameservers:''])
          @ (if sic_nameservers cfg = [] then [] else [''      addresses: ['' @ join_with '', '' (map quote (sic_nameservers cfg)) @ '']''])
          @ (case sic_domain cfg of None \<Rightarrow> [] | Some d \<Rightarrow> [''      search: ['' @ quote d @ '']'']))"

lemma nic_doc_lines:
  "''  '' @ quote (sn_name nic) @ '':'' @ nl @ nic_match nic @ nic_addressing nic = concat (map (\<lambda>l. l @ nl) (nic_lines nic))"
  by (auto simp: nic_match_def nic_addressing_def nameserver_doc_def nic_lines_def Let_def split: option.split)

lemma join_one_line: "\<forall>s \<in> set ss. c \<notin> set s \<Longrightarrow> c \<notin> set sep \<Longrightarrow> c \<notin> set (join_with sep ss)"
  by (induction sep ss rule: join_with.induct) auto

lemma nic_lines_one_line: "l \<in> set (nic_lines nic) \<Longrightarrow> CHR 0x0A \<notin> set l"
  by (auto simp: nic_lines_def join_one_line split: option.splits if_splits)

lemma split_lines: "\<forall>l \<in> set ls. CHR 0x0A \<notin> set l \<Longrightarrow> split_char (CHR 0x0A) (concat (map (\<lambda>l. l @ nl) ls)) = ls @ [[]]"
  by (induction ls) (simp_all add: nl_def split_char_append)

lemmas read_line_simps = read_line_def scalar_after_def strip_prefix_def starts_with_def

lemma read_line_name:
  "read_line (''  '' @ quote n @ '':'') vs =
     \<lparr>nv_name = flat n, nv_mac = None, nv_address = None, nv_gateway = None, nv_dns = [], nv_search = []\<rparr> # vs"
  by (simp add: read_line_simps read_quote QUOTE_def)

lemma read_line_value:
  "read_line (''      macaddress: '' @ quote m) vs = fill (nv_mac_update (\<lambda>_. Some (flat m))) vs"
  "read_line (''      - '' @ quote a) vs = fill (nv_address_update (\<lambda>_. Some (flat a))) vs"
  "read_line (''        via: '' @ quote g) vs = fill (nv_gateway_update (\<lambda>_. Some (flat g))) vs"
  by (simp_all add: read_line_simps read_scalar_other QUOTE_def)

lemma read_line_list:
  "read_line (''      addresses: ['' @ join_with '', '' (map quote xs) @ '']'') vs = fill (nv_dns_update (\<lambda>_. map flat xs)) vs"
  "read_line (''      search: ['' @ quote d @ '']'') vs = fill (nv_search_update (\<lambda>_. [flat d])) vs"
  using read_items_join [of xs] read_items_join [of "[d]"]
  by (simp_all add: read_line_simps read_scalar_other QUOTE_def)

lemma read_line_other:
  "read_line [] vs = vs" "read_line ''version: 2'' vs = vs" "read_line ''ethernets:'' vs = vs" "read_line ''    match:'' vs = vs"
  "read_line ''    dhcp4: true'' vs = vs" "read_line ''    addresses:'' vs = vs" "read_line ''    routes:'' vs = vs"
  "read_line ''      - to: default'' vs = vs" "read_line ''    nameservers:'' vs = vs"
  "read_line (''    set-name: '' @ quote n) vs = vs"
  by (simp_all add: read_line_simps read_scalar_def QUOTE_def)

lemma read_nic_lines: "fold read_line (nic_lines nic) vs = nic_view_of nic # vs"
proof -
  note lines = read_line_name [simplified] read_line_value [simplified] read_line_list [simplified] read_line_other [simplified]
  show ?thesis
    unfolding nic_lines_def nic_view_of_def
    by (cases "sn_mac nic"; cases "is_static (sn_ipam nic)"; cases "sic_gateway (the (is_static (sn_ipam nic)))";
        cases "sic_domain (the (is_static (sn_ipam nic)))")
      (simp_all add: lines fill_def)
qed



subsection \<open>The seed reaches the guest\<close>

lemma seed_files_checked: "check_files (seed_files n u ud nc) = Inr ()"
proof -
  have "length (primary_name ''user-data'') \<le> PRIMARY_NAME_MAX" "length (primary_name ''network-config'') \<le> PRIMARY_NAME_MAX"
      "length (primary_name ''meta-data'') \<le> PRIMARY_NAME_MAX"
    by code_simp+
  then show ?thesis
    by (auto simp: seed_files_def iso_file_new_def NETWORK_CONFIG_FILE_def Let_def split: option.split)
qed

lemma seed_directory_fits: "joliet_directory_size (seed_files n u ud nc) \<le> SECTOR"
proof -
  have "length (directory_record Joliet (DirFile ''meta-data'') 0 0) \<le> 200"
      "length (directory_record Joliet (DirFile ''user-data'') 0 0) \<le> 200"
      "length (directory_record Joliet (DirFile ''network-config'') 0 0) \<le> 200"
    by code_simp+
  then show ?thesis
    by (auto simp: joliet_directory_size_def seed_files_def iso_file_new_def NETWORK_CONFIG_FILE_def SECTOR_def Let_def split: option.split)
qed

lemma seed_names_differ: "ucs2be ''meta-data'' \<noteq> ucs2be ''user-data''" "ucs2be ''meta-data'' \<noteq> ucs2be ''network-config''"
  "ucs2be ''user-data'' \<noteq> ucs2be ''network-config''"
  by code_simp+

text \<open>
  (C24) The seed reaches the guest: for every machine, unless its data does not fit an image of 32-bit addresses,
  building the seed succeeds, and a guest that mounts it finds the machine's identity, exactly its user data, or
  an empty cloud-config when it has none, and its network document exactly when it has one.
\<close>

theorem seed_reaches_guest:
  assumes "LBA_FIRST_FILE + sectors_of (seed_files n u ud nc) \<le> u32_max"
    and "\<And>f. f \<in> set (seed_files n u ud nc) \<Longrightarrow> length (if_data f) \<le> u32_max"
  shows "\<exists>img. build_seed_iso n u ud nc = Inr img
    \<and> read_file img ''meta-data'' = Some (as_bytes (''instance-id: '' @ u @ nl @ ''local-hostname: '' @ n @ nl))
    \<and> read_file img ''user-data'' = Some (as_bytes (case ud of Some d \<Rightarrow> d | None \<Rightarrow> EMPTY_USER_DATA))
    \<and> read_file img ''network-config'' = map_option as_bytes nc"
proof -
  obtain img where img: "build_iso9660 CIDATA_LABEL (seed_files n u ud nc) = Inr img"
    by (auto simp: build_iso9660_def seed_files_checked CIDATA_LABEL_def LABEL_MAX_def case_prod_unfold)
  from image_lookup [OF img seed_directory_fits assms]
  have "read_file img name = map_of (map (\<lambda>f. (ucs2be (if_name f), if_data f)) (seed_files n u ud nc)) (ucs2be name)" for name
    by blast
  then show ?thesis
    using img seed_names_differ seed_names_differ [symmetric]
    by (auto simp: build_seed_iso_def seed_files_def iso_file_new_def NETWORK_CONFIG_FILE_def Let_def split: option.split)
qed

theorem seed_reaches_guest_witness:
  "\<exists>img. build_seed_iso ''web-1'' ''u1'' None None = Inr img \<and> read_file img ''user-data'' = Some (as_bytes EMPTY_USER_DATA)
     \<and> read_file img ''network-config'' = None"
proof -
  have "LBA_FIRST_FILE + sectors_of (seed_files ''web-1'' ''u1'' None None) \<le> u32_max"
    by (simp add: sectors_of_def seed_files_def iso_file_new_def sectors_for_def as_bytes_def EMPTY_USER_DATA_def nl_def
        SECTOR_def LBA_FIRST_FILE_def u32_max_def)
  moreover have "length (if_data f) \<le> u32_max" if "f \<in> set (seed_files ''web-1'' ''u1'' None None)" for f
    using that by (auto simp: seed_files_def iso_file_new_def as_bytes_def EMPTY_USER_DATA_def nl_def u32_max_def)
  ultimately show ?thesis
    using seed_reaches_guest [of "''web-1''" "''u1''" None None] by auto
qed

end
