(* ===== verification/Sdk_Inputs.thy ===== *)
theory Sdk_Inputs
  imports Text_Util Controller Trace_Logic
begin

section \<open>Inputs of the provider SDK\<close>

text \<open>
  \<^verbatim>\<open>sealing.rs\<close> (the guest's report on sealed partitions), \<^verbatim>\<open>scheduling.rs\<close> (node selector and toleration flags),
  \<^verbatim>\<open>ca_bundle.rs\<close> (the trust bundle of a connection) and \<^verbatim>\<open>osartifact.rs\<close> of \<^verbatim>\<open>banlieue-provider-sdk\<close>.
\<close>

subsection \<open>First-boot sealing\<close>

definition REASON_FIRST_BOOT_SEALING_UNVERIFIED :: string where
  "REASON_FIRST_BOOT_SEALING_UNVERIFIED = ''FirstBootSealingUnverified''"
definition REASON_FIRST_BOOT_SEALING_TIMEOUT :: string where
  "REASON_FIRST_BOOT_SEALING_TIMEOUT = ''FirstBootSealingTimeout''"

datatype sealing_gate = GateSatisfied | GatePending "string list" | GateTimedOut "string list"

definition is_plain_label :: "string \<Rightarrow> bool" where
  "is_plain_label name = (name \<noteq> [] \<and> list_all (\<lambda>b. is_ascii_uppercase b \<or> is_ascii_digit b \<or> b = CHR ''_'') name)"

fun push_new :: "string list \<Rightarrow> string list \<Rightarrow> string list" where
  "push_new out [] = out"
| "push_new out (l # ls) = push_new (if l \<in> set out then out else out @ [l]) ls"

definition parse_sealed_report :: "string \<Rightarrow> string list" where
  "parse_sealed_report raw = push_new [] (filter is_plain_label (map trim (split_char CHR '','' raw)))"

definition sticky_sealed_partitions :: "string list \<Rightarrow> string list \<Rightarrow> string list" where
  "sticky_sealed_partitions previous observed = push_new previous observed"

definition missing_partitions :: "first_boot_sealing \<Rightarrow> string list \<Rightarrow> string list" where
  "missing_partitions required sealed = filter (\<lambda>p. p \<notin> set sealed) (fbs_partitions required)"

definition sealing_ready_since :: "condition list \<Rightarrow> timestamp option" where
  "sealing_ready_since cs = map_option c_last_transition_time (find (\<lambda>c. c_type c = ''Ready'' \<and> c_status c = ''True'') cs)"

definition sealing_gate_of :: "jiff \<Rightarrow> first_boot_sealing \<Rightarrow> string list \<Rightarrow> condition list \<Rightarrow> timestamp \<Rightarrow> sealing_gate" where
  "sealing_gate_of j required sealed cs now =
     (let missing = missing_partitions required sealed
      in if missing = [] then GateSatisfied
         else case sealing_ready_since cs of
           None \<Rightarrow> GatePending missing
         | Some since \<Rightarrow>
             (let deadline = jf_as_second j since + int (fbs_timeout_seconds required)
              in if deadline < jf_as_second j now then GateTimedOut missing else GatePending missing))"

subsection \<open>Where builds may run\<close>

record toleration =
  tol_key :: "string option"
  tol_operator :: "string option"
  tol_value :: "string option"
  tol_effect :: "string option"

record build_scheduling =
  bs_node_selector :: btmap
  bs_tolerations :: "toleration list"

definition VALID_EFFECTS :: "string list" where
  "VALID_EFFECTS = [''NoSchedule'', ''PreferNoSchedule'', ''NoExecute'']"

definition node_selector_error :: "string \<Rightarrow> string" where
  "node_selector_error entry = ''node selector '' @ debug_str entry @ '' must be key=value (e.g. banlieue.io/imagebuild=true)''"

fun parse_node_selector_from :: "btmap \<Rightarrow> string list \<Rightarrow> (string, btmap) result" where
  "parse_node_selector_from out [] = Inr out"
| "parse_node_selector_from out (entry # entries) =
     (case split_once CHR ''='' entry of
        None \<Rightarrow> Inl (node_selector_error entry)
      | Some (key, val) \<Rightarrow>
          if key = [] \<or> CHR ''='' \<in> set val then Inl (node_selector_error entry)
          else parse_node_selector_from (bt_insert key val out) entries)"

definition parse_node_selector :: "string list \<Rightarrow> (string, btmap) result" where
  "parse_node_selector entries = parse_node_selector_from [] entries"

fun parse_tolerations :: "string list \<Rightarrow> (string, toleration list) result" where
  "parse_tolerations [] = Inr []"
| "parse_tolerations (entry # entries) =
     (case rsplit_once CHR '':'' entry of
        None \<Rightarrow> Inl (''toleration '' @ debug_str entry @ '' must end in an effect, e.g. dedicated=imagebuild:NoSchedule'')
      | Some (lhs, effect) \<Rightarrow>
          if effect \<notin> set VALID_EFFECTS
          then Inl (''toleration '' @ debug_str entry @ '' has unknown effect '' @ debug_str effect @ ''; expected one of ''
            @ join_with '', '' VALID_EFFECTS)
          else (case parse_tolerations entries of
            Inl e \<Rightarrow> Inl e
          | Inr rest \<Rightarrow> Inr ((case split_once CHR ''='' lhs of
              Some (key, val) \<Rightarrow> \<lparr>tol_key = Some key, tol_operator = Some ''Equal'', tol_value = Some val, tol_effect = Some effect\<rparr>
            | None \<Rightarrow> \<lparr>tol_key = Some lhs, tol_operator = Some ''Exists'', tol_value = None, tol_effect = Some effect\<rparr>) # rest)))"

definition scheduling_from_flags :: "string list \<Rightarrow> string list \<Rightarrow> (string, build_scheduling) result" where
  "scheduling_from_flags selectors tolerations =
     (case parse_node_selector selectors of
        Inl e \<Rightarrow> Inl e
      | Inr sel \<Rightarrow> (case parse_tolerations tolerations of
          Inl e \<Rightarrow> Inl e
        | Inr tols \<Rightarrow> Inr \<lparr>bs_node_selector = sel, bs_tolerations = tols\<rparr>))"

definition is_unconstrained :: "build_scheduling \<Rightarrow> bool" where
  "is_unconstrained s = (bs_node_selector s = [] \<and> bs_tolerations s = [])"

subsection \<open>Trust bundles\<close>

definition DEFAULT_CA_BUNDLE_KEY :: string where "DEFAULT_CA_BUNDLE_KEY = ''ca.crt''"

datatype ca_bundle_plan = NoBundle | InlineBundle string | ConfigMapBundle key_selector | SecretBundle key_selector

definition ca_plan :: "ca_bundle_source option \<Rightarrow> (sdk_error, ca_bundle_plan) result" where
  "ca_plan source =
     (case source of
        None \<Rightarrow> Inr NoBundle
      | Some s \<Rightarrow> (case ca_validate s of
          Inl msg \<Rightarrow> Inl (SdkInvalid msg)
        | Inr _ \<Rightarrow> (case cbs_inline s of
            Some pem \<Rightarrow> Inr (InlineBundle pem)
          | None \<Rightarrow> (case cbs_config_map_ref s of
              Some sel \<Rightarrow> Inr (ConfigMapBundle sel)
            | None \<Rightarrow> (case cbs_secret_ref s of
                Some sel \<Rightarrow> Inr (SecretBundle sel)
              | None \<Rightarrow> Inl (SdkInvalid ''caBundle: no source resolved after validation''))))))"

definition pem_from_secret_value :: "u8 list \<Rightarrow> (sdk_error, u8 list) result" where
  "pem_from_secret_value raw =
     (if from_utf8 raw = None then Inl (SdkMissing ''caBundle.secretRef: value not UTF-8 PEM'') else Inr raw)"

definition ca_missing_if_404 :: "string \<Rightarrow> kube_error \<Rightarrow> sdk_error" where
  "ca_missing_if_404 what e = (if is_404 e then SdkMissing what else SdkKube e)"

definition read_config_map_key :: "'w client \<Rightarrow> string \<Rightarrow> key_selector \<Rightarrow> ('w, sdk_error, u8 list) io" where
  "read_config_map_key client ns sel =
     io_bind (io_err (ca_missing_if_404 ''Provider.spec.connection.caBundle.configMapRef'')
       (kget ((cl_config_maps client ns)\<lparr>api_kind := KConfigMap\<rparr>) (ks_name sel)))
     (\<lambda>cm. case map_of (case cm_data cm of Some d \<Rightarrow> d | None \<Rightarrow> []) (key_or sel DEFAULT_CA_BUNDLE_KEY) of
        Some v \<Rightarrow> io_return (as_bytes v)
      | None \<Rightarrow> io_throw (SdkMissing ''caBundle.configMapRef: key not found''))"

definition read_secret_key :: "'w client \<Rightarrow> string \<Rightarrow> key_selector \<Rightarrow> ('w, sdk_error, u8 list) io" where
  "read_secret_key client ns sel =
     io_bind (io_err (ca_missing_if_404 ''Provider.spec.connection.caBundle.secretRef'')
       (kget ((cl_secrets client ns)\<lparr>api_kind := KSecret\<rparr>) (ks_name sel)))
     (\<lambda>secret. case map_of (case sec_data secret of Some d \<Rightarrow> d | None \<Rightarrow> []) (key_or sel DEFAULT_CA_BUNDLE_KEY) of
        None \<Rightarrow> io_throw (SdkMissing ''caBundle.secretRef: key not found'')
      | Some raw \<Rightarrow> (case pem_from_secret_value raw of Inl e \<Rightarrow> io_throw e | Inr v \<Rightarrow> io_return v))"

definition resolve_ca_bundle :: "'w client \<Rightarrow> string \<Rightarrow> ca_bundle_source option \<Rightarrow> ('w, sdk_error, u8 list option) io" where
  "resolve_ca_bundle client ns source =
     (case ca_plan source of
        Inl e \<Rightarrow> io_throw e
      | Inr NoBundle \<Rightarrow> io_return None
      | Inr (InlineBundle pem) \<Rightarrow> io_return (Some (as_bytes pem))
      | Inr (ConfigMapBundle sel) \<Rightarrow> io_bind (read_config_map_key client ns sel) (\<lambda>v. io_return (Some v))
      | Inr (SecretBundle sel) \<Rightarrow> io_bind (read_secret_key client ns sel) (\<lambda>v. io_return (Some v)))"

subsection \<open>Owner of an import Job\<close>

definition OSARTIFACT_API_VERSION :: string where "OSARTIFACT_API_VERSION = ''build.kairos.io/v1alpha2''"
definition OSARTIFACT_KIND :: string where "OSARTIFACT_KIND = ''OSArtifact''"

definition osartifact_owner_references :: "string \<Rightarrow> string option \<Rightarrow> (string \<times> string) list list option" where
  "osartifact_owner_references name uid = map_option (\<lambda>u.
     [[(''apiVersion'', OSARTIFACT_API_VERSION), (''kind'', OSARTIFACT_KIND), (''name'', name), (''uid'', u)]]) uid"

subsection \<open>Sealing reports\<close>

lemma set_push_new [simp]: "set (push_new out ls) = set out \<union> set ls"
  by (induction out ls rule: push_new.induct) auto

lemma distinct_push_new: "distinct out \<Longrightarrow> distinct (push_new out ls)"
  by (induction out ls rule: push_new.induct) auto

lemma push_new_prefix: "\<exists>ls'. push_new out ls = out @ ls' \<and> set ls' \<subseteq> set ls"
proof (induction out ls rule: push_new.induct)
  case (2 out l ls)
  then show ?case
    by (cases "l \<in> set out") auto
qed simp

lemma missing_partitions_Nil: "missing_partitions r sealed = [] \<longleftrightarrow> set (fbs_partitions r) \<subseteq> set sealed"
  by (auto simp: missing_partitions_def filter_empty_conv)

text \<open>
  Sealing is never unlearned and never invented: the gate is satisfied exactly when every listed partition
  has been recorded as sealed; whatever a guest reports later, recorded partitions stay recorded, in order,
  so a satisfied gate stays satisfied; and a report adds nothing but plain labels that occur in it.
\<close>

theorem sealing_is_sticky:
  "(sealing_gate_of j r sealed cs now = GateSatisfied \<longleftrightarrow> set (fbs_partitions r) \<subseteq> set sealed)
    \<and> (\<exists>added. sticky_sealed_partitions sealed (parse_sealed_report raw) = sealed @ added
        \<and> list_all is_plain_label added \<and> set added \<subseteq> trim ` set (split_char CHR '','' raw))
    \<and> (distinct sealed = distinct (sticky_sealed_partitions sealed (parse_sealed_report raw)))"
proof (intro conjI)
  show "sealing_gate_of j r sealed cs now = GateSatisfied \<longleftrightarrow> set (fbs_partitions r) \<subseteq> set sealed"
    by (simp add: sealing_gate_of_def Let_def missing_partitions_Nil split: option.split)
  obtain added where added: "sticky_sealed_partitions sealed (parse_sealed_report raw) = sealed @ added"
    "set added \<subseteq> set (parse_sealed_report raw)"
    using push_new_prefix [of sealed] by (auto simp: sticky_sealed_partitions_def)
  then show "\<exists>added. sticky_sealed_partitions sealed (parse_sealed_report raw) = sealed @ added
        \<and> list_all is_plain_label added \<and> set added \<subseteq> trim ` set (split_char CHR '','' raw)"
    by (fastforce simp: list_all_iff parse_sealed_report_def)
  show "distinct sealed = distinct (sticky_sealed_partitions sealed (parse_sealed_report raw))"
    by (metis added(1) distinct_append distinct_push_new sticky_sealed_partitions_def)
qed

subsection \<open>Flags\<close>

lemma parse_node_selector_sound:
  assumes "parse_node_selector_from out entries = Inr m"
  shows "fst ` set out \<subseteq> fst ` set m
    \<and> list_all (\<lambda>e. \<exists>k v. e = k @ ''='' @ v \<and> k \<noteq> [] \<and> CHR ''='' \<notin> set (k @ v) \<and> k \<in> fst ` set m) entries
    \<and> fst ` set m \<subseteq> fst ` set out \<union> (\<lambda>e. fst (the (split_once CHR ''='' e))) ` set entries"
  using assms
proof (induction out entries rule: parse_node_selector_from.induct)
  case (2 out e es)
  from "2.prems" obtain k v where kv: "split_once CHR ''='' e = Some (k, v)" "k \<noteq> []" "CHR ''='' \<notin> set v"
      and rest: "parse_node_selector_from (bt_insert k v out) es = Inr m"
    by (auto split: option.splits if_splits)
  have "\<not> (k = [] \<or> CHR ''='' \<in> set v)"
    using kv by simp
  note IH = "2.IH" [OF kv(1) refl this rest, unfolded set_fst_bt_insert]
  have key: "fst (the (split_once CHR ''='' e)) = k"
    by (simp add: kv(1))
  have "\<exists>k v. e = k @ ''='' @ v \<and> k \<noteq> [] \<and> CHR ''='' \<notin> set (k @ v) \<and> k \<in> fst ` set m"
    using IH kv(2,3) split_once_Some [OF kv(1)] by auto
  then show ?case
    using IH by (simp only: list.pred_inject list.set image_insert key) blast
qed simp

text \<open>
  A node selector flag is never lost: if the flags are accepted, every one of them is \<^verbatim>\<open>key=value\<close> with one
  equals sign and its key is in the selector, the selector has no other key, and so it is empty only when no
  flag was given.
\<close>

theorem selector_flags_constrain:
  assumes "parse_node_selector entries = Inr m"
  shows "list_all (\<lambda>e. \<exists>k v. e = k @ ''='' @ v \<and> k \<noteq> [] \<and> CHR ''='' \<notin> set (k @ v) \<and> k \<in> fst ` set m) entries
    \<and> fst ` set m \<subseteq> (\<lambda>e. fst (the (split_once CHR ''='' e))) ` set entries \<and> (m = [] \<longleftrightarrow> entries = [])"
proof -
  have *: "fst ` set [] \<subseteq> fst ` set m
    \<and> list_all (\<lambda>e. \<exists>k v. e = k @ ''='' @ v \<and> k \<noteq> [] \<and> CHR ''='' \<notin> set (k @ v) \<and> k \<in> fst ` set m) entries
    \<and> fst ` set m \<subseteq> fst ` set [] \<union> (\<lambda>e. fst (the (split_once CHR ''='' e))) ` set entries"
    using parse_node_selector_sound [OF assms [unfolded parse_node_selector_def]] by simp
  then have "m = [] \<longleftrightarrow> entries = []"
    by (cases entries) auto
  with * show ?thesis
    by simp
qed

theorem selector_flags_constrain_witness:
  "parse_node_selector [''a=b'', ''pool=''] = Inr [(''a'', ''b''), (''pool'', [])] \<and> [(''a'', ''b''), (''pool'', '''')] \<noteq> []"
proof -
  have m: "parse_node_selector [''a=b'', ''pool=''] = Inr [(''a'', ''b''), (''pool'', [])]"
    by code_simp
  from selector_flags_constrain [OF m] m show ?thesis
    by blast
qed

end
