(* ===== verification/Proxmox_Machine.thy ===== *)
theory Proxmox_Machine
  imports Protocol Proxmox_Wire Cloud_Init Sdk_Inputs Infra_Build
begin

section \<open>The Proxmox machine reconciler\<close>

text \<open>
  Model of \<^verbatim>\<open>crates/banlieue-provider-proxmox/src\<close>: \<^verbatim>\<open>config.rs\<close> (the configuration of a machine and the ownership
  marker), \<^verbatim>\<open>network.rs\<close>, \<^verbatim>\<open>credentials.rs\<close> and \<^verbatim>\<open>reconciler/proxmoxmachine.rs\<close>.  One trace holds the requests to the
  API server and to Proxmox with their answers; both servers answer arbitrarily.  Log calls are left out.
\<close>

subsection \<open>Errors\<close>

datatype prov_error =
    PSdk sdk_error
  | PKube kube_error
  | PSerde string
  | PProxmox pve_error
  | PMissing string
  | PInvalid string string

fun prov_error_text :: "prov_error \<Rightarrow> string" where
  "prov_error_text (PSdk e) = ''sdk: '' @ sdk_error_text e"
| "prov_error_text (PKube e) = ''kube api: '' @ kube_error_text e"
| "prov_error_text (PSerde e) = ''serde: '' @ e"
| "prov_error_text (PProxmox e) = ''proxmox: '' @ pve_error_text e"
| "prov_error_text (PMissing f) = ''missing required field: '' @ f"
| "prov_error_text (PInvalid what detail) = ''invalid '' @ what @ '': '' @ detail"

subsection \<open>Configuration\<close>

definition OS_DISK_KEY :: string where "OS_DISK_KEY = ''scsi0''"
definition SEED_DRIVE_KEY :: string where "SEED_DRIVE_KEY = ''ide2''"
definition FIRST_DATA_DISK_INDEX :: nat where "FIRST_DATA_DISK_INDEX = 1"
definition EFI_DISK_KEY :: string where "EFI_DISK_KEY = ''efidisk0''"
definition TPM_STATE_KEY :: string where "TPM_STATE_KEY = ''tpmstate0''"
definition SCSI_HW_IOTHREAD :: string where "SCSI_HW_IOTHREAD = ''virtio-scsi-single''"
definition OWNERSHIP_PREFIX :: string where "OWNERSHIP_PREFIX = ''banlieue-machine-uid=''"
definition DESCRIPTION_KEY :: string where "DESCRIPTION_KEY = ''description''"

definition ownership_marker :: "string \<Rightarrow> string" where
  "ownership_marker uid = OWNERSHIP_PREFIX @ uid"

text \<open>\<^verbatim>\<open>str::lines\<close>: every terminated line without its line ending, then an unterminated rest.\<close>

definition str_lines :: "string \<Rightarrow> string list" where
  "str_lines s =
     (let ps = split_char (CHR 0x0A) s
      in map (\<lambda>l. case strip_suffix [CHR 0x0D] l of Some t \<Rightarrow> t | None \<Rightarrow> l) (butlast ps)
         @ (if last ps = [] then [] else [last ps]))"

definition is_ours :: "vm_config \<Rightarrow> string \<Rightarrow> bool" where
  "is_ours config uid = (case map_of config DESCRIPTION_KEY of
     Some d \<Rightarrow> list_ex (\<lambda>l. trim l = ownership_marker uid) (str_lines d)
   | None \<Rightarrow> False)"

definition seed_filename :: "string \<Rightarrow> string" where
  "seed_filename uid = ''banlieue-'' @ uid @ ''.iso''"

definition seed_volid :: "string \<Rightarrow> string \<Rightarrow> string" where
  "seed_volid iso_storage uid = iso_storage @ '':iso/'' @ seed_filename uid"

definition data_disk_value :: "proxmox_machine_spec \<Rightarrow> proxmox_data_disk \<Rightarrow> string" where
  "data_disk_value spec disk =
     (case pdd_storage disk of Some s \<Rightarrow> s | None \<Rightarrow> pms_storage spec) @ '':'' @ show_nat (pdd_size_gib disk)
     @ (if pdd_iothread disk then '',iothread=1'' else [])
     @ (if pdd_discard disk then '',discard=on'' else [])
     @ (if pdd_ssd disk then '',ssd=1'' else [])"

definition enum :: "'a list \<Rightarrow> (nat \<times> 'a) list" where
  "enum xs = zip [0..<length xs] xs"

definition base_config :: "proxmox_machine_spec \<Rightarrow> params" where
  "base_config spec =
     params_flag ''agent'' True (params_set ''bios'' (proxmox_bios spec)
     (params_set_opt ''cpu'' (pms_cpu_type spec) (params_set ''memory'' (show_nat (pms_memory_mib spec))
     (params_set ''sockets'' (show_nat (pms_sockets spec)) (params_set ''cores'' (show_nat (pms_cores spec)) [])))))"

definition desired_config :: "proxmox_machine_spec \<Rightarrow> proxmox_nic_spec list \<Rightarrow> vm_config \<Rightarrow> string option \<Rightarrow> params" where
  "desired_config spec nics existing volid =
     (let p = base_config spec;
          p = (if pms_firmware spec \<noteq> Bios \<and> map_of existing EFI_DISK_KEY = None
               then params_set EFI_DISK_KEY (pms_storage spec @ '':1,efitype=4m,pre-enrolled-keys='' @ (if proxmox_secure_boot spec then ''1'' else ''0'')) p
               else p);
          p = (if pms_tpm_enabled spec \<and> map_of existing TPM_STATE_KEY = None
               then params_set TPM_STATE_KEY (pms_storage spec @ '':1,version=v2.0'') p else p);
          p = fold (\<lambda>(i, nic). params_set (''net'' @ show_nat i) (proxmox_nic_config_value nic)) (enum nics) p;
          p = fold (\<lambda>(i, disk) p. let key = ''scsi'' @ show_nat (FIRST_DATA_DISK_INDEX + i)
                in if map_of existing key \<noteq> None then p else params_set key (data_disk_value spec disk) p)
              (enum (pms_data_disks spec)) p;
          p = (if list_ex pdd_iothread (pms_data_disks spec) then params_set ''scsihw'' SCSI_HW_IOTHREAD p else p)
      in case volid of Some v \<Rightarrow> params_set SEED_DRIVE_KEY (v @ '',media=cdrom'') p | None \<Rightarrow> p)"

definition div_ceil :: "nat \<Rightarrow> nat \<Rightarrow> nat" where
  "div_ceil a b = (a + b - 1) div b"

fun find_map :: "('a \<Rightarrow> 'b option) \<Rightarrow> 'a list \<Rightarrow> 'b option" where
  "find_map f [] = None"
| "find_map f (x # xs) = (case f x of Some y \<Rightarrow> Some y | None \<Rightarrow> find_map f xs)"

text \<open>A release build wraps the last product.\<close>

definition os_disk_size_gib :: "vm_config \<Rightarrow> nat option" where
  "os_disk_size_gib config =
     Option.bind (map_of config OS_DISK_KEY) (\<lambda>value.
     Option.bind (find_map (strip_prefix ''size='') (split_char (CHR '','') value)) (\<lambda>sz.
     let digits = takeWhile is_ascii_digit sz; unit = dropWhile is_ascii_digit sz
     in case parse_uint u64_max digits of
          Inl _ \<Rightarrow> None
        | Inr n \<Rightarrow>
            if unit = [] then Some (div_ceil n 1073741824)
            else if unit = ''K'' then Some (div_ceil n 1048576)
            else if unit = ''M'' then Some (div_ceil n 1024)
            else if unit = ''G'' then Some n
            else if unit = ''T'' then Some (n * 1024 mod 18446744073709551616)
            else None))"

subsection \<open>Guest network\<close>

definition PVE_MAC_PREFIX :: string where "PVE_MAC_PREFIX = ''bc:24:11''"

definition pve_derive_mac :: "(u8 list \<Rightarrow> u8 list) \<Rightarrow> string \<Rightarrow> string \<Rightarrow> string" where
  "pve_derive_mac sha256 uid nic_name = derive_mac sha256 PVE_MAC_PREFIX uid nic_name"

definition effective_nics :: "(u8 list \<Rightarrow> u8 list) \<Rightarrow> proxmox_nic_spec list \<Rightarrow> string \<Rightarrow> proxmox_nic_spec list" where
  "effective_nics sha256 nics uid =
     (let any_static = list_ex (\<lambda>n. is_static (pni_ipam n) \<noteq> None) nics
      in map (\<lambda>n. if any_static \<and> pni_mac_address n = None
              then n\<lparr>pni_mac_address := Some (pve_derive_mac sha256 uid (pni_name n))\<rparr> else n) nics)"

definition pve_network_config :: "proxmox_nic_spec list \<Rightarrow> string option" where
  "pve_network_config nics =
     network_config (map (\<lambda>n. \<lparr>sn_name = pni_name n, sn_mac = pni_mac_address n, sn_ipam = pni_ipam n\<rparr>) nics)"

subsection \<open>Requests and the context\<close>

datatype pve_request =
    ReqClusterVms
  | ReqNextId
  | ReqStorageContent string string
  | ReqClone string nat clone_params
  | ReqVmConfig string nat
  | ReqSetConfig string nat params
  | ReqResize string nat string string
  | ReqStart string nat
  | ReqStop string nat
  | ReqVmStatus string nat
  | ReqDeleteVm string nat
  | ReqUploadIso string string string "u8 list"
  | ReqDeleteVolume string string string
  | ReqAgent string nat
  | ReqWait upid nat
  | ReqVersion
  | ReqNodes
  | ReqNodeStorage string
  | ReqNodeNetworks string

datatype pve_reply =
    Failed pve_error
  | Answered
  | AnsweredConfig vm_config
  | AnsweredVms "cluster_vm list"
  | AnsweredVolumes "volume list"
  | AnsweredTask upid
  | AnsweredStatus pve_vm_status
  | AnsweredId nat
  | AnsweredVersion pve_version
  | AnsweredNodes "pve_node list"
  | AnsweredStorages "pve_storage list"
  | AnsweredNetworks "network_iface list"

datatype pve_event =
    KubeEv event
  | StatusPatch string proxmox_machine_status "kube_error option"
  | ProviderIdPatch string string "kube_error option"
  | Pve pve_request pve_reply
  | ProviderStatusPatch string provider_status "kube_error option"
  | ImageStatusPatch string string vm_image_status "kube_error option"

type_synonym ('w, 'a) px = "(pve_event, 'w, prov_error, 'a) traced"

definition pve_call :: "pve_request \<Rightarrow> ('a \<Rightarrow> pve_reply) \<Rightarrow> ('w, 'a) pve_op \<Rightarrow> (pve_event, 'w, pve_error, 'a) traced" where
  "pve_call req ans f = io_call (\<lambda>r. Pve req (case r of Inl e \<Rightarrow> Failed e | Inr x \<Rightarrow> ans x)) f"

definition must :: "(pve_event, 'w, pve_error, 'a) traced \<Rightarrow> ('w, 'a) px" where
  "must m = io_err PProxmox m"

record pve_credentials =
  pcr_token :: api_token
  pcr_ca_pem :: "string option"

text \<open>The context; \<open>pxc_build\<close> is the client factory, the patches are the requests that apply a status or
  the provider identifier, and \<open>pxc_all_providers\<close> is the handle on the Providers of every namespace.\<close>

record 'w pve_ctx =
  pxc_client :: "'w client"
  pxc_namespace :: "string option"
  pxc_build :: "provider_connection \<Rightarrow> pve_credentials \<Rightarrow> 'w \<Rightarrow> (prov_error, 'w pve) result \<times> 'w"
  pxc_provider_name :: "string option"
  pxc_clock :: "'w \<Rightarrow> timestamp \<times> 'w"
  pxc_sha256 :: "u8 list \<Rightarrow> u8 list"
  pxc_patch_status :: "string \<Rightarrow> string \<Rightarrow> proxmox_machine_status \<Rightarrow> 'w \<Rightarrow> (kube_error, unit) result \<times> 'w"
  pxc_patch_provider_id :: "string \<Rightarrow> string \<Rightarrow> string \<Rightarrow> 'w \<Rightarrow> (kube_error, unit) result \<times> 'w"
  pxc_patch_provider_status :: "string \<Rightarrow> string \<Rightarrow> provider_status \<Rightarrow> 'w \<Rightarrow> (kube_error, unit) result \<times> 'w"
  pxc_patch_image_status :: "string \<Rightarrow> string \<Rightarrow> vm_image_status \<Rightarrow> 'w \<Rightarrow> (kube_error, unit) result \<times> 'w"
  pxc_all_providers :: "('w, provider, unit) api"

definition kube :: "('e \<Rightarrow> prov_error) \<Rightarrow> ('w, 'e, 'a) io \<Rightarrow> ('w, 'a) px" where
  "kube g m = io_err g (io_lift KubeEv m)"

definition secret_text :: "(string \<times> u8 list) list \<Rightarrow> string \<Rightarrow> string \<Rightarrow> (prov_error, string) result" where
  "secret_text data key what = (case map_of data key of
     None \<Rightarrow> Inl (PMissing what)
   | Some raw \<Rightarrow> (case from_utf8 raw of None \<Rightarrow> Inl (PInvalid what ''not valid UTF-8'') | Some s \<Rightarrow> Inr s))"

definition credentials_from_secret :: "(string \<times> u8 list) list \<Rightarrow> u8 list option \<Rightarrow> (prov_error, pve_credentials) result" where
  "credentials_from_secret data ca_pem =
     (case secret_text data ''username'' ''secret.data.username'' of
        Inl e \<Rightarrow> Inl e
      | Inr username \<Rightarrow> (case secret_text data ''tokenValue'' ''secret.data.tokenValue'' of
          Inl e \<Rightarrow> Inl e
        | Inr token_value \<Rightarrow> (case api_token_new username token_value of
            Inl e \<Rightarrow> Inl (PProxmox e)
          | Inr token \<Rightarrow> (case ca_pem of
              None \<Rightarrow> Inr \<lparr>pcr_token = token, pcr_ca_pem = None\<rparr>
            | Some b \<Rightarrow> (case from_utf8 b of
                None \<Rightarrow> Inl (PInvalid ''connection.caBundle'' ''not valid UTF-8 PEM'')
              | Some pem \<Rightarrow> Inr \<lparr>pcr_token = token, pcr_ca_pem = Some pem\<rparr>)))))"

definition credentials_resolve :: "'w client \<Rightarrow> string \<Rightarrow> provider \<Rightarrow> ('w, pve_credentials) px" where
  "credentials_resolve client namespace provider =
     (case credentials_secret (prs_connection (p_spec provider)) of
        None \<Rightarrow> io_throw (PMissing ''Provider.spec.connection.credentialsRef'')
      | Some secret_name \<Rightarrow>
          io_bind (kube (\<lambda>e. if is_404 e then PMissing ''Provider.spec.connection.credentialsRef'' else PKube e)
              (kget ((cl_secrets client namespace)\<lparr>api_kind := KSecret\<rparr>) secret_name)) (\<lambda>secret.
          io_bind (kube PSdk (resolve_ca_bundle client namespace (pc_ca_bundle (prs_connection (p_spec provider))))) (\<lambda>ca.
          of_result (credentials_from_secret (case sec_data secret of Some d \<Rightarrow> d | None \<Rightarrow> []) ca))))"

subsection \<open>Finding a machine's VM\<close>

definition MACHINE_FINALIZER :: string where "MACHINE_FINALIZER = ''banlieue.io/proxmoxmachine''"
definition CLONE_TASK_TIMEOUT :: nat where "CLONE_TASK_TIMEOUT = 1800 * 1000000000"
definition TASK_TIMEOUT :: nat where "TASK_TIMEOUT = 300 * 1000000000"
definition KIND_QEMU :: string where "KIND_QEMU = ''qemu''"

record machine_ref =
  mr_name :: string
  mr_uid :: string

datatype allocation = Existing nat string | Fresh nat

record observed =
  ob_vmid :: nat
  ob_node :: string
  ob_power :: power_state
  ob_configured :: bool
  ob_addresses :: "machine_address list"
  ob_address_source :: "proxmox_address_source option"

definition ignore_not_found :: "(pve_event, 'w, pve_error, 'a) traced \<Rightarrow> ('w, 'a option) px" where
  "ignore_not_found m = io_bind (io_attempt m) (\<lambda>r. case r of
     Inr v \<Rightarrow> io_return (Some v)
   | Inl e \<Rightarrow> if pve_is_not_found e then io_return None else io_throw (PProxmox e))"

fun first_ours :: "'w pve \<Rightarrow> string \<Rightarrow> cluster_vm list \<Rightarrow> ('w, cluster_vm option) px" where
  "first_ours api uid [] = io_return None"
| "first_ours api uid (vm # vms) =
     io_bind (ignore_not_found (pve_call (ReqVmConfig (cv_node vm) (cv_vmid vm)) AnsweredConfig (px_vm_config api (cv_node vm) (cv_vmid vm))))
     (\<lambda>c. case c of
        None \<Rightarrow> first_ours api uid vms
      | Some config \<Rightarrow> if is_ours config uid then io_return (Some vm) else first_ours api uid vms)"

definition candidates :: "cluster_vm list \<Rightarrow> machine_ref \<Rightarrow> nat option \<Rightarrow> cluster_vm list" where
  "candidates vms m recorded =
     filter (\<lambda>v. \<not> cv_template v)
       ((case recorded of None \<Rightarrow> [] | Some i \<Rightarrow> (case find (\<lambda>v. cv_vmid v = i) vms of Some v \<Rightarrow> [v] | None \<Rightarrow> []))
        @ filter (\<lambda>v. cv_name v = Some (mr_name m) \<and> recorded \<noteq> Some (cv_vmid v)) vms)"

definition find_ours :: "'w pve \<Rightarrow> cluster_vm list \<Rightarrow> machine_ref \<Rightarrow> nat option \<Rightarrow> ('w, cluster_vm option) px" where
  "find_ours api vms m recorded = first_ours api (mr_uid m) (candidates vms m recorded)"

definition cluster_vms :: "'w pve \<Rightarrow> ('w, cluster_vm list) px" where
  "cluster_vms api = must (pve_call ReqClusterVms AnsweredVms (px_cluster_vms api))"

definition allocate_vmid :: "'w pve \<Rightarrow> machine_ref \<Rightarrow> nat option \<Rightarrow> ('w, allocation) px" where
  "allocate_vmid api m recorded =
     io_bind (cluster_vms api) (\<lambda>vms.
     io_bind (find_ours api vms m recorded) (\<lambda>ours. case ours of
       Some vm \<Rightarrow> io_return (Existing (cv_vmid vm) (cv_node vm))
     | None \<Rightarrow>
         (case (case recorded of Some i \<Rightarrow> if list_ex (\<lambda>v. cv_vmid v = i) vms then None else Some i | None \<Rightarrow> None) of
            Some i \<Rightarrow> io_return (Fresh i)
          | None \<Rightarrow> io_bind (must (pve_call ReqNextId AnsweredId (px_next_id api))) (\<lambda>n. io_return (Fresh n)))))"

definition needs_configure :: "proxmox_machine_status option \<Rightarrow> int \<Rightarrow> bool" where
  "needs_configure prior generation = (Option.bind prior pmst_observed_generation \<noteq> Some generation)"

definition wait :: "'w pve \<Rightarrow> upid \<Rightarrow> nat \<Rightarrow> ('w, unit) px" where
  "wait api u timeout = must (pve_call (ReqWait u timeout) (\<lambda>_. Answered) (px_wait_task api u timeout))"

subsection \<open>Convergence\<close>

definition clone_request :: "machine_ref \<Rightarrow> proxmox_machine_spec \<Rightarrow> string \<Rightarrow> nat \<Rightarrow> clone_params" where
  "clone_request m spec template_node vmid =
     (clone_params_new vmid)\<lparr>cp_name := Some (mr_name m), cp_description := Some (ownership_marker (mr_uid m)),
        cp_storage := Some (pms_storage spec), cp_full := True,
        cp_target := (if pms_node spec \<noteq> template_node then Some (pms_node spec) else None), cp_pool := pms_pool spec\<rparr>"

definition clone_from_template :: "'w pve \<Rightarrow> machine_ref \<Rightarrow> proxmox_machine_spec \<Rightarrow> nat \<Rightarrow> ('w, unit) px" where
  "clone_from_template api m spec vmid =
     io_bind (cluster_vms api) (\<lambda>vms.
     case find (\<lambda>v. cv_vmid v = pms_template_vmid spec \<and> (cv_kind v = [] \<or> cv_kind v = KIND_QEMU)) vms of
       None \<Rightarrow> io_throw (PInvalid ''spec.templateVmid'' (''template VMID '' @ show_nat (pms_template_vmid spec) @ '' does not exist''))
     | Some template \<Rightarrow>
         if \<not> cv_template template
         then io_throw (PInvalid ''spec.templateVmid''
           (''VMID '' @ show_nat (pms_template_vmid spec) @ '' is not a template; refusing to clone a live guest''))
         else (let ps = clone_request m spec (cv_node template) vmid
           in io_bind (must (pve_call (ReqClone (cv_node template) (pms_template_vmid spec) ps) AnsweredTask
                (px_clone_vm api (cv_node template) (pms_template_vmid spec) ps))) (\<lambda>u.
              wait api u CLONE_TASK_TIMEOUT)))"

definition seed_needed :: "proxmox_machine_spec \<Rightarrow> proxmox_nic_spec list \<Rightarrow> bool" where
  "seed_needed spec nics = (proxmox_needs_seed spec \<or> pve_network_config nics \<noteq> None)"

fun iso_error_text :: "iso_error \<Rightarrow> string" where
  "iso_error_text (NestedPath n) = ''file name '' @ debug_str n @ '' contains a path separator; this writer is flat (ADR-0054)''"
| "iso_error_text EmptyName = ''file name is empty''"
| "iso_error_text (NameTooLong n k) = ''file name '' @ debug_str n @ '' is '' @ show_nat k @ '' characters, over the 30 limit''"
| "iso_error_text (LabelTooLong n k) = ''volume label '' @ debug_str n @ '' is '' @ show_nat k @ '' bytes, over the 32 limit''"

definition upload_seed :: "'w pve \<Rightarrow> string \<Rightarrow> machine_ref \<Rightarrow> proxmox_machine_spec \<Rightarrow> proxmox_nic_spec list \<Rightarrow> ('w, string) px" where
  "upload_seed api node m spec nics =
     (case pms_iso_storage spec of
        None \<Rightarrow> io_throw (PInvalid ''ProxmoxMachine.spec.isoStorage'' ''unset'')
      | Some storage \<Rightarrow>
          (let doc = pve_network_config nics;
               files = seed_files (mr_name m) (mr_uid m) (pms_user_data spec) doc
           in case build_iso9660 CIDATA_LABEL files of
                Inl e \<Rightarrow> io_throw (PInvalid ''seed ISO'' (iso_error_text e))
              | Inr img \<Rightarrow>
                  io_bind (must (pve_call (ReqUploadIso node storage (seed_filename (mr_uid m)) img) AnsweredTask
                    (px_upload_iso api node storage (seed_filename (mr_uid m)) img))) (\<lambda>u.
                  io_bind (wait api u TASK_TIMEOUT) (\<lambda>_.
                  io_return (seed_volid storage (mr_uid m))))))"

definition grow_os_disk :: "'w pve \<Rightarrow> string \<Rightarrow> nat \<Rightarrow> nat \<Rightarrow> ('w, unit) px" where
  "grow_os_disk api node vmid desired_gib =
     io_bind (must (pve_call (ReqVmConfig node vmid) AnsweredConfig (px_vm_config api node vmid))) (\<lambda>config.
     case os_disk_size_gib config of
       None \<Rightarrow> io_throw (PInvalid ''OS disk''
         (''the cloned VM has no sized '' @ OS_DISK_KEY @ ''; is the template's boot disk '' @ OS_DISK_KEY @ ''?''))
     | Some current \<Rightarrow>
         if current \<ge> desired_gib then io_return ()
         else io_bind (must (pve_call (ReqResize node vmid OS_DISK_KEY (show_nat desired_gib @ ''G''))
                (\<lambda>t. case t of Some u \<Rightarrow> AnsweredTask u | None \<Rightarrow> Answered)
                (px_resize_disk api node vmid OS_DISK_KEY (show_nat desired_gib @ ''G'')))) (\<lambda>task.
              case task of Some u \<Rightarrow> wait api u TASK_TIMEOUT | None \<Rightarrow> io_return ()))"

definition configure ::
  "'w pve \<Rightarrow> string \<Rightarrow> nat \<Rightarrow> machine_ref \<Rightarrow> proxmox_machine_spec \<Rightarrow> proxmox_nic_spec list \<Rightarrow> bool \<Rightarrow> ('w, unit) px" where
  "configure api node vmid m spec nics seed =
     io_bind (must (pve_call (ReqVmConfig node vmid) AnsweredConfig (px_vm_config api node vmid))) (\<lambda>existing.
     io_bind (if seed then io_bind (upload_seed api node m spec nics) (\<lambda>v. io_return (Some v)) else io_return None) (\<lambda>volid.
     let ps = desired_config spec nics existing volid
     in io_bind (must (pve_call (ReqSetConfig node vmid ps) (\<lambda>_. Answered) (px_set_vm_config api node vmid ps))) (\<lambda>_.
        grow_os_disk api node vmid (pms_os_disk_size_gib spec))))"

definition ensure_power :: "'w pve \<Rightarrow> string \<Rightarrow> nat \<Rightarrow> power_state \<Rightarrow> ('w, power_state) px" where
  "ensure_power api node vmid desired =
     io_bind (must (pve_call (ReqVmStatus node vmid) AnsweredStatus (px_vm_status api node vmid))) (\<lambda>st.
     let running = vm_is_running st
     in if desired = PoweredOn \<and> \<not> running
        then io_bind (must (pve_call (ReqStart node vmid) AnsweredTask (px_start_vm api node vmid))) (\<lambda>u.
             io_bind (wait api u TASK_TIMEOUT) (\<lambda>_. io_return PoweredOn))
        else if desired = PoweredOff \<and> running
        then io_bind (must (pve_call (ReqStop node vmid) AnsweredTask (px_stop_vm api node vmid))) (\<lambda>u.
             io_bind (wait api u TASK_TIMEOUT) (\<lambda>_. io_return PoweredOff))
        else io_return (if running then PoweredOn else PoweredOff))"

definition routable :: "string \<Rightarrow> bool" where
  "routable addr = (case parse_ip addr of
     None \<Rightarrow> False
   | Some (V4 v4) \<Rightarrow> \<not> (drop_bit 24 v4 = 127 \<or> drop_bit 16 v4 = 0xA9FE \<or> v4 = 0)
   | Some (V6 segs) \<Rightarrow>
       \<not> (segs = [0, 0, 0, 0, 0, 0, 0, 1] \<or> segs = [0, 0, 0, 0, 0, 0, 0, 0]
          \<or> and (word_of_nat (segs ! 0) :: 16 word) 0xFFC0 = 0xFE80))"

definition internal_ip :: "string \<Rightarrow> machine_address" where
  "internal_ip address = \<lparr>ma_type = InternalIP, ma_address = address\<rparr>"

definition observe_addresses ::
  "'w pve \<Rightarrow> string \<Rightarrow> nat \<Rightarrow> proxmox_machine_spec \<Rightarrow> power_state \<Rightarrow> ('w, machine_address list \<times> proxmox_address_source option) px" where
  "observe_addresses api node vmid spec pw =
     (let statics = map (\<lambda>s. internal_ip (sic_address s)) (List.map_filter (\<lambda>n. is_static (pni_ipam n)) (pms_nics spec))
      in if statics \<noteq> [] then io_return (statics, Some PveStatic)
         else if pw \<noteq> PoweredOn then io_return ([], None)
         else io_bind (io_attempt (pve_call (ReqAgent node vmid) (\<lambda>_. Answered) (px_agent_interfaces api node vmid))) (\<lambda>r. case r of
           Inl _ \<Rightarrow> io_return ([], None)
         | Inr interfaces \<Rightarrow>
             (let addresses = map (\<lambda>a. internal_ip (gip_address a))
                (filter (\<lambda>a. routable (gip_address a)) (concat (map gif_ip_addresses interfaces)))
              in io_return (addresses, if addresses \<noteq> [] then Some PveGuestAgent else None))))"

definition converge ::
  "(u8 list \<Rightarrow> u8 list) \<Rightarrow> 'w pve \<Rightarrow> machine_ref \<Rightarrow> proxmox_machine_spec \<Rightarrow> allocation \<Rightarrow> bool \<Rightarrow> ('w, observed) px" where
  "converge sha256 api m spec alloc do_configure =
     (case proxmox_validate spec of
        Inl d \<Rightarrow> io_throw (PInvalid ''ProxmoxMachine.spec'' (proxmox_spec_error_text d))
      | Inr _ \<Rightarrow>
          (let nics = effective_nics sha256 (pms_nics spec) (mr_uid m);
               seed = seed_needed spec nics
           in if seed \<and> pms_iso_storage spec = None
              then io_throw (PInvalid ''ProxmoxMachine.spec.isoStorage'' ''must be set to deliver cloud-init (userData or static addressing)'')
              else io_bind (case alloc of
                  Existing vmid node \<Rightarrow> io_return (vmid, node, False)
                | Fresh vmid \<Rightarrow> io_bind (clone_from_template api m spec vmid) (\<lambda>_. io_return (vmid, pms_node spec, True)))
              (\<lambda>(vmid, node, fresh).
              io_bind (if fresh \<or> do_configure then configure api node vmid m spec nics seed else io_return ()) (\<lambda>_.
              io_bind (ensure_power api node vmid (pms_desired_power_state spec)) (\<lambda>pw.
              io_bind (observe_addresses api node vmid spec pw) (\<lambda>(addresses, source).
              io_return \<lparr>ob_vmid = vmid, ob_node = node, ob_power = pw, ob_configured = True,
                ob_addresses = addresses, ob_address_source = source\<rparr>))))))"

subsection \<open>Deletion\<close>

definition await_removal :: "'w pve \<Rightarrow> upid option \<Rightarrow> ('w, unit) px" where
  "await_removal api t = (case t of Some u \<Rightarrow> wait api u TASK_TIMEOUT | None \<Rightarrow> io_return ())"

definition remove_vm :: "'w pve \<Rightarrow> string \<Rightarrow> nat \<Rightarrow> ('w, unit) px" where
  "remove_vm api node vmid =
     io_bind (ignore_not_found (pve_call (ReqVmStatus node vmid) AnsweredStatus (px_vm_status api node vmid))) (\<lambda>st.
     io_bind (if (case st of Some s \<Rightarrow> vm_is_running s | None \<Rightarrow> False)
       then io_bind (ignore_not_found (pve_call (ReqStop node vmid) AnsweredTask (px_stop_vm api node vmid))) (await_removal api)
       else io_return ()) (\<lambda>_.
     io_bind (ignore_not_found (pve_call (ReqDeleteVm node vmid) AnsweredTask (px_delete_vm api node vmid))) (await_removal api)))"

definition remove_seed :: "'w pve \<Rightarrow> string \<Rightarrow> string \<Rightarrow> string \<Rightarrow> ('w, unit) px" where
  "remove_seed api node storage volid =
     io_bind (ignore_not_found (pve_call (ReqStorageContent node storage) AnsweredVolumes (px_storage_content api node storage))) (\<lambda>vs.
     if list_ex (\<lambda>v. vol_volid v = volid) (case vs of Some l \<Rightarrow> l | None \<Rightarrow> [])
     then io_bind (ignore_not_found (pve_call (ReqDeleteVolume node storage volid) AnsweredTask (px_delete_volume api node storage volid)))
       (await_removal api)
     else io_return ())"

definition finalize_backend :: "'w pve \<Rightarrow> machine_ref \<Rightarrow> proxmox_machine_spec \<Rightarrow> nat option \<Rightarrow> ('w, unit) px" where
  "finalize_backend api m spec recorded =
     io_bind (cluster_vms api) (\<lambda>vms.
     io_bind (find_ours api vms m recorded) (\<lambda>target.
     io_bind (case target of
         None \<Rightarrow> io_return (pms_node spec)
       | Some vm \<Rightarrow> io_bind (remove_vm api (cv_node vm) (cv_vmid vm)) (\<lambda>_. io_return (cv_node vm))) (\<lambda>node.
     case pms_iso_storage spec of
       None \<Rightarrow> io_return ()
     | Some storage \<Rightarrow> remove_seed api node storage (seed_volid storage (mr_uid m)))))"

subsection \<open>Status\<close>

definition empty_pve_status :: proxmox_machine_status where
  "empty_pve_status = \<lparr>pmst_initialization = \<lparr>is_provisioned = None\<rparr>, pmst_failure_domain = None, pmst_addresses = [],
     pmst_address_source = None, pmst_vmid = None, pmst_node = None, pmst_observed_power_state = None, pmst_tpm_attached = None,
     pmst_conditions = [], pmst_observed_generation = None\<rparr>"

definition pve_status_or_default :: "proxmox_machine_status option \<Rightarrow> proxmox_machine_status" where
  "pve_status_or_default prior = (case prior of Some s \<Rightarrow> s | None \<Rightarrow> empty_pve_status)"

definition is_provisioned_at :: "proxmox_machine_spec \<Rightarrow> observed \<Rightarrow> bool" where
  "is_provisioned_at spec ob =
     (ob_configured ob \<and> (case pms_desired_power_state spec of
        PoweredOn \<Rightarrow> ob_power ob = PoweredOn
      | PoweredOff \<Rightarrow> ob_power ob = PoweredOff
      | Suspended \<Rightarrow> False))"

definition build_status ::
  "proxmox_machine_status option \<Rightarrow> proxmox_machine_spec \<Rightarrow> observed \<Rightarrow> int \<Rightarrow> timestamp \<Rightarrow> proxmox_machine_status" where
  "build_status prior spec ob generation now =
     (let status = pve_status_or_default prior;
          provisioned = is_provisioned_at spec ob
      in status\<lparr>pmst_initialization := \<lparr>is_provisioned = Some provisioned\<rparr>, pmst_vmid := Some (ob_vmid ob), pmst_node := Some (ob_node ob),
         pmst_observed_power_state := Some (ob_power ob), pmst_addresses := ob_addresses ob,
         pmst_address_source := ob_address_source ob, pmst_failure_domain := pms_failure_domain spec,
         pmst_tpm_attached := (if pms_tpm_enabled spec then Some True else None),
         pmst_observed_generation := Some generation,
         pmst_conditions := (if provisioned
           then set_condition (pmst_conditions status) ''Ready'' TRUE ''VMReady''
             ''VM exists, is configured and at its desired power state'' generation now
           else set_condition (pmst_conditions status) ''Ready'' FALSE ''AwaitingPowerState''
             ''VM is configured but not yet at its desired power state'' generation now)\<rparr>)"

definition failure_status :: "proxmox_machine_status option \<Rightarrow> string \<Rightarrow> int \<Rightarrow> timestamp \<Rightarrow> proxmox_machine_status" where
  "failure_status prior detail generation now =
     (let status = pve_status_or_default prior
      in status\<lparr>pmst_conditions := set_condition (pmst_conditions status) ''Ready'' FALSE ''ReconcileFailed'' detail generation now\<rparr>)"

definition poll_soon :: "proxmox_machine_spec \<Rightarrow> observed \<Rightarrow> bool" where
  "poll_soon spec ob = (pms_desired_power_state spec = PoweredOn \<and> ob_addresses ob = [])"

subsection \<open>Reconcile\<close>

definition patch_event_error :: "(kube_error, unit) result \<Rightarrow> kube_error option" where
  "patch_event_error r = (case r of Inl e \<Rightarrow> Some e | Inr _ \<Rightarrow> None)"

definition patch_status :: "'w pve_ctx \<Rightarrow> string \<Rightarrow> string \<Rightarrow> proxmox_machine_status \<Rightarrow> ('w, unit) px" where
  "patch_status ctx ns name st =
     io_err PKube (io_call (\<lambda>r. StatusPatch name st (patch_event_error r)) (pxc_patch_status ctx ns name st))"

definition patch_provider_id :: "'w pve_ctx \<Rightarrow> string \<Rightarrow> string \<Rightarrow> string \<Rightarrow> ('w, unit) px" where
  "patch_provider_id ctx ns name pid =
     io_err PKube (io_call (\<lambda>r. ProviderIdPatch name pid (patch_event_error r)) (pxc_patch_provider_id ctx ns name pid))"

definition is_gone :: "prov_error \<Rightarrow> bool" where
  "is_gone e = (case e of PKube k \<Rightarrow> is_404 k | PSdk (SdkKube k) \<Rightarrow> is_404 k | _ \<Rightarrow> False)"

definition compensate_gone :: "'w pve \<Rightarrow> machine_ref \<Rightarrow> proxmox_machine_spec \<Rightarrow> nat option \<Rightarrow> ('w, action) px" where
  "compensate_gone api m spec vmid = io_bind (finalize_backend api m spec vmid) (\<lambda>_. io_return AwaitChange)"

definition gone_or :: "prov_error \<Rightarrow> 'w pve \<Rightarrow> machine_ref \<Rightarrow> proxmox_machine_spec \<Rightarrow> nat option \<Rightarrow> ('w, action) px" where
  "gone_or err api m spec vmid = (if \<not> is_gone err then io_throw err else compensate_gone api m spec vmid)"

definition converge_recorded ::
  "'w pve_ctx \<Rightarrow> 'w pve \<Rightarrow> string \<Rightarrow> string \<Rightarrow> machine_ref \<Rightarrow> proxmox_machine \<Rightarrow> nat option \<Rightarrow> int \<Rightarrow> ('w, observed) px" where
  "converge_recorded ctx api ns name m machine recorded generation =
     io_bind (allocate_vmid api m recorded) (\<lambda>alloc.
     io_bind (case alloc of
         Fresh vmid \<Rightarrow> if recorded \<noteq> Some vmid
           then patch_status ctx ns name ((pve_status_or_default (pm_status machine))\<lparr>pmst_vmid := Some vmid, pmst_node := Some (pms_node (pm_spec machine))\<rparr>)
           else io_return ()
       | Existing _ _ \<Rightarrow> io_return ()) (\<lambda>_.
     converge (pxc_sha256 ctx) api m (pm_spec machine) alloc (needs_configure (pm_status machine) generation)))"

definition report ::
  "'w pve_ctx \<Rightarrow> 'w pve \<Rightarrow> string \<Rightarrow> string \<Rightarrow> machine_ref \<Rightarrow> proxmox_machine \<Rightarrow> nat option \<Rightarrow> int \<Rightarrow> (prov_error, observed) result \<Rightarrow> ('w, action) px" where
  "report ctx api ns name m machine recorded generation outcome =
     (case outcome of
        Inr ob \<Rightarrow>
          (let expected = proxmox_provider_id (lor_name (pms_provider_ref (pm_spec machine))) (ob_vmid ob)
           in io_bind (if pms_provider_id (pm_spec machine) \<noteq> Some expected
                then io_attempt (patch_provider_id ctx ns name expected) else io_return (Inr ())) (\<lambda>r. case r of
                Inl e \<Rightarrow> gone_or e api m (pm_spec machine) (Some (ob_vmid ob))
              | Inr _ \<Rightarrow>
                  io_bind (io_now (pxc_clock ctx)) (\<lambda>now.
                  io_bind (io_attempt (patch_status ctx ns name (build_status (pm_status machine) (pm_spec machine) ob generation now))) (\<lambda>r. case r of
                    Inl e \<Rightarrow> gone_or e api m (pm_spec machine) (Some (ob_vmid ob))
                  | Inr _ \<Rightarrow> io_return (if poll_soon (pm_spec machine) ob then requeue_default else requeue_long)))))
      | Inl e \<Rightarrow>
          io_bind (io_now (pxc_clock ctx)) (\<lambda>now.
          io_bind (io_attempt (patch_status ctx ns name (failure_status (pm_status machine) (prov_error_text e) generation now))) (\<lambda>r. case r of
            Inl e2 \<Rightarrow> gone_or e2 api m (pm_spec machine) recorded
          | Inr _ \<Rightarrow> io_return requeue_on_error)))"

definition machine_api :: "'w pve_ctx \<Rightarrow> string \<Rightarrow> ('w, proxmox_machine, unit) api" where
  "machine_api ctx ns = (cl_proxmox (pxc_client ctx) ns)\<lparr>api_kind := KProxmoxMachine\<rparr>"

definition generation_of :: "proxmox_machine \<Rightarrow> int" where
  "generation_of machine = (case om_generation (pm_meta machine) of Some g \<Rightarrow> g | None \<Rightarrow> 0)"

definition recorded_vmid :: "proxmox_machine \<Rightarrow> nat option" where
  "recorded_vmid machine = Option.bind (pm_status machine) pmst_vmid"

definition reconcile_proxmox :: "'w pve_ctx \<Rightarrow> proxmox_machine \<Rightarrow> ('w, action) px" where
  "reconcile_proxmox ctx machine =
     (case om_namespace (pm_meta machine) of
        None \<Rightarrow> io_throw (PMissing ''ProxmoxMachine.metadata.namespace'')
      | Some ns \<Rightarrow> (case om_uid (pm_meta machine) of
          None \<Rightarrow> io_throw (PMissing ''ProxmoxMachine.metadata.uid'')
        | Some uid \<Rightarrow>
            (let name = name_any (pm_meta machine);
                 generation = generation_of machine;
                 provider_name = lor_name (pms_provider_ref (pm_spec machine));
                 m = \<lparr>mr_name = name, mr_uid = uid\<rparr>;
                 recorded = recorded_vmid machine
             in if \<not> serves (pxc_provider_name ctx) provider_name then io_return AwaitChange
                else
                  io_bind (kube PKube (kget ((cl_providers (pxc_client ctx) ns)\<lparr>api_kind := KProvider\<rparr>) provider_name)) (\<lambda>provider.
                  io_bind (credentials_resolve (pxc_client ctx) ns provider) (\<lambda>creds.
                  io_bind (io_quiet (pxc_build ctx (prs_connection (p_spec provider)) creds)) (\<lambda>api.
                  if om_deletion_timestamp (pm_meta machine) \<noteq> None
                  then io_bind (finalize_backend api m (pm_spec machine) recorded) (\<lambda>_.
                       io_bind (kube PSdk (remove_finalizer (machine_api ctx ns) (pm_meta machine) MACHINE_FINALIZER)) (\<lambda>_.
                       io_return requeue_default))
                  else io_bind (kube PSdk (ensure_finalizer (machine_api ctx ns) (pm_meta machine) MACHINE_FINALIZER)) (\<lambda>_.
                       io_bind (io_attempt (converge_recorded ctx api ns name m machine recorded generation)) (\<lambda>outcome.
                       report ctx api ns name m machine recorded generation outcome))))))))"

definition proxmox_error_policy :: "prov_error \<Rightarrow> action" where
  "proxmox_error_policy e = requeue_on_error"

end
