(* ===== verification/Proxmox_Config.thy ===== *)
theory Proxmox_Config
  imports Proxmox_Machine
begin

text \<open>
  The configuration the Proxmox provider sends for a virtual machine (\<^verbatim>\<open>config.rs\<close>):
  what a lookup of each key in the parameters of \<^const>\<open>desired_config\<close> gives.
\<close>

subsection \<open>Parameters as a dictionary\<close>

text \<open>A parameter list is a dictionary that keeps the order of first insertion.\<close>

lemma map_of_params_set [simp]: "map_of (params_set k v ps) = (map_of ps)(k \<mapsto> v)"
  by (induction k v ps rule: params_set.induct) (auto simp: fun_eq_iff)

lemma keys_params_set: "fst ` set (params_set k v ps) = insert k (fst ` set ps)"
  by (induction k v ps rule: params_set.induct) auto

lemma distinct_params_set [simp]: "distinct (map fst ps) \<Longrightarrow> distinct (map fst (params_set k v ps))"
  by (induction k v ps rule: params_set.induct) (auto simp: keys_params_set)

text \<open>Numbered keys are set in a loop that leaves out the keys \<open>C\<close> holds of.\<close>

definition number_keys :: "(nat \<Rightarrow> string) \<Rightarrow> (string \<Rightarrow> bool) \<Rightarrow> ('a \<Rightarrow> string) \<Rightarrow> (nat \<times> 'a) list \<Rightarrow> params \<Rightarrow> params" where
  "number_keys key C f = fold (\<lambda>(i, x) p. if C (key i) then p else params_set (key i) (f x) p)"

lemma distinct_number_keys [simp]: "distinct (map fst p) \<Longrightarrow> distinct (map fst (number_keys key C f xs p))"
  unfolding number_keys_def by (induction xs arbitrary: p) auto

lemma number_keys_other: "\<forall>i. k \<noteq> key i \<Longrightarrow> map_of (number_keys key C f xs p) k = map_of p k"
  unfolding number_keys_def by (induction xs arbitrary: p) auto

lemma number_keys_left_out: "C k \<Longrightarrow> map_of (number_keys key C f xs p) k = map_of p k"
  unfolding number_keys_def by (induction xs arbitrary: p) auto

lemma number_keys_notin: "inj key \<Longrightarrow> j \<notin> fst ` set xs \<Longrightarrow> map_of (number_keys key C f xs p) (key j) = map_of p (key j)"
  unfolding number_keys_def by (induction xs arbitrary: p) (auto simp: inj_def)

lemma number_keys_sets:
  assumes "inj key" "(j, x) \<in> set xs" "distinct (map fst xs)" "\<not> C (key j)"
  shows "map_of (number_keys key C f xs p) (key j) = Some (f x)"
  using assms
proof (induction xs arbitrary: p)
  case (Cons y ys)
  have step: "number_keys key C f (y # ys) p = number_keys key C f ys (number_keys key C f [y] p)"
    by (simp add: number_keys_def)
  show ?case
  proof (cases "y = (j, x)")
    case True
    then have "j \<notin> fst ` set ys"
      using Cons.prems by auto
    then show ?thesis
      unfolding step number_keys_notin [OF Cons.prems(1) \<open>j \<notin> fst ` set ys\<close>]
      using Cons.prems(4) True by (simp add: number_keys_def)
  next
    case False
    then show ?thesis
      using Cons.prems by (simp add: step Cons.IH)
  qed
qed simp

lemma enum_nth: "i < length xs \<Longrightarrow> (i, xs ! i) \<in> set (enum xs)" "distinct (map fst (enum xs))"
  by (auto simp: enum_def in_set_conv_nth intro!: exI [of _ i])

definition nic_key :: "nat \<Rightarrow> string" where
  "nic_key i = ''net'' @ show_nat i"

definition data_disk_key :: "nat \<Rightarrow> string" where
  "data_disk_key i = ''scsi'' @ show_nat (FIRST_DATA_DISK_INDEX + i)"

lemma inj_keys: "inj nic_key" "inj data_disk_key"
  by (auto simp: inj_def nic_key_def data_disk_key_def show_nat_inject)

lemma keys_differ [simp]:
  "nic_key i \<noteq> data_disk_key j" "data_disk_key j \<noteq> nic_key i"
  "nic_key i \<noteq> SEED_DRIVE_KEY" "data_disk_key j \<noteq> SEED_DRIVE_KEY"
  "nic_key i \<noteq> OS_DISK_KEY" "data_disk_key j \<noteq> OS_DISK_KEY"
  "nic_key i \<noteq> EFI_DISK_KEY" "data_disk_key j \<noteq> EFI_DISK_KEY"
  "nic_key i \<noteq> TPM_STATE_KEY" "data_disk_key j \<noteq> TPM_STATE_KEY"
  "nic_key i \<noteq> ''scsihw''" "data_disk_key j \<noteq> ''scsihw''"
proof -
  show "data_disk_key j \<noteq> OS_DISK_KEY"
    using show_nat_inject [of "Suc j" 0] by (simp add: data_disk_key_def OS_DISK_KEY_def FIRST_DATA_DISK_INDEX_def del: show_nat.simps)
  show "data_disk_key j \<noteq> ''scsihw''"
    using show_nat_digits [of "Suc j"] by (auto simp: data_disk_key_def FIRST_DATA_DISK_INDEX_def is_digit_def to_digit_def simp del: show_nat.simps)
qed (simp_all add: nic_key_def data_disk_key_def SEED_DRIVE_KEY_def OS_DISK_KEY_def EFI_DISK_KEY_def TPM_STATE_KEY_def del: show_nat.simps)

text \<open>The parameters that are neither an interface nor a data disk.\<close>

definition fixed_config :: "proxmox_machine_spec \<Rightarrow> vm_config \<Rightarrow> params" where
  "fixed_config spec existing =
     (let p = base_config spec;
          p = (if pms_firmware spec \<noteq> Bios \<and> map_of existing EFI_DISK_KEY = None
               then params_set EFI_DISK_KEY (pms_storage spec @ '':1,efitype=4m,pre-enrolled-keys='' @ (if proxmox_secure_boot spec then ''1'' else ''0'')) p
               else p)
      in if pms_tpm_enabled spec \<and> map_of existing TPM_STATE_KEY = None
         then params_set TPM_STATE_KEY (pms_storage spec @ '':1,version=v2.0'') p else p)"

lemma desired_config_eq:
  "desired_config spec nics existing volid =
     (let p = number_keys data_disk_key (\<lambda>k. map_of existing k \<noteq> None) (data_disk_value spec) (enum (pms_data_disks spec))
                (number_keys nic_key (\<lambda>_. False) proxmox_nic_config_value (enum nics) (fixed_config spec existing));
          p = (if list_ex pdd_iothread (pms_data_disks spec) then params_set ''scsihw'' SCSI_HW_IOTHREAD p else p)
      in case volid of Some v \<Rightarrow> params_set SEED_DRIVE_KEY (v @ '',media=cdrom'') p | None \<Rightarrow> p)"
  unfolding desired_config_def fixed_config_def number_keys_def nic_key_def data_disk_key_def Let_def if_False by (rule refl)

lemma distinct_desired_config: "distinct (map fst (desired_config spec nics existing volid))"
proof -
  have "distinct (map fst (fixed_config spec existing))"
    by (simp add: fixed_config_def base_config_def params_flag_def params_set_opt_def Let_def split: option.split)
  then show ?thesis
    by (simp add: desired_config_eq Let_def split: option.split)
qed

text \<open>The keys that are sent for every machine.\<close>

definition base_keys :: "string set" where
  "base_keys = {''cores'', ''sockets'', ''memory'', ''cpu'', ''bios'', ''agent''}"

lemma base_config_none: "k \<notin> base_keys \<Longrightarrow> map_of (base_config spec) k = None"
  by (simp add: base_keys_def base_config_def params_flag_def params_set_opt_def split: option.split)

lemma fixed_config_none:
  assumes "k \<notin> base_keys" "k \<notin> {EFI_DISK_KEY, TPM_STATE_KEY} \<or> map_of existing k \<noteq> None"
  shows "map_of (fixed_config spec existing) k = None"
  unfolding fixed_config_def Let_def using assms(2) base_config_none [OF assms(1)] by auto

text \<open>The keys of disks.\<close>

definition disk_key :: "string \<Rightarrow> bool" where
  "disk_key k \<longleftrightarrow> k \<in> {OS_DISK_KEY, EFI_DISK_KEY, TPM_STATE_KEY} \<or> (\<exists>i. k = data_disk_key i)"

lemmas fixed_keys = OS_DISK_KEY_def EFI_DISK_KEY_def TPM_STATE_KEY_def SEED_DRIVE_KEY_def

lemma disk_key_not:
  assumes "disk_key k"
  shows "k \<noteq> SEED_DRIVE_KEY" "k \<noteq> ''scsihw''" "k \<noteq> nic_key i" "k \<notin> base_keys"
proof -
  consider (fixed) "k \<in> {OS_DISK_KEY, EFI_DISK_KEY, TPM_STATE_KEY}" | (data) j where "k = data_disk_key j"
    using assms by (auto simp: disk_key_def)
  note cases = this
  show "k \<noteq> SEED_DRIVE_KEY"
    by (cases rule: cases) (auto simp: fixed_keys data_disk_key_def)
  show "k \<noteq> ''scsihw''"
    by (cases rule: cases) (auto simp: fixed_keys)
  show "k \<noteq> nic_key i"
    by (cases rule: cases) (auto simp: fixed_keys data_disk_key_def nic_key_def)
  show "k \<notin> base_keys"
    by (cases rule: cases) (auto simp: fixed_keys data_disk_key_def base_keys_def)
qed

lemma existing_disk_not_sent:
  assumes "disk_key k" "map_of existing k \<noteq> None"
  shows "map_of (desired_config spec nics existing volid) k = None"
proof -
  have "map_of (fixed_config spec existing) k = None"
    using assms(2) by (intro fixed_config_none disk_key_not(4) [OF assms(1)]) simp
  then show ?thesis
    using assms(2) disk_key_not [OF assms(1)]
    by (simp add: desired_config_eq Let_def number_keys_left_out number_keys_other split: option.split)
qed

lemma os_disk_not_sent: "map_of (desired_config spec nics existing volid) OS_DISK_KEY = None"
proof -
  have "map_of (fixed_config spec existing) OS_DISK_KEY = None"
    by (rule fixed_config_none) (simp_all add: fixed_keys base_keys_def)
  moreover have "OS_DISK_KEY \<noteq> nic_key i" "OS_DISK_KEY \<noteq> data_disk_key i" for i
    using keys_differ(5,6) by metis+
  ultimately show ?thesis
    by (simp add: desired_config_eq Let_def number_keys_other split: option.split) (simp add: fixed_keys)
qed

lemma new_data_disk_sent:
  assumes "i < length (pms_data_disks spec)" "map_of existing (data_disk_key i) = None"
  shows "map_of (desired_config spec nics existing volid) (data_disk_key i) = Some (data_disk_value spec (pms_data_disks spec ! i))"
  using number_keys_sets [OF inj_keys(2) enum_nth(1) [OF assms(1)] enum_nth(2), where C = "\<lambda>k. map_of existing k \<noteq> None"] assms(2)
  by (simp add: desired_config_eq Let_def split: option.split)

lemma nic_sent:
  assumes "i < length nics"
  shows "map_of (desired_config spec nics existing volid) (nic_key i) = Some (proxmox_nic_config_value (nics ! i))"
  using number_keys_sets [OF inj_keys(1) enum_nth(1) [OF assms] enum_nth(2), where C = "\<lambda>_. False"]
  by (simp add: desired_config_eq Let_def number_keys_other split: option.split)

lemma seed_drive_sent: "map_of (desired_config spec nics existing volid) SEED_DRIVE_KEY = map_option (\<lambda>v. v @ '',media=cdrom'') volid"
proof -
  have "map_of (fixed_config spec existing) SEED_DRIVE_KEY = None"
    by (rule fixed_config_none) (simp_all add: fixed_keys base_keys_def)
  moreover have "SEED_DRIVE_KEY \<noteq> nic_key i" "SEED_DRIVE_KEY \<noteq> data_disk_key i" for i
    using keys_differ(3,4) by metis+
  ultimately show ?thesis
    by (simp add: desired_config_eq Let_def number_keys_other split: option.split) (simp add: fixed_keys)
qed

text \<open>
  (C8) The configuration that is sent names every key once. It never names the OS disk, and never
  a disk that the virtual machine already has, so sending it again creates and replaces no disk. A
  data disk that is missing is created with its own storage and size, every interface gets its own
  value, and the seed drive is attached exactly when there is a seed.
\<close>

theorem configuration_replaces_no_disk:
  "let ps = desired_config spec nics existing volid; sent = map_of ps
   in distinct (map fst ps)
    \<and> sent OS_DISK_KEY = None
    \<and> (\<forall>k. disk_key k \<and> map_of existing k \<noteq> None \<longrightarrow> sent k = None)
    \<and> (\<forall>i < length (pms_data_disks spec). map_of existing (data_disk_key i) = None \<longrightarrow>
         sent (data_disk_key i) = Some (data_disk_value spec (pms_data_disks spec ! i)))
    \<and> (\<forall>i < length nics. sent (nic_key i) = Some (proxmox_nic_config_value (nics ! i)))
    \<and> sent SEED_DRIVE_KEY = map_option (\<lambda>v. v @ '',media=cdrom'') volid"
  unfolding Let_def
  by (intro conjI allI impI; (elim conjE)?)
    (rule distinct_desired_config os_disk_not_sent existing_disk_not_sent new_data_disk_sent nic_sent seed_drive_sent; assumption?)+

text \<open>A machine with a TPM and two data disks, the first of which exists.\<close>

definition demo_disk_spec :: proxmox_machine_spec where
  "demo_disk_spec = (let disk = \<lparr>pdd_name = ''d'', pdd_size_gib = 10, pdd_storage = None, pdd_iothread = True, pdd_discard = False, pdd_ssd = False\<rparr>
     in \<lparr>pms_provider_id = None, pms_failure_domain = None, pms_provider_ref = \<lparr>lor_name = ''prov''\<rparr>, pms_node = ''pve1'',
       pms_template_vmid = 9000, pms_storage = ''lvm'', pms_pool = None, pms_cores = 2, pms_sockets = 1, pms_memory_mib = 2048,
       pms_cpu_type = None, pms_firmware = Bios, pms_tpm_enabled = True, pms_os_disk_size_gib = 20,
       pms_data_disks = [disk, disk\<lparr>pdd_size_gib := 500, pdd_storage := Some ''ceph''\<rparr>], pms_nics = [],
       pms_iso_storage = None, pms_user_data = None, pms_desired_power_state = PoweredOn\<rparr>)"

definition demo_disk_config :: vm_config where
  "demo_disk_config = [(''scsi1'', ''lvm:vm-100-disk-1''), (''tpmstate0'', ''lvm:vm-100-disk-2'')]"

theorem configuration_replaces_no_disk_witness:
  "let ps = desired_config demo_disk_spec [] demo_disk_config None
   in map_of ps ''scsi1'' = None \<and> map_of ps ''tpmstate0'' = None \<and> map_of ps ''scsi2'' = Some ''ceph:500,iothread=1''"
proof -
  let ?ps = "desired_config demo_disk_spec [] demo_disk_config None"
  note sent = configuration_replaces_no_disk [of demo_disk_spec "[]" demo_disk_config None, unfolded Let_def]
  have keys: "data_disk_key 0 = ''scsi1''" "data_disk_key 1 = ''scsi2''"
    by code_simp+
  have "disk_key (data_disk_key 0)" "disk_key TPM_STATE_KEY"
    by (auto simp: disk_key_def)
  then have "map_of ?ps ''scsi1'' = None \<and> map_of ?ps ''tpmstate0'' = None"
    using sent by (simp add: demo_disk_config_def keys TPM_STATE_KEY_def)
  moreover have "map_of ?ps (data_disk_key 1) = Some (data_disk_value demo_disk_spec (pms_data_disks demo_disk_spec ! 1))"
  proof -
    have "1 < length (pms_data_disks demo_disk_spec)" "map_of demo_disk_config (data_disk_key 1) = None"
      by code_simp+
    then show ?thesis
      using sent by blast
  qed
  moreover have "data_disk_value demo_disk_spec (pms_data_disks demo_disk_spec ! 1) = ''ceph:500,iothread=1''"
    by code_simp
  ultimately show ?thesis
    unfolding keys Let_def by simp
qed

end
