(* ===== verification/Proxmox_Safety.thy ===== *)
theory Proxmox_Safety
  imports Proxmox_Machine
begin

section \<open>What a pass over a Proxmox machine may do\<close>

text \<open>
  The protocol of \<^verbatim>\<open>reconciler/proxmoxmachine.rs\<close>: which requests to Proxmox and to the API server a pass may
  send, given what it has seen so far.  Proxmox and the API server answer arbitrarily.
\<close>

subsection \<open>What a pass has seen\<close>

definition seen :: "pve_event list \<Rightarrow> pve_request \<Rightarrow> pve_reply \<Rightarrow> bool" where
  "seen tr q a = (Pve q a \<in> set tr)"

definition finished :: "pve_event list \<Rightarrow> upid \<Rightarrow> nat \<Rightarrow> bool" where
  "finished tr u timeout = seen tr (ReqWait u timeout) Answered"

text \<open>A clone that carries the machine's marker, and has finished.\<close>

definition cloned :: "string \<Rightarrow> pve_event list \<Rightarrow> string \<Rightarrow> nat \<Rightarrow> bool" where
  "cloned uid tr node vmid = (\<exists>tn t ps u. seen tr (ReqClone tn t ps) (AnsweredTask u) \<and> finished tr u CLONE_TASK_TIMEOUT
     \<and> cp_newid ps = vmid \<and> cp_description ps = Some (ownership_marker uid)
     \<and> (case cp_target ps of Some n \<Rightarrow> n | None \<Rightarrow> tn) = node)"

definition owned :: "string \<Rightarrow> pve_event list \<Rightarrow> string \<Rightarrow> nat \<Rightarrow> bool" where
  "owned uid tr node vmid =
     ((\<exists>config. seen tr (ReqVmConfig node vmid) (AnsweredConfig config) \<and> is_ours config uid) \<or> cloned uid tr node vmid)"

definition not_ours :: "string \<Rightarrow> pve_event list \<Rightarrow> cluster_vm \<Rightarrow> bool" where
  "not_ours uid tr v =
     ((\<exists>config. seen tr (ReqVmConfig (cv_node v) (cv_vmid v)) (AnsweredConfig config) \<and> \<not> is_ours config uid)
      \<or> (\<exists>e. seen tr (ReqVmConfig (cv_node v) (cv_vmid v)) (Failed e) \<and> pve_is_not_found e))"

text \<open>A removal that has finished, or found nothing to remove.\<close>

definition removed :: "pve_event list \<Rightarrow> pve_request \<Rightarrow> bool" where
  "removed tr q = ((\<exists>u. seen tr q (AnsweredTask u) \<and> finished tr u TASK_TIMEOUT) \<or> (\<exists>e. seen tr q (Failed e) \<and> pve_is_not_found e))"

definition vm_gone :: "machine_ref \<Rightarrow> nat option \<Rightarrow> pve_event list \<Rightarrow> bool" where
  "vm_gone m recorded tr = (\<exists>vms. seen tr ReqClusterVms (AnsweredVms vms)
     \<and> (list_all (not_ours (mr_uid m) tr) (candidates vms m recorded)
        \<or> list_ex (\<lambda>v. removed tr (ReqDeleteVm (cv_node v) (cv_vmid v))) (candidates vms m recorded)))"

definition seed_gone :: "machine_ref \<Rightarrow> proxmox_machine_spec \<Rightarrow> pve_event list \<Rightarrow> bool" where
  "seed_gone m spec tr = (case pms_iso_storage spec of None \<Rightarrow> True
     | Some storage \<Rightarrow> (\<exists>node.
         (\<exists>vs. seen tr (ReqStorageContent node storage) (AnsweredVolumes vs) \<and> seed_volid storage (mr_uid m) \<notin> set (map vol_volid vs))
         \<or> (\<exists>e. seen tr (ReqStorageContent node storage) (Failed e) \<and> pve_is_not_found e)
         \<or> removed tr (ReqDeleteVolume node storage (seed_volid storage (mr_uid m)))))"

definition backend_gone :: "machine_ref \<Rightarrow> proxmox_machine_spec \<Rightarrow> nat option \<Rightarrow> pve_event list \<Rightarrow> bool" where
  "backend_gone m spec recorded tr = (vm_gone m recorded tr \<and> seed_gone m spec tr)"

definition configured :: "pve_event list \<Rightarrow> string \<Rightarrow> nat \<Rightarrow> bool" where
  "configured tr node vmid = (\<exists>ps. seen tr (ReqSetConfig node vmid ps) Answered)"

text \<open>The OS disk was found large enough, or has been grown to the size asked for.\<close>

definition sized :: "pve_event list \<Rightarrow> string \<Rightarrow> nat \<Rightarrow> nat \<Rightarrow> bool" where
  "sized tr node vmid gib = (\<exists>config current. seen tr (ReqVmConfig node vmid) (AnsweredConfig config)
     \<and> os_disk_size_gib config = Some current
     \<and> (gib \<le> current
        \<or> seen tr (ReqResize node vmid OS_DISK_KEY (show_nat gib @ ''G'')) Answered
        \<or> (\<exists>u. seen tr (ReqResize node vmid OS_DISK_KEY (show_nat gib @ ''G'')) (AnsweredTask u) \<and> finished tr u TASK_TIMEOUT)))"

definition smaller :: "pve_event list \<Rightarrow> string \<Rightarrow> nat \<Rightarrow> nat \<Rightarrow> bool" where
  "smaller tr node vmid gib = (\<exists>config current. seen tr (ReqVmConfig node vmid) (AnsweredConfig config)
     \<and> os_disk_size_gib config = Some current \<and> current < gib)"

definition running_seen :: "pve_event list \<Rightarrow> string \<Rightarrow> nat \<Rightarrow> bool \<Rightarrow> bool" where
  "running_seen tr node vmid b = (\<exists>s. seen tr (ReqVmStatus node vmid) (AnsweredStatus s) \<and> vm_is_running s = b)"

text \<open>The power state was read, or changed by a task that finished.\<close>

definition powered :: "pve_event list \<Rightarrow> string \<Rightarrow> nat \<Rightarrow> power_state \<Rightarrow> bool" where
  "powered tr node vmid p = (case p of
     PoweredOn \<Rightarrow> running_seen tr node vmid True
       \<or> (\<exists>u. seen tr (ReqStart node vmid) (AnsweredTask u) \<and> finished tr u TASK_TIMEOUT)
   | PoweredOff \<Rightarrow> running_seen tr node vmid False
       \<or> (\<exists>u. seen tr (ReqStop node vmid) (AnsweredTask u) \<and> finished tr u TASK_TIMEOUT)
   | Suspended \<Rightarrow> False)"

text \<open>The machine is being deleted, or the API server said that it does not exist any more.\<close>

definition doomed :: "proxmox_machine \<Rightarrow> pve_event list \<Rightarrow> bool" where
  "doomed machine tr = (om_deletion_timestamp (pm_meta machine) \<noteq> None
     \<or> (\<exists>n st e. StatusPatch n st (Some e) \<in> set tr \<and> is_404 e) \<or> (\<exists>n i e. ProviderIdPatch n i (Some e) \<in> set tr \<and> is_404 e))"

definition id_recorded :: "proxmox_machine \<Rightarrow> pve_event list \<Rightarrow> nat \<Rightarrow> bool" where
  "id_recorded machine tr vmid = (recorded_vmid machine = Some vmid
     \<or> (\<exists>st. StatusPatch (name_any (pm_meta machine)) st None \<in> set tr \<and> pmst_vmid st = Some vmid))"

lemmas seen_defs = seen_def finished_def cloned_def owned_def not_ours_def removed_def configured_def sized_def smaller_def
  running_seen_def powered_def doomed_def id_recorded_def

lemma upward_seen [upwards, simp]:
  "upward (\<lambda>tr. seen tr q a)" "upward (\<lambda>tr. finished tr u t)" "upward (\<lambda>tr. removed tr q)" "upward (\<lambda>tr. not_ours uid tr v)"
  "upward (\<lambda>tr. cloned uid tr node vmid)" "upward (\<lambda>tr. owned uid tr node vmid)"
  "upward (doomed machine)" "upward (\<lambda>tr. id_recorded machine tr vmid)" "upward (\<lambda>tr. configured tr node vmid)"
  "upward (\<lambda>tr. sized tr node vmid gib)" "upward (\<lambda>tr. smaller tr node vmid gib)" "upward (\<lambda>tr. running_seen tr node vmid b)"
  unfolding seen_defs by (intro upwards)+

lemma upward_powered [upwards, simp]: "upward (\<lambda>tr. powered tr node vmid p)"
  unfolding powered_def by (cases p) (simp_all, (intro upwards)+)

lemma upward_gone [upwards, simp]:
  "upward (vm_gone m recorded)" "upward (seed_gone m spec)" "upward (backend_gone m spec recorded)"
  unfolding backend_gone_def vm_gone_def seed_gone_def by (intro upwards)+

subsection \<open>The protocol\<close>

definition ref_of :: "proxmox_machine \<Rightarrow> machine_ref" where
  "ref_of machine = \<lparr>mr_name = name_any (pm_meta machine), mr_uid = (case om_uid (pm_meta machine) of Some u \<Rightarrow> u | None \<Rightarrow> [])\<rparr>"

abbreviation uid_of :: "proxmox_machine \<Rightarrow> string" where
  "uid_of machine \<equiv> mr_uid (ref_of machine)"

definition listed_template :: "pve_event list \<Rightarrow> string \<Rightarrow> nat \<Rightarrow> bool" where
  "listed_template tr node vmid = (\<exists>vms v. seen tr ReqClusterVms (AnsweredVms vms) \<and> v \<in> set vms
     \<and> cv_node v = node \<and> cv_vmid v = vmid \<and> cv_template v)"

text \<open>Requests act on a machine that is known to be ours, on our seed image, or clone a template under our marker.\<close>

fun own_request :: "proxmox_machine \<Rightarrow> pve_event list \<Rightarrow> pve_request \<Rightarrow> bool" where
  "own_request machine pre (ReqSetConfig node vmid _) = owned (uid_of machine) pre node vmid"
| "own_request machine pre (ReqResize node vmid _ _) = owned (uid_of machine) pre node vmid"
| "own_request machine pre (ReqStart node vmid) = owned (uid_of machine) pre node vmid"
| "own_request machine pre (ReqStop node vmid) = owned (uid_of machine) pre node vmid"
| "own_request machine pre (ReqDeleteVm node vmid) = owned (uid_of machine) pre node vmid"
| "own_request machine pre (ReqClone node vmid ps) =
     (cp_description ps = Some (ownership_marker (uid_of machine)) \<and> cp_full ps \<and> listed_template pre node vmid)"
| "own_request machine pre (ReqUploadIso _ _ name _) = (name = seed_filename (uid_of machine))"
| "own_request machine pre (ReqDeleteVolume _ storage volid) = (volid = seed_volid storage (uid_of machine))"
| "own_request machine pre ReqClusterVms = True"
| "own_request machine pre ReqNextId = True"
| "own_request machine pre (ReqStorageContent _ _) = True"
| "own_request machine pre (ReqVmConfig _ _) = True"
| "own_request machine pre (ReqVmStatus _ _) = True"
| "own_request machine pre (ReqAgent _ _) = True"
| "own_request machine pre (ReqWait _ _) = True"
| "own_request machine pre ReqVersion = True"
| "own_request machine pre ReqNodes = True"
| "own_request machine pre (ReqNodeStorage _) = True"
| "own_request machine pre (ReqNodeNetworks _) = True"

text \<open>A machine is reconfigured, restarted or destroyed only for a reason.\<close>

definition unsettled :: "proxmox_machine \<Rightarrow> pve_event list \<Rightarrow> string \<Rightarrow> nat \<Rightarrow> bool" where
  "unsettled machine tr node vmid =
     (needs_configure (pm_status machine) (generation_of machine) \<or> cloned (uid_of machine) tr node vmid)"

fun needed :: "proxmox_machine \<Rightarrow> pve_event list \<Rightarrow> pve_request \<Rightarrow> bool" where
  "needed machine pre (ReqSetConfig node vmid _) = unsettled machine pre node vmid"
| "needed machine pre (ReqResize node vmid disk sz) = (unsettled machine pre node vmid \<and> disk = OS_DISK_KEY
     \<and> sz = show_nat (pms_os_disk_size_gib (pm_spec machine)) @ ''G'' \<and> smaller pre node vmid (pms_os_disk_size_gib (pm_spec machine)))"
| "needed machine pre (ReqUploadIso node _ _ _) = (\<exists>vmid. unsettled machine pre node vmid)"
| "needed machine pre (ReqStart node vmid) =
     (pms_desired_power_state (pm_spec machine) = PoweredOn \<and> running_seen pre node vmid False)"
| "needed machine pre (ReqStop node vmid) =
     ((pms_desired_power_state (pm_spec machine) = PoweredOff \<or> doomed machine pre) \<and> running_seen pre node vmid True)"
| "needed machine pre (ReqDeleteVm _ _) = doomed machine pre"
| "needed machine pre (ReqDeleteVolume _ _ _) = doomed machine pre"
| "needed machine pre (ReqClone _ _ _) = True"
| "needed machine pre ReqClusterVms = True"
| "needed machine pre ReqNextId = True"
| "needed machine pre (ReqStorageContent _ _) = True"
| "needed machine pre (ReqVmConfig _ _) = True"
| "needed machine pre (ReqVmStatus _ _) = True"
| "needed machine pre (ReqAgent _ _) = True"
| "needed machine pre (ReqWait _ _) = True"
| "needed machine pre ReqVersion = True"
| "needed machine pre ReqNodes = True"
| "needed machine pre (ReqNodeStorage _) = True"
| "needed machine pre (ReqNodeNetworks _) = True"

text \<open>A status keeps what an earlier pass reported, or reports what this pass has seen.\<close>

definition keeps_report :: "proxmox_machine \<Rightarrow> proxmox_machine_status \<Rightarrow> bool" where
  "keeps_report machine st = (let prior = pve_status_or_default (pm_status machine)
     in pmst_initialization st = pmst_initialization prior \<and> pmst_observed_generation st = pmst_observed_generation prior
        \<and> pmst_observed_power_state st = pmst_observed_power_state prior \<and> pmst_addresses st = pmst_addresses prior)"

definition earned :: "proxmox_machine \<Rightarrow> pve_event list \<Rightarrow> proxmox_machine_status \<Rightarrow> bool" where
  "earned machine tr st = (\<exists>node vmid p. pmst_node st = Some node \<and> pmst_vmid st = Some vmid \<and> pmst_observed_power_state st = Some p
     \<and> owned (uid_of machine) tr node vmid \<and> powered tr node vmid p
     \<and> pmst_observed_generation st = Some (generation_of machine)
     \<and> (needs_configure (pm_status machine) (generation_of machine) \<longrightarrow>
          configured tr node vmid \<and> sized tr node vmid (pms_os_disk_size_gib (pm_spec machine)))
     \<and> is_provisioned (pmst_initialization st) = Some (p = pms_desired_power_state (pm_spec machine)))"

definition drops_pve_finalizer :: "event \<Rightarrow> bool" where
  "drops_pve_finalizer ev = (\<exists>n fs a. ev = Event KProxmoxMachine n (MergePatch (MergeFinalizers fs)) a \<and> MACHINE_FINALIZER \<notin> set fs)"

fun clone_recorded :: "proxmox_machine \<Rightarrow> pve_event list \<Rightarrow> pve_event \<Rightarrow> bool" where
  "clone_recorded machine pre (Pve (ReqClone _ _ ps) _) = id_recorded machine pre (cp_newid ps)"
| "clone_recorded machine pre _ = True"

fun report_earned :: "proxmox_machine \<Rightarrow> pve_event list \<Rightarrow> pve_event \<Rightarrow> bool" where
  "report_earned machine pre (StatusPatch n st _) =
     (n = name_any (pm_meta machine) \<and> (keeps_report machine st \<or> earned machine pre st))"
| "report_earned machine pre (ProviderIdPatch n i _) =
     (n = name_any (pm_meta machine) \<and> (\<exists>node vmid. owned (uid_of machine) pre node vmid
        \<and> i = proxmox_provider_id (lor_name (pms_provider_ref (pm_spec machine))) vmid))"
| "report_earned machine pre _ = True"

fun released_last :: "proxmox_machine \<Rightarrow> pve_event list \<Rightarrow> pve_event \<Rightarrow> bool" where
  "released_last machine pre (KubeEv ev) = (drops_pve_finalizer ev \<longrightarrow>
     om_deletion_timestamp (pm_meta machine) \<noteq> None \<and> backend_gone (ref_of machine) (pm_spec machine) (recorded_vmid machine) pre)"
| "released_last machine pre _ = True"

fun acts_on_own :: "proxmox_machine \<Rightarrow> pve_event list \<Rightarrow> pve_event \<Rightarrow> bool" where
  "acts_on_own machine pre (Pve q _) = own_request machine pre q"
| "acts_on_own machine pre _ = True"

fun acts_for_reason :: "proxmox_machine \<Rightarrow> pve_event list \<Rightarrow> pve_event \<Rightarrow> bool" where
  "acts_for_reason machine pre (Pve q _) = needed machine pre q"
| "acts_for_reason machine pre _ = True"

definition proper :: "proxmox_machine \<Rightarrow> pve_event list \<Rightarrow> pve_event \<Rightarrow> bool" where
  "proper machine pre e = (acts_on_own machine pre e \<and> acts_for_reason machine pre e \<and> clone_recorded machine pre e
     \<and> report_earned machine pre e \<and> released_last machine pre e)"

lemma proper_simps [simp]:
  "proper machine pre (StatusPatch n st a) = report_earned machine pre (StatusPatch n st a)"
  "proper machine pre (ProviderIdPatch n i a) = report_earned machine pre (ProviderIdPatch n i a)"
  "proper machine pre (KubeEv ev) = released_last machine pre (KubeEv ev)"
  "proper machine pre (Pve q r) = (own_request machine pre q \<and> needed machine pre q \<and> clone_recorded machine pre (Pve q r))"
  by (auto simp: proper_def)

lemma upward_unsettled [upwards, simp]: "upward (\<lambda>tr. unsettled machine tr node vmid)"
  unfolding unsettled_def by (intro upwards)

subsection \<open>One request\<close>

lemma keeps_must:
  assumes "\<And>tr a. K tr \<Longrightarrow> G tr (Pve q a)" and "\<And>tr x. K tr \<Longrightarrow> Q x (tr @ [Pve q (ans x)])"
  shows "keeps G K (must (pve_call q ans f)) Q"
  unfolding must_def pve_call_def by (intro keeps_err keeps_call) (use assms in \<open>simp_all\<close>)

lemma keeps_ignore:
  assumes "\<And>tr a. K tr \<Longrightarrow> G tr (Pve q a)" and "\<And>tr x. K tr \<Longrightarrow> Q (Some x) (tr @ [Pve q (ans x)])"
    and "\<And>tr e. K tr \<Longrightarrow> pve_is_not_found e \<Longrightarrow> Q None (tr @ [Pve q (Failed e)])"
  shows "keeps G K (ignore_not_found (pve_call q ans f)) Q"
  unfolding ignore_not_found_def pve_call_def
proof (rule keeps_bind [where R = "\<lambda>r tr. case r of Inr x \<Rightarrow> Q (Some x) tr | Inl e \<Rightarrow> pve_is_not_found e \<longrightarrow> Q None tr"])
  show "keeps G K (io_attempt (io_call (\<lambda>r. Pve q (case r of Inl e \<Rightarrow> Failed e | Inr x \<Rightarrow> ans x)) f))
      (\<lambda>r tr. case r of Inr x \<Rightarrow> Q (Some x) tr | Inl e \<Rightarrow> pve_is_not_found e \<longrightarrow> Q None tr)"
    by (rule keeps_attempt_call_plain) (use assms in \<open>auto split: sum.split\<close>)
next
  fix r
  show "keeps G (\<lambda>tr. case r of Inr x \<Rightarrow> Q (Some x) tr | Inl e \<Rightarrow> pve_is_not_found e \<longrightarrow> Q None tr)
      (case r of Inl e \<Rightarrow> if pve_is_not_found e then io_return None else io_throw (PProxmox e) | Inr v \<Rightarrow> io_return (Some v)) Q"
    by (cases r) (auto intro: keeps_return keeps_throw)
qed

lemma keeps_wait:
  assumes "upward K"
  shows "keeps (proper machine) K (wait api u t) (\<lambda>_ tr. K tr \<and> finished tr u t)"
  unfolding wait_def
  by (rule keeps_must) (use assms in \<open>auto simp: finished_def seen_def upward_def\<close>)

lemma keeps_cluster_vms:
  assumes "upward K"
  shows "keeps (proper machine) K (cluster_vms api) (\<lambda>vms tr. K tr \<and> seen tr ReqClusterVms (AnsweredVms vms))"
  unfolding cluster_vms_def
  by (rule keeps_must) (use assms in \<open>auto simp: seen_def upward_def\<close>)

lemma keeps_vm_config:
  assumes "upward K"
  shows "keeps (proper machine) K (must (pve_call (ReqVmConfig node vmid) AnsweredConfig f))
    (\<lambda>config tr. K tr \<and> seen tr (ReqVmConfig node vmid) (AnsweredConfig config))"
  by (rule keeps_must) (use assms in \<open>auto simp: seen_def upward_def\<close>)

text \<open>A task that must finish, and one that may find nothing to do.\<close>

lemma keeps_task:
  assumes "upward K" and "\<And>tr a. K tr \<Longrightarrow> proper machine tr (Pve q a)"
  shows "keeps (proper machine) K (io_bind (must (pve_call q AnsweredTask f)) (\<lambda>u. wait api u t))
    (\<lambda>_ tr. K tr \<and> (\<exists>u. seen tr q (AnsweredTask u) \<and> finished tr u t))"
proof (rule keeps_bind [where R = "\<lambda>u tr. K tr \<and> seen tr q (AnsweredTask u)"])
  show "keeps (proper machine) K (must (pve_call q AnsweredTask f)) (\<lambda>u tr. K tr \<and> seen tr q (AnsweredTask u))"
    by (rule keeps_must) (use assms in \<open>auto simp: seen_def upward_def\<close>)
  show "keeps (proper machine) (\<lambda>tr. K tr \<and> seen tr q (AnsweredTask u)) (wait api u t)
      (\<lambda>_ tr. K tr \<and> (\<exists>u. seen tr q (AnsweredTask u) \<and> finished tr u t))" for u
    by (rule keeps_conseq [OF keeps_wait [where K = "\<lambda>tr. K tr \<and> seen tr q (AnsweredTask u)"]])
      (use assms in \<open>auto intro!: upwards\<close>)
qed

lemma keeps_task_then:
  assumes "upward K" and "\<And>tr a. K tr \<Longrightarrow> proper machine tr (Pve q a)"
    and "keeps (proper machine) (\<lambda>tr. K tr \<and> (\<exists>u. seen tr q (AnsweredTask u) \<and> finished tr u t)) g Q"
  shows "keeps (proper machine) K (io_bind (must (pve_call q AnsweredTask f)) (\<lambda>u. io_bind (wait api u t) (\<lambda>_. g))) Q"
proof (rule keeps_bind [where R = "\<lambda>u tr. K tr \<and> seen tr q (AnsweredTask u)"])
  show "keeps (proper machine) K (must (pve_call q AnsweredTask f)) (\<lambda>u tr. K tr \<and> seen tr q (AnsweredTask u))"
    by (rule keeps_must) (use assms in \<open>auto simp: seen_def upward_def\<close>)
  show "keeps (proper machine) (\<lambda>tr. K tr \<and> seen tr q (AnsweredTask u)) (io_bind (wait api u t) (\<lambda>_. g)) Q" for u
    by (rule keeps_bind [OF keeps_conseq [OF keeps_wait [where K = "\<lambda>tr. K tr \<and> seen tr q (AnsweredTask u)"]] assms(3)])
      (use assms(1) in \<open>auto intro!: upwards\<close>)
qed

lemma keeps_removal:
  assumes "upward K" and "\<And>tr a. K tr \<Longrightarrow> proper machine tr (Pve q a)"
  shows "keeps (proper machine) K
    (io_bind (ignore_not_found (pve_call q AnsweredTask f)) (await_removal api))
    (\<lambda>_ tr. K tr \<and> removed tr q)"
proof (rule keeps_bind [where R = "\<lambda>t tr. K tr \<and> (case t of Some u \<Rightarrow> seen tr q (AnsweredTask u) | None \<Rightarrow> removed tr q)"])
  show "keeps (proper machine) K (ignore_not_found (pve_call q AnsweredTask f))
      (\<lambda>t tr. K tr \<and> (case t of Some u \<Rightarrow> seen tr q (AnsweredTask u) | None \<Rightarrow> removed tr q))"
    by (rule keeps_ignore) (use assms in \<open>auto simp: seen_def removed_def upward_def\<close>)
  show "keeps (proper machine) (\<lambda>tr. K tr \<and> (case t of Some u \<Rightarrow> seen tr q (AnsweredTask u) | None \<Rightarrow> removed tr q))
      (await_removal api t) (\<lambda>_ tr. K tr \<and> removed tr q)" for t
  proof (cases t)
    case (Some u)
    then show ?thesis
      by (simp add: await_removal_def, intro keeps_conseq [OF keeps_wait [where K = "\<lambda>tr. K tr \<and> seen tr q (AnsweredTask u)"]])
        (use assms in \<open>auto simp: removed_def intro!: upwards\<close>)
  qed (simp add: await_removal_def keeps_return)
qed

subsection \<open>Finding, cloning and configuring\<close>

lemma keeps_first_ours:
  assumes "upward K"
  shows "keeps (proper machine) K (first_ours api uid vms)
    (\<lambda>r tr. K tr \<and> (case r of Some v \<Rightarrow> v \<in> set vms \<and> owned uid tr (cv_node v) (cv_vmid v) | None \<Rightarrow> list_all (not_ours uid tr) vms))"
  using assms
proof (induction vms arbitrary: K)
  case Nil
  then show ?case
    by (simp add: keeps_return)
next
  case (Cons vm vms)
  let ?q = "ReqVmConfig (cv_node vm) (cv_vmid vm)"
  let ?Q = "\<lambda>r tr. K tr \<and> (case r of Some v \<Rightarrow> v \<in> set (vm # vms) \<and> owned uid tr (cv_node v) (cv_vmid v) | None \<Rightarrow> list_all (not_ours uid tr) (vm # vms))"
  have rest: "keeps (proper machine) (\<lambda>tr. K tr \<and> not_ours uid tr vm) (first_ours api uid vms) ?Q"
    by (rule keeps_conseq [OF Cons.IH [of "\<lambda>tr. K tr \<and> not_ours uid tr vm"]])
      (use Cons.prems in \<open>auto intro!: upwards split: option.splits\<close>)
  show ?case
    unfolding first_ours.simps
  proof (rule keeps_bind [where R = "\<lambda>c tr. K tr \<and> (case c of None \<Rightarrow> not_ours uid tr vm | Some config \<Rightarrow> seen tr ?q (AnsweredConfig config))"])
    show "keeps (proper machine) K (ignore_not_found (pve_call ?q AnsweredConfig (px_vm_config api (cv_node vm) (cv_vmid vm))))
        (\<lambda>c tr. K tr \<and> (case c of None \<Rightarrow> not_ours uid tr vm | Some config \<Rightarrow> seen tr ?q (AnsweredConfig config)))"
      by (rule keeps_ignore) (use Cons.prems in \<open>auto simp: seen_def not_ours_def upward_def\<close>)
  next
    fix c
    show "keeps (proper machine) (\<lambda>tr. K tr \<and> (case c of None \<Rightarrow> not_ours uid tr vm | Some config \<Rightarrow> seen tr ?q (AnsweredConfig config)))
        (case c of None \<Rightarrow> first_ours api uid vms | Some config \<Rightarrow> if is_ours config uid then io_return (Some vm) else first_ours api uid vms) ?Q"
      using rest
      by (cases c) (auto intro!: keeps_return keeps_conseq [OF rest] simp: owned_def not_ours_def)
  qed
qed

lemma keeps_find_ours:
  assumes "upward K"
  shows "keeps (proper machine) K (find_ours api vms m recorded)
    (\<lambda>r tr. K tr \<and> (case r of Some v \<Rightarrow> v \<in> set (candidates vms m recorded) \<and> owned (mr_uid m) tr (cv_node v) (cv_vmid v)
       | None \<Rightarrow> list_all (not_ours (mr_uid m) tr) (candidates vms m recorded)))"
  unfolding find_ours_def by (rule keeps_first_ours [OF assms])

lemma keeps_allocate:
  assumes "upward K"
  shows "keeps (proper machine) K (allocate_vmid api m recorded)
    (\<lambda>r tr. K tr \<and> (\<forall>v n. r = Existing v n \<longrightarrow> owned (mr_uid m) tr n v))"
  unfolding allocate_vmid_def
proof (rule keeps_bind [OF keeps_conseq [OF keeps_cluster_vms [OF assms], where Q' = "\<lambda>_. K"]])
  fix vms
  show "keeps (proper machine) K
      (io_bind (find_ours api vms m recorded) (\<lambda>ours. case ours of
         Some vm \<Rightarrow> io_return (Existing (cv_vmid vm) (cv_node vm))
       | None \<Rightarrow> (case (case recorded of Some i \<Rightarrow> if list_ex (\<lambda>v. cv_vmid v = i) vms then None else Some i | None \<Rightarrow> None) of
            Some i \<Rightarrow> io_return (Fresh i)
          | None \<Rightarrow> io_bind (must (pve_call ReqNextId AnsweredId (px_next_id api))) (\<lambda>n. io_return (Fresh n)))))
      (\<lambda>r tr. K tr \<and> (\<forall>v n. r = Existing v n \<longrightarrow> owned (mr_uid m) tr n v))"
    by (rule keeps_bind [OF keeps_find_ours [OF assms]])
      (use assms in \<open>auto intro!: keeps_return keeps_bind [where R = "\<lambda>_. K"] keeps_must simp: upward_def split: option.splits\<close>)
qed auto

lemma keeps_clone:
  assumes "upward K" and "\<And>tr. K tr \<Longrightarrow> id_recorded machine tr vmid"
  shows "keeps (proper machine) K (clone_from_template api (ref_of machine) (pm_spec machine) vmid)
    (\<lambda>_ tr. K tr \<and> cloned (uid_of machine) tr (pms_node (pm_spec machine)) vmid)"
  unfolding clone_from_template_def
proof (rule keeps_bind [OF keeps_cluster_vms [OF assms(1)]])
  fix vms
  let ?spec = "pm_spec machine"
  let ?K = "\<lambda>tr. K tr \<and> seen tr ReqClusterVms (AnsweredVms vms)"
  let ?find = "find (\<lambda>v. cv_vmid v = pms_template_vmid ?spec \<and> (cv_kind v = [] \<or> cv_kind v = KIND_QEMU)) vms"
  have clone: "keeps (proper machine) ?K
      (io_bind (must (pve_call (ReqClone (cv_node v) (pms_template_vmid ?spec) ps) AnsweredTask f)) (\<lambda>u. wait api u CLONE_TASK_TIMEOUT))
      (\<lambda>_ tr. K tr \<and> cloned (uid_of machine) tr (pms_node ?spec) vmid)"
    if "?find = Some v" "cv_template v" and ps: "ps = clone_request (ref_of machine) ?spec (cv_node v) vmid" for v f ps
  proof (rule keeps_conseq [OF keeps_task [where K = ?K]])
    from that(1) have v: "v \<in> set vms" "cv_vmid v = pms_template_vmid ?spec"
      by (auto simp: find_Some_iff)
    show "proper machine tr (Pve (ReqClone (cv_node v) (pms_template_vmid ?spec) ps) a)" if "?K tr" for tr a
      using that v \<open>cv_template v\<close> assms(2)
      by (auto simp: ps clone_request_def clone_params_new_def listed_template_def)
    have "cp_newid ps = vmid" "cp_description ps = Some (ownership_marker (uid_of machine))"
      "(case cp_target ps of Some n \<Rightarrow> n | None \<Rightarrow> cv_node v) = pms_node ?spec"
      by (simp_all add: ps clone_request_def clone_params_new_def)
    then show "K tr \<and> cloned (uid_of machine) tr (pms_node ?spec) vmid"
      if "?K tr \<and> (\<exists>u. seen tr (ReqClone (cv_node v) (pms_template_vmid ?spec) ps) (AnsweredTask u) \<and> finished tr u CLONE_TASK_TIMEOUT)" for tr
      using that unfolding cloned_def by blast
  qed (use assms(1) in \<open>auto intro!: upwards\<close>)
  show "keeps (proper machine) ?K
      (case ?find of
         None \<Rightarrow> io_throw (PInvalid ''spec.templateVmid'' (''template VMID '' @ show_nat (pms_template_vmid ?spec) @ '' does not exist''))
       | Some template \<Rightarrow>
         if \<not> cv_template template
         then io_throw (PInvalid ''spec.templateVmid''
           (''VMID '' @ show_nat (pms_template_vmid ?spec) @ '' is not a template; refusing to clone a live guest''))
         else (let ps = clone_request (ref_of machine) ?spec (cv_node template) vmid
           in io_bind (must (pve_call (ReqClone (cv_node template) (pms_template_vmid ?spec) ps) AnsweredTask
                (px_clone_vm api (cv_node template) (pms_template_vmid ?spec) ps))) (\<lambda>u. wait api u CLONE_TASK_TIMEOUT)))
      (\<lambda>_ tr. K tr \<and> cloned (uid_of machine) tr (pms_node ?spec) vmid)"
    by (auto simp: Let_def intro!: keeps_throw clone split: option.split)
qed

lemma keeps_upload:
  assumes "upward K" and "\<And>tr. K tr \<Longrightarrow> unsettled machine tr node vmid"
  shows "keeps (proper machine) K (upload_seed api node (ref_of machine) spec nics) (\<lambda>_. K)"
proof -
  have "keeps (proper machine) K
      (io_bind (must (pve_call (ReqUploadIso node storage (seed_filename (uid_of machine)) img) AnsweredTask f))
        (\<lambda>u. io_bind (wait api u TASK_TIMEOUT) (\<lambda>_. io_return v))) (\<lambda>_. K)" for storage img f v
    by (intro keeps_bind [where R = "\<lambda>_. K"] keeps_must keeps_return keeps_conseq [OF keeps_wait [where K = K]])
      (use assms in \<open>auto simp: upward_def\<close>)
  then show ?thesis
    by (auto simp: upload_seed_def Let_def intro!: keeps_throw split: option.split sum.split)
qed

lemma keeps_grow:
  assumes "upward K" and "\<And>tr. K tr \<Longrightarrow> unsettled machine tr node vmid \<and> owned (uid_of machine) tr node vmid"
    and gib: "gib = pms_os_disk_size_gib (pm_spec machine)"
  shows "keeps (proper machine) K (grow_os_disk api node vmid gib) (\<lambda>_ tr. K tr \<and> sized tr node vmid gib)"
  unfolding grow_os_disk_def
proof (rule keeps_bind [OF keeps_vm_config [OF assms(1)]])
  fix config
  let ?K = "\<lambda>tr. K tr \<and> seen tr (ReqVmConfig node vmid) (AnsweredConfig config)"
  let ?q = "ReqResize node vmid OS_DISK_KEY (show_nat gib @ ''G'')"
  let ?ans = "\<lambda>t. case t of Some u \<Rightarrow> AnsweredTask u | None \<Rightarrow> Answered"
  let ?Q = "\<lambda>_ tr. K tr \<and> sized tr node vmid gib"
  have up: "upward ?K"
    using assms(1) by (intro upwards)
  have grow: "keeps (proper machine) ?K
      (io_bind (must (pve_call ?q ?ans (px_resize_disk api node vmid OS_DISK_KEY (show_nat gib @ ''G''))))
        (\<lambda>task. case task of Some u \<Rightarrow> wait api u TASK_TIMEOUT | None \<Rightarrow> io_return ())) ?Q"
    if current: "os_disk_size_gib config = Some current" "\<not> gib \<le> current" for current
  proof (rule keeps_bind [where R = "\<lambda>t tr. ?K tr \<and> seen tr ?q (?ans t)"])
    show "keeps (proper machine) ?K (must (pve_call ?q ?ans (px_resize_disk api node vmid OS_DISK_KEY (show_nat gib @ ''G''))))
        (\<lambda>t tr. ?K tr \<and> seen tr ?q (?ans t))"
    proof (rule keeps_must)
      show "proper machine tr (Pve ?q a)" if "?K tr" for tr a
        using that assms(2) current by (auto simp: gib smaller_def)
    qed (use up in \<open>auto simp: upward_def seen_def\<close>)
    show "keeps (proper machine) (\<lambda>tr. ?K tr \<and> seen tr ?q (?ans t))
        (case t of Some u \<Rightarrow> wait api u TASK_TIMEOUT | None \<Rightarrow> io_return ()) ?Q" for t
    proof (cases t)
      case None
      then show ?thesis
        using current by (auto intro!: keeps_return simp: sized_def)
    next
      case (Some u)
      have "keeps (proper machine) (\<lambda>tr. ?K tr \<and> seen tr ?q (AnsweredTask u)) (wait api u TASK_TIMEOUT) ?Q"
        by (rule keeps_conseq [OF keeps_wait [where K = "\<lambda>tr. ?K tr \<and> seen tr ?q (AnsweredTask u)"]])
          (use assms(1) current in \<open>auto intro!: upwards simp: sized_def\<close>)
      with Some show ?thesis
        by simp
    qed
  qed
  have kept: "keeps (proper machine) ?K (io_return ()) ?Q" if "os_disk_size_gib config = Some current" "gib \<le> current" for current
    using that by (auto intro!: keeps_return simp: sized_def)
  show "keeps (proper machine) ?K
      (case os_disk_size_gib config of
         None \<Rightarrow> io_throw (PInvalid ''OS disk''
           (''the cloned VM has no sized '' @ OS_DISK_KEY @ ''; is the template's boot disk '' @ OS_DISK_KEY @ ''?''))
       | Some current \<Rightarrow> if gib \<le> current then io_return ()
           else io_bind (must (pve_call ?q ?ans (px_resize_disk api node vmid OS_DISK_KEY (show_nat gib @ ''G''))))
             (\<lambda>task. case task of Some u \<Rightarrow> wait api u TASK_TIMEOUT | None \<Rightarrow> io_return ())) ?Q"
    by (auto intro!: keeps_throw kept grow split: option.split)
qed

lemma keeps_configure:
  assumes "upward K" and "\<And>tr. K tr \<Longrightarrow> unsettled machine tr node vmid \<and> owned (uid_of machine) tr node vmid"
  shows "keeps (proper machine) K (configure api node vmid (ref_of machine) (pm_spec machine) nics seed)
    (\<lambda>_ tr. K tr \<and> configured tr node vmid \<and> sized tr node vmid (pms_os_disk_size_gib (pm_spec machine)))"
  unfolding configure_def
proof (rule keeps_bind [OF keeps_conseq [OF keeps_vm_config [OF assms(1)], where Q' = "\<lambda>_. K"]])
  fix existing
  let ?upload = "if seed then io_bind (upload_seed api node (ref_of machine) (pm_spec machine) nics) (\<lambda>v. io_return (Some v)) else io_return None"
  have upload: "keeps (proper machine) K ?upload (\<lambda>_. K)"
    using keeps_upload [OF assms(1), of machine node vmid] assms(2) by (auto intro!: keeps_bind keeps_return)
  have grow: "keeps (proper machine) (\<lambda>tr. K tr \<and> configured tr node vmid) (grow_os_disk api node vmid (pms_os_disk_size_gib (pm_spec machine)))
      (\<lambda>_ tr. K tr \<and> configured tr node vmid \<and> sized tr node vmid (pms_os_disk_size_gib (pm_spec machine)))"
    by (rule keeps_conseq [OF keeps_grow [where K = "\<lambda>tr. K tr \<and> configured tr node vmid"]])
      (use assms in \<open>auto intro!: upwards\<close>)
  have set: "keeps (proper machine) K (must (pve_call (ReqSetConfig node vmid ps) (\<lambda>_. Answered) (px_set_vm_config api node vmid ps)))
      (\<lambda>_ tr. K tr \<and> configured tr node vmid)" for ps
    by (rule keeps_must) (use assms in \<open>auto simp: upward_def configured_def seen_def\<close>)
  show "keeps (proper machine) K
      (io_bind ?upload (\<lambda>volid. let ps = desired_config (pm_spec machine) nics existing volid
        in io_bind (must (pve_call (ReqSetConfig node vmid ps) (\<lambda>_. Answered) (px_set_vm_config api node vmid ps)))
             (\<lambda>_. grow_os_disk api node vmid (pms_os_disk_size_gib (pm_spec machine)))))
      (\<lambda>_ tr. K tr \<and> configured tr node vmid \<and> sized tr node vmid (pms_os_disk_size_gib (pm_spec machine)))"
    unfolding Let_def by (rule keeps_bind [OF upload], rule keeps_bind [OF set], rule grow)
qed auto

subsection \<open>Power and addresses\<close>

lemma keeps_ensure_power:
  assumes "upward K" and "\<And>tr. K tr \<Longrightarrow> owned (uid_of machine) tr node vmid"
  shows "keeps (proper machine) K (ensure_power api node vmid (pms_desired_power_state (pm_spec machine)))
    (\<lambda>p tr. K tr \<and> powered tr node vmid p)"
  unfolding ensure_power_def
proof (rule keeps_bind [where R = "\<lambda>st tr. K tr \<and> running_seen tr node vmid (vm_is_running st)"])
  show "keeps (proper machine) K (must (pve_call (ReqVmStatus node vmid) AnsweredStatus (px_vm_status api node vmid)))
      (\<lambda>st tr. K tr \<and> running_seen tr node vmid (vm_is_running st))"
    by (rule keeps_must) (use assms in \<open>auto simp: upward_def seen_def running_seen_def\<close>)
next
  fix st
  let ?d = "pms_desired_power_state (pm_spec machine)"
  let ?K = "\<lambda>tr. K tr \<and> running_seen tr node vmid (vm_is_running st)"
  have up: "upward ?K"
    using assms(1) by (intro upwards)
  have start: "keeps (proper machine) ?K (io_bind (must (pve_call (ReqStart node vmid) AnsweredTask f))
      (\<lambda>u. io_bind (wait api u TASK_TIMEOUT) (\<lambda>_. io_return PoweredOn))) (\<lambda>p tr. K tr \<and> powered tr node vmid p)"
    if "?d = PoweredOn" "\<not> vm_is_running st" for f
    by (rule keeps_task_then [OF up]) (use that assms(2) in \<open>auto intro!: keeps_return simp: powered_def\<close>)
  have stop: "keeps (proper machine) ?K (io_bind (must (pve_call (ReqStop node vmid) AnsweredTask f))
      (\<lambda>u. io_bind (wait api u TASK_TIMEOUT) (\<lambda>_. io_return PoweredOff))) (\<lambda>p tr. K tr \<and> powered tr node vmid p)"
    if "?d = PoweredOff" "vm_is_running st" for f
    by (rule keeps_task_then [OF up]) (use that assms(2) in \<open>auto intro!: keeps_return simp: powered_def\<close>)
  have left: "keeps (proper machine) ?K (io_return (if vm_is_running st then PoweredOn else PoweredOff)) (\<lambda>p tr. K tr \<and> powered tr node vmid p)"
    by (auto intro!: keeps_return simp: powered_def)
  show "keeps (proper machine) ?K
      (let running = vm_is_running st
       in if ?d = PoweredOn \<and> \<not> running
          then io_bind (must (pve_call (ReqStart node vmid) AnsweredTask (px_start_vm api node vmid)))
            (\<lambda>u. io_bind (wait api u TASK_TIMEOUT) (\<lambda>_. io_return PoweredOn))
          else if ?d = PoweredOff \<and> running
          then io_bind (must (pve_call (ReqStop node vmid) AnsweredTask (px_stop_vm api node vmid)))
            (\<lambda>u. io_bind (wait api u TASK_TIMEOUT) (\<lambda>_. io_return PoweredOff))
          else io_return (if running then PoweredOn else PoweredOff)) (\<lambda>p tr. K tr \<and> powered tr node vmid p)"
    unfolding Let_def by (intro keeps_if start stop left) auto
qed

lemma keeps_observe:
  assumes "upward K"
  shows "keeps (proper machine) K (observe_addresses api node vmid spec p) (\<lambda>_. K)"
proof -
  have "keeps (proper machine) K (io_attempt (pve_call (ReqAgent node vmid) (\<lambda>_. Answered) f)) (\<lambda>_. K)" for f :: "('w, guest_interface list) pve_op"
    unfolding pve_call_def by (rule keeps_attempt_call_plain) (use assms in \<open>auto simp: upward_def\<close>)
  then show ?thesis
    by (auto simp: observe_addresses_def Let_def intro!: keeps_return keeps_bind split: sum.split)
qed

text \<open>The outcome of a pass: the machine it names is ours, configured if it had to be, and in the power state it reports.\<close>

definition outcome_seen :: "proxmox_machine \<Rightarrow> bool \<Rightarrow> pve_event list \<Rightarrow> observed \<Rightarrow> bool" where
  "outcome_seen machine configuring tr ob = (owned (uid_of machine) tr (ob_node ob) (ob_vmid ob)
     \<and> powered tr (ob_node ob) (ob_vmid ob) (ob_power ob) \<and> ob_configured ob
     \<and> (configuring \<longrightarrow> configured tr (ob_node ob) (ob_vmid ob) \<and> sized tr (ob_node ob) (ob_vmid ob) (pms_os_disk_size_gib (pm_spec machine))))"

lemma upward_outcome [upwards, simp]: "upward (\<lambda>tr. outcome_seen machine c tr ob)"
  unfolding outcome_seen_def by (intro upwards)

lemma keeps_converge_vm:
  assumes "upward K" and "\<And>tr. K tr \<Longrightarrow> owned (uid_of machine) tr node vmid"
    and "\<And>tr. K tr \<Longrightarrow> fresh \<or> c \<Longrightarrow> unsettled machine tr node vmid"
  shows "keeps (proper machine) K
    (io_bind (if fresh \<or> c then configure api node vmid (ref_of machine) (pm_spec machine) nics seed else io_return ()) (\<lambda>_.
     io_bind (ensure_power api node vmid (pms_desired_power_state (pm_spec machine))) (\<lambda>pw.
     io_bind (observe_addresses api node vmid (pm_spec machine) pw) (\<lambda>(addresses, source).
     io_return \<lparr>ob_vmid = vmid, ob_node = node, ob_power = pw, ob_configured = True,
       ob_addresses = addresses, ob_address_source = source\<rparr>))))
    (\<lambda>ob tr. K tr \<and> outcome_seen machine c tr ob)"
proof (rule keeps_bind)
  let ?L = "\<lambda>tr. c \<longrightarrow> configured tr node vmid \<and> sized tr node vmid (pms_os_disk_size_gib (pm_spec machine))"
  show "keeps (proper machine) K (if fresh \<or> c then configure api node vmid (ref_of machine) (pm_spec machine) nics seed else io_return ())
      (\<lambda>_ tr. K tr \<and> ?L tr)"
  proof (cases "fresh \<or> c")
    case True
    then show ?thesis
      using keeps_conseq [OF keeps_configure [OF assms(1), of machine node vmid api nics seed], where Q' = "\<lambda>_ tr. K tr \<and> ?L tr"] assms by auto
  qed (simp add: keeps_return)
  have up: "upward (\<lambda>tr. K tr \<and> ?L tr)" "upward (\<lambda>tr. (K tr \<and> ?L tr) \<and> powered tr node vmid p)" for p
    by (intro upwards assms(1))+
  show "keeps (proper machine) (\<lambda>tr. K tr \<and> ?L tr)
      (io_bind (ensure_power api node vmid (pms_desired_power_state (pm_spec machine))) (\<lambda>pw.
       io_bind (observe_addresses api node vmid (pm_spec machine) pw) (\<lambda>(addresses, source).
       io_return \<lparr>ob_vmid = vmid, ob_node = node, ob_power = pw, ob_configured = True,
         ob_addresses = addresses, ob_address_source = source\<rparr>)))
      (\<lambda>ob tr. K tr \<and> outcome_seen machine c tr ob)"
    by (rule keeps_bind [OF keeps_ensure_power [OF up(1)]], simp add: assms(2), rule keeps_bind [OF keeps_observe [OF up(2)]])
      (use assms(2) in \<open>auto intro!: keeps_return simp: outcome_seen_def\<close>)
qed

lemma keeps_converge:
  assumes "upward K" and "\<And>tr v n. K tr \<Longrightarrow> alloc = Existing v n \<Longrightarrow> owned (uid_of machine) tr n v"
    and "\<And>tr v. K tr \<Longrightarrow> alloc = Fresh v \<Longrightarrow> id_recorded machine tr v"
    and c: "c = needs_configure (pm_status machine) (generation_of machine)"
  shows "keeps (proper machine) K (converge sha api (ref_of machine) (pm_spec machine) alloc c)
    (\<lambda>ob tr. K tr \<and> outcome_seen machine c tr ob)"
proof -
  let ?m = "ref_of machine" and ?spec = "pm_spec machine"
  let ?nics = "effective_nics sha (pms_nics ?spec) (mr_uid ?m)"
  let ?vm = "\<lambda>(vmid, node, fresh).
     io_bind (if fresh \<or> c then configure api node vmid ?m ?spec ?nics (seed_needed ?spec ?nics) else io_return ()) (\<lambda>_.
     io_bind (ensure_power api node vmid (pms_desired_power_state ?spec)) (\<lambda>pw.
     io_bind (observe_addresses api node vmid ?spec pw) (\<lambda>(addresses, source).
     io_return \<lparr>ob_vmid = vmid, ob_node = node, ob_power = pw, ob_configured = True,
       ob_addresses = addresses, ob_address_source = source\<rparr>)))"
  let ?place = "case alloc of Existing vmid node \<Rightarrow> io_return (vmid, node, False)
     | Fresh vmid \<Rightarrow> io_bind (clone_from_template api ?m ?spec vmid) (\<lambda>_. io_return (vmid, pms_node ?spec, True))"
  let ?R = "\<lambda>(vmid, node, fresh) tr. K tr \<and> owned (uid_of machine) tr node vmid \<and> (fresh \<longrightarrow> cloned (uid_of machine) tr node vmid)"
  have place: "keeps (proper machine) K ?place ?R"
  proof (cases alloc)
    case (Existing v n)
    then show ?thesis
      using assms(2) by (auto intro!: keeps_return)
  next
    case (Fresh v)
    then have "keeps (proper machine) K (io_bind (clone_from_template api ?m ?spec v) (\<lambda>_. io_return (v, pms_node ?spec, True))) ?R"
      by (intro keeps_bind [OF keeps_clone [OF assms(1)]] keeps_return) (use assms(3) in \<open>auto simp: owned_def\<close>)
    with Fresh show ?thesis
      by simp
  qed
  have vm: "keeps (proper machine) (?R x) (?vm x) (\<lambda>ob tr. K tr \<and> outcome_seen machine c tr ob)" for x
  proof (cases x)
    case (fields vmid node fresh)
    show ?thesis
      unfolding fields prod.case
      by (rule keeps_conseq [OF keeps_converge_vm [where K = "?R (vmid, node, fresh)" and machine = machine]])
        (use assms(1) c in \<open>auto intro!: upwards simp: unsettled_def\<close>)
  qed
  have "keeps (proper machine) K (io_bind ?place ?vm) (\<lambda>ob tr. K tr \<and> outcome_seen machine c tr ob)"
    by (rule keeps_bind [OF place vm])
  then show ?thesis
    unfolding converge_def Let_def by (auto intro!: keeps_throw split: sum.split)
qed

subsection \<open>Removal\<close>

lemma keeps_remove_vm:
  assumes "upward K" and "\<And>tr. K tr \<Longrightarrow> doomed machine tr \<and> owned (uid_of machine) tr node vmid"
  shows "keeps (proper machine) K (remove_vm api node vmid) (\<lambda>_ tr. K tr \<and> removed tr (ReqDeleteVm node vmid))"
  unfolding remove_vm_def
proof (rule keeps_bind)
  let ?R = "\<lambda>st tr. K tr \<and> (case st of Some s \<Rightarrow> running_seen tr node vmid (vm_is_running s) | None \<Rightarrow> True)"
  show "keeps (proper machine) K (ignore_not_found (pve_call (ReqVmStatus node vmid) AnsweredStatus (px_vm_status api node vmid))) ?R"
    by (rule keeps_ignore) (use assms(1) in \<open>auto simp: upward_def running_seen_def seen_def\<close>)
  have stop: "keeps (proper machine) (?R st)
      (if (case st of Some s \<Rightarrow> vm_is_running s | None \<Rightarrow> False)
       then io_bind (ignore_not_found (pve_call (ReqStop node vmid) AnsweredTask f)) (await_removal api)
       else io_return ()) (\<lambda>_. K)" for st f
  proof (rule keeps_if)
    assume "case st of Some s \<Rightarrow> vm_is_running s | None \<Rightarrow> False"
    then obtain s where st: "st = Some s" "vm_is_running s"
      by (cases st) auto
    show "keeps (proper machine) (?R st) (io_bind (ignore_not_found (pve_call (ReqStop node vmid) AnsweredTask f)) (await_removal api)) (\<lambda>_. K)"
      by (rule keeps_conseq [OF keeps_removal [where K = "\<lambda>tr. K tr \<and> running_seen tr node vmid True"]])
        (use assms st in \<open>auto intro!: upwards\<close>)
  qed (auto intro: keeps_return)
  have delete: "keeps (proper machine) K (io_bind (ignore_not_found (pve_call (ReqDeleteVm node vmid) AnsweredTask f)) (await_removal api))
      (\<lambda>_ tr. K tr \<and> removed tr (ReqDeleteVm node vmid))" for f
    by (rule keeps_removal [OF assms(1)]) (use assms(2) in auto)
  show "keeps (proper machine) (?R st)
      (io_bind (if (case st of Some s \<Rightarrow> vm_is_running s | None \<Rightarrow> False)
         then io_bind (ignore_not_found (pve_call (ReqStop node vmid) AnsweredTask (px_stop_vm api node vmid))) (await_removal api)
         else io_return ()) (\<lambda>_.
       io_bind (ignore_not_found (pve_call (ReqDeleteVm node vmid) AnsweredTask (px_delete_vm api node vmid))) (await_removal api)))
      (\<lambda>_ tr. K tr \<and> removed tr (ReqDeleteVm node vmid))" for st
    by (rule keeps_bind [OF stop delete])
qed

lemma keeps_remove_seed:
  assumes "upward K" and "\<And>tr. K tr \<Longrightarrow> doomed machine tr"
    and spec: "pms_iso_storage spec = Some storage" and volid: "volid = seed_volid storage (uid_of machine)"
  shows "keeps (proper machine) K (remove_seed api node storage volid) (\<lambda>_ tr. K tr \<and> seed_gone (ref_of machine) spec tr)"
  unfolding remove_seed_def
proof (rule keeps_bind)
  let ?q = "ReqStorageContent node storage"
  let ?R = "\<lambda>vs tr. K tr \<and> (case vs of Some l \<Rightarrow> seen tr ?q (AnsweredVolumes l) | None \<Rightarrow> \<exists>e. seen tr ?q (Failed e) \<and> pve_is_not_found e)"
  let ?Q = "\<lambda>_ tr. K tr \<and> seed_gone (ref_of machine) spec tr"
  show "keeps (proper machine) K (ignore_not_found (pve_call ?q AnsweredVolumes (px_storage_content api node storage))) ?R"
    by (rule keeps_ignore) (use assms(1) in \<open>auto simp: seen_def upward_def\<close>)
  have absent: "keeps (proper machine) (?R vs) (io_return ()) ?Q" if "\<not> list_ex (\<lambda>v. vol_volid v = volid) (case vs of Some l \<Rightarrow> l | None \<Rightarrow> [])" for vs
  proof (intro keeps_return conjI)
    fix tr
    assume R: "?R vs tr"
    then show "K tr"
      by blast
    have "volid \<notin> set (map vol_volid l)" if "vs = Some l" for l
      using \<open>\<not> list_ex _ _\<close> that by (auto simp: list_ex_iff)
    with R show "seed_gone (ref_of machine) spec tr"
      unfolding seed_gone_def spec volid [symmetric] option.case by (cases vs) auto
  qed
  have delete: "keeps (proper machine) (?R vs)
      (io_bind (ignore_not_found (pve_call (ReqDeleteVolume node storage volid) AnsweredTask (px_delete_volume api node storage volid))) (await_removal api)) ?Q" for vs
    by (rule keeps_conseq [OF keeps_removal [where K = K]]) (use assms in \<open>auto simp: seed_gone_def\<close>)
  show "keeps (proper machine) (?R vs)
      (if list_ex (\<lambda>v. vol_volid v = volid) (case vs of Some l \<Rightarrow> l | None \<Rightarrow> [])
       then io_bind (ignore_not_found (pve_call (ReqDeleteVolume node storage volid) AnsweredTask (px_delete_volume api node storage volid))) (await_removal api)
       else io_return ()) ?Q" for vs
    by (intro keeps_if absent delete)
qed

lemma keeps_finalize:
  assumes "upward K" and "\<And>tr. K tr \<Longrightarrow> doomed machine tr"
  shows "keeps (proper machine) K (finalize_backend api (ref_of machine) (pm_spec machine) recorded)
    (\<lambda>_ tr. K tr \<and> backend_gone (ref_of machine) (pm_spec machine) recorded tr)"
  unfolding finalize_backend_def
proof (rule keeps_bind [OF keeps_cluster_vms [OF assms(1)]], rule keeps_bind [OF keeps_find_ours])
  fix vms target
  let ?m = "ref_of machine"
  let ?K = "\<lambda>tr. K tr \<and> seen tr ReqClusterVms (AnsweredVms vms)"
  show up: "upward ?K"
    using assms(1) by (intro upwards)
  let ?L = "\<lambda>tr. ?K tr \<and> (case target of Some v \<Rightarrow> v \<in> set (candidates vms ?m recorded) \<and> owned (uid_of machine) tr (cv_node v) (cv_vmid v)
       | None \<Rightarrow> list_all (not_ours (uid_of machine) tr) (candidates vms ?m recorded))"
  let ?G = "\<lambda>tr. K tr \<and> vm_gone ?m recorded tr"
  have vm: "keeps (proper machine) ?L
      (case target of None \<Rightarrow> io_return (pms_node (pm_spec machine))
       | Some vm \<Rightarrow> io_bind (remove_vm api (cv_node vm) (cv_vmid vm)) (\<lambda>_. io_return (cv_node vm))) (\<lambda>_. ?G)"
  proof (cases target)
    case None
    then show ?thesis
      by (auto intro!: keeps_return simp: vm_gone_def)
  next
    case (Some v)
    let ?V = "\<lambda>tr. ?K tr \<and> v \<in> set (candidates vms ?m recorded) \<and> owned (uid_of machine) tr (cv_node v) (cv_vmid v)"
    have "keeps (proper machine) ?V (io_bind (remove_vm api (cv_node v) (cv_vmid v)) (\<lambda>_. io_return (cv_node v))) (\<lambda>_. ?G)"
      by (intro keeps_bind [OF keeps_remove_vm [where K = ?V]] keeps_return upwards assms(1))
        (use assms(2) in \<open>auto simp: vm_gone_def list_ex_iff\<close>)
    with Some show ?thesis
      by simp
  qed
  have seed: "keeps (proper machine) ?G
      (case pms_iso_storage (pm_spec machine) of None \<Rightarrow> io_return ()
       | Some storage \<Rightarrow> remove_seed api node storage (seed_volid storage (mr_uid ?m)))
      (\<lambda>_ tr. K tr \<and> backend_gone ?m (pm_spec machine) recorded tr)" for node
  proof (cases "pms_iso_storage (pm_spec machine)")
    case None
    then show ?thesis
      by (auto intro!: keeps_return simp: backend_gone_def seed_gone_def)
  next
    case (Some storage)
    have "keeps (proper machine) ?G (remove_seed api node storage (seed_volid storage (mr_uid ?m)))
        (\<lambda>_ tr. K tr \<and> backend_gone ?m (pm_spec machine) recorded tr)"
      by (rule keeps_conseq [OF keeps_remove_seed [OF _ _ Some, where K = ?G]])
        (use assms in \<open>auto intro!: upwards simp: backend_gone_def\<close>)
    with Some show ?thesis
      by simp
  qed
  show "keeps (proper machine) ?L
      (io_bind (case target of None \<Rightarrow> io_return (pms_node (pm_spec machine))
         | Some vm \<Rightarrow> io_bind (remove_vm api (cv_node vm) (cv_vmid vm)) (\<lambda>_. io_return (cv_node vm)))
        (\<lambda>node. case pms_iso_storage (pm_spec machine) of None \<Rightarrow> io_return ()
           | Some storage \<Rightarrow> remove_seed api node storage (seed_volid storage (mr_uid ?m))))
      (\<lambda>_ tr. K tr \<and> backend_gone ?m (pm_spec machine) recorded tr)"
    by (rule keeps_bind [OF vm seed])
qed

subsection \<open>The whole pass\<close>

lemma keeps_patch_status:
  assumes "upward K" and "\<And>tr. K tr \<Longrightarrow> keeps_report machine st \<or> earned machine tr st"
  shows "keeps (proper machine) K (patch_status ctx ns (name_any (pm_meta machine)) st)
    (\<lambda>_ tr. K tr \<and> StatusPatch (name_any (pm_meta machine)) st None \<in> set tr)"
  unfolding patch_status_def
  by (intro keeps_err keeps_call) (use assms in \<open>auto simp: upward_def patch_event_error_def\<close>)

text \<open>A patch that may fail: if the server says that the machine is gone, the pass may remove what it made.\<close>

lemma doomed_snoc:
  assumes "is_404 e"
  shows "doomed machine (tr @ [StatusPatch n st (Some e)])" and "doomed machine (tr @ [ProviderIdPatch n i (Some e)])"
proof -
  have "StatusPatch n st (Some e) \<in> set (tr @ [StatusPatch n st (Some e)])"
    "ProviderIdPatch n i (Some e) \<in> set (tr @ [ProviderIdPatch n i (Some e)])"
    by simp_all
  with assms show "doomed machine (tr @ [StatusPatch n st (Some e)])" and "doomed machine (tr @ [ProviderIdPatch n i (Some e)])"
    unfolding doomed_def by blast+
qed

lemma keeps_try_patch:
  assumes "upward K" and "\<And>tr a. K tr \<Longrightarrow> proper machine tr (ev a)"
    and "\<And>e tr. is_404 e \<Longrightarrow> doomed machine (tr @ [ev (Some e)])"
  shows "keeps (proper machine) K (io_attempt (io_err PKube (io_call (\<lambda>r. ev (patch_event_error r)) f)))
    (\<lambda>r tr. K tr \<and> (\<forall>e. r = Inl e \<longrightarrow> is_gone e \<longrightarrow> doomed machine tr))"
proof (rule keeps_attempt_call)
  show "K (tr @ [ev (patch_event_error r)])
      \<and> (\<forall>e. map_sum PKube id r = Inl e \<longrightarrow> is_gone e \<longrightarrow> doomed machine (tr @ [ev (patch_event_error r)]))" if "K tr" for tr r
    using that assms(1,3) by (cases r) (auto simp: upward_def patch_event_error_def is_gone_def)
qed (rule assms(2))

lemma keeps_try_patch_status:
  assumes "upward K" and "\<And>tr. K tr \<Longrightarrow> keeps_report machine st \<or> earned machine tr st"
  shows "keeps (proper machine) K (io_attempt (patch_status ctx ns (name_any (pm_meta machine)) st))
    (\<lambda>r tr. K tr \<and> (\<forall>e. r = Inl e \<longrightarrow> is_gone e \<longrightarrow> doomed machine tr))"
  unfolding patch_status_def by (rule keeps_try_patch [OF assms(1)]) (use assms(2) in \<open>simp_all add: doomed_snoc\<close>)

lemma keeps_try_patch_provider_id:
  assumes "upward K" and "\<And>tr. K tr \<Longrightarrow> owned (uid_of machine) tr node vmid"
  shows "keeps (proper machine) K (io_attempt (patch_provider_id ctx ns (name_any (pm_meta machine))
      (proxmox_provider_id (lor_name (pms_provider_ref (pm_spec machine))) vmid)))
    (\<lambda>r tr. K tr \<and> (\<forall>e. r = Inl e \<longrightarrow> is_gone e \<longrightarrow> doomed machine tr))"
  unfolding patch_provider_id_def
  by (rule keeps_try_patch [OF assms(1)]) (use assms(2) in \<open>auto simp only: proper_simps report_earned.simps doomed_snoc\<close>)

text \<open>What is true of the trace when a pass returns: it waits for a change only if there is nothing of its own left to do.\<close>

definition returns_well :: "proxmox_machine \<Rightarrow> action \<Rightarrow> pve_event list \<Rightarrow> bool" where
  "returns_well machine a tr = (a = AwaitChange \<longrightarrow>
     (\<exists>recorded. backend_gone (ref_of machine) (pm_spec machine) recorded tr))"

lemma keeps_gone_or:
  assumes "upward K"
  shows "keeps (proper machine) (\<lambda>tr. K tr \<and> (is_gone e \<longrightarrow> doomed machine tr))
    (gone_or e api (ref_of machine) (pm_spec machine) vmid) (returns_well machine)"
proof -
  have "keeps (proper machine) (doomed machine) (compensate_gone api (ref_of machine) (pm_spec machine) vmid) (returns_well machine)"
    unfolding compensate_gone_def
    by (intro keeps_bind [OF keeps_finalize [where K = "doomed machine"]] keeps_return) (auto simp: returns_well_def)
  note cleanup = keeps_conseq [OF this, where K' = "\<lambda>tr. K tr \<and> (is_gone e \<longrightarrow> doomed machine tr)"]
  show ?thesis
    unfolding gone_or_def by (intro keeps_if keeps_throw cleanup) auto
qed

lemma build_status_earned:
  assumes "outcome_seen machine (needs_configure (pm_status machine) (generation_of machine)) tr ob"
  shows "earned machine tr (build_status (pm_status machine) (pm_spec machine) ob (generation_of machine) now)"
proof -
  have "ob_power ob \<noteq> Suspended"
    using assms by (auto simp: outcome_seen_def powered_def)
  then have "is_provisioned_at (pm_spec machine) ob = (ob_power ob = pms_desired_power_state (pm_spec machine))"
    using assms by (auto simp: is_provisioned_at_def outcome_seen_def split: power_state.split)
  with assms show ?thesis
    by (simp add: earned_def build_status_def outcome_seen_def Let_def)
qed

lemma failure_status_keeps: "keeps_report machine (failure_status (pm_status machine) detail g now)"
  by (simp add: keeps_report_def failure_status_def Let_def)

lemma keeps_converge_recorded:
  "keeps (proper machine) (\<lambda>_. True)
    (converge_recorded ctx api ns (name_any (pm_meta machine)) (ref_of machine) machine (recorded_vmid machine) (generation_of machine))
    (\<lambda>ob tr. outcome_seen machine (needs_configure (pm_status machine) (generation_of machine)) tr ob)"
  unfolding converge_recorded_def
proof (rule keeps_bind [OF keeps_allocate [where K = "\<lambda>_. True"]])
  fix alloc
  let ?K = "\<lambda>tr. True \<and> (\<forall>v n. alloc = Existing v n \<longrightarrow> owned (uid_of machine) tr n v)"
  let ?L = "\<lambda>tr. ?K tr \<and> (\<forall>v. alloc = Fresh v \<longrightarrow> id_recorded machine tr v)"
  have up: "upward ?K" "upward ?L"
    by (intro upwards)+
  have recording: "keeps (proper machine) ?K
      (case alloc of Fresh vmid \<Rightarrow> if recorded_vmid machine \<noteq> Some vmid
           then patch_status ctx ns (name_any (pm_meta machine))
             ((pve_status_or_default (pm_status machine))\<lparr>pmst_vmid := Some vmid, pmst_node := Some (pms_node (pm_spec machine))\<rparr>)
           else io_return ()
       | Existing _ _ \<Rightarrow> io_return ()) (\<lambda>_. ?L)"
  proof (cases alloc)
    case (Fresh v)
    then show ?thesis
      by (simp, intro impI conjI keeps_return keeps_conseq [OF keeps_patch_status [where K = "\<lambda>_. True"]])
        (auto simp: keeps_report_def id_recorded_def intro!: upwards exI)
  qed (simp add: keeps_return)
  show "keeps (proper machine) ?K
      (io_bind (case alloc of Fresh vmid \<Rightarrow> if recorded_vmid machine \<noteq> Some vmid
           then patch_status ctx ns (name_any (pm_meta machine))
             ((pve_status_or_default (pm_status machine))\<lparr>pmst_vmid := Some vmid, pmst_node := Some (pms_node (pm_spec machine))\<rparr>)
           else io_return ()
         | Existing _ _ \<Rightarrow> io_return ())
       (\<lambda>_. converge (pxc_sha256 ctx) api (ref_of machine) (pm_spec machine) alloc (needs_configure (pm_status machine) (generation_of machine))))
      (\<lambda>ob tr. outcome_seen machine (needs_configure (pm_status machine) (generation_of machine)) tr ob)"
    by (rule keeps_bind [OF recording], rule keeps_conseq [OF keeps_converge [OF up(2)]]) auto
qed (rule upward_const)

lemma keeps_report_outcome:
  "keeps (proper machine) (\<lambda>tr. \<forall>ob. outcome = Inr ob \<longrightarrow> outcome_seen machine (needs_configure (pm_status machine) (generation_of machine)) tr ob)
    (report ctx api ns (name_any (pm_meta machine)) (ref_of machine) machine recorded (generation_of machine) outcome) (returns_well machine)"
proof (cases outcome)
  case (Inl e)
  have "keeps (proper machine) (\<lambda>_. True)
      (io_bind (io_now (pxc_clock ctx)) (\<lambda>now.
       io_bind (io_attempt (patch_status ctx ns (name_any (pm_meta machine)) (failure_status (pm_status machine) (prov_error_text e) (generation_of machine) now)))
         (\<lambda>r. case r of Inl e2 \<Rightarrow> gone_or e2 api (ref_of machine) (pm_spec machine) recorded | Inr _ \<Rightarrow> io_return requeue_on_error)))
      (returns_well machine)"
  proof (rule keeps_bind [OF keeps_now [where Q = "\<lambda>_ _. True"]], simp, rule keeps_bind [OF keeps_try_patch_status [where K = "\<lambda>_. True"]])
    show "keeps (proper machine) (\<lambda>tr. True \<and> (\<forall>e. r = Inl e \<longrightarrow> is_gone e \<longrightarrow> doomed machine tr))
        (case r of Inl e2 \<Rightarrow> gone_or e2 api (ref_of machine) (pm_spec machine) recorded | Inr _ \<Rightarrow> io_return requeue_on_error) (returns_well machine)" for r :: "(prov_error, unit) result"
      by (cases r) (auto intro!: keeps_return keeps_conseq [OF keeps_gone_or [where K = "\<lambda>_. True"]] simp: returns_well_def requeue_on_error_def upward_const)
  qed (auto intro!: upwards failure_status_keeps)
  with Inl show ?thesis
    by (simp add: report_def)
next
  case (Inr ob)
  let ?K = "\<lambda>tr. outcome_seen machine (needs_configure (pm_status machine) (generation_of machine)) tr ob"
  let ?id = "proxmox_provider_id (lor_name (pms_provider_ref (pm_spec machine))) (ob_vmid ob)"
  let ?gone = "\<lambda>r :: (prov_error, unit) result. \<lambda>tr. ?K tr \<and> (\<forall>e. r = Inl e \<longrightarrow> is_gone e \<longrightarrow> doomed machine tr)"
  have name: "keeps (proper machine) ?K (if pms_provider_id (pm_spec machine) \<noteq> Some ?id
      then io_attempt (patch_provider_id ctx ns (name_any (pm_meta machine)) ?id) else io_return (Inr ())) ?gone"
    by (intro keeps_if keeps_try_patch_provider_id keeps_return) (auto simp: outcome_seen_def intro!: upwards)
  have gone: "keeps (proper machine) (?gone (Inl e)) (gone_or e api (ref_of machine) (pm_spec machine) v) (returns_well machine)" for e v
    by (rule keeps_conseq [OF keeps_gone_or [where K = ?K]]) auto
  have status: "keeps (proper machine) ?K
      (io_bind (io_now (pxc_clock ctx)) (\<lambda>now.
       io_bind (io_attempt (patch_status ctx ns (name_any (pm_meta machine)) (build_status (pm_status machine) (pm_spec machine) ob (generation_of machine) now)))
         (\<lambda>r. case r of Inl e \<Rightarrow> gone_or e api (ref_of machine) (pm_spec machine) (Some (ob_vmid ob))
           | Inr _ \<Rightarrow> io_return (if poll_soon (pm_spec machine) ob then requeue_default else requeue_long))))
      (returns_well machine)"
  proof (rule keeps_bind [OF keeps_now [where Q = "\<lambda>_. ?K"]], simp, rule keeps_bind [OF keeps_try_patch_status [where K = ?K]])
    show "keeps (proper machine) (?gone r)
        (case r of Inl e \<Rightarrow> gone_or e api (ref_of machine) (pm_spec machine) (Some (ob_vmid ob))
           | Inr _ \<Rightarrow> io_return (if poll_soon (pm_spec machine) ob then requeue_default else requeue_long)) (returns_well machine)" for r
      using gone by (cases r) (auto intro!: keeps_return simp: returns_well_def requeue_default_def requeue_long_def)
  qed (auto intro!: upwards dest: build_status_earned)
  have "keeps (proper machine) (?gone r)
      (case r of Inl e \<Rightarrow> gone_or e api (ref_of machine) (pm_spec machine) (Some (ob_vmid ob))
       | Inr _ \<Rightarrow> io_bind (io_now (pxc_clock ctx)) (\<lambda>now.
           io_bind (io_attempt (patch_status ctx ns (name_any (pm_meta machine)) (build_status (pm_status machine) (pm_spec machine) ob (generation_of machine) now)))
             (\<lambda>r. case r of Inl e \<Rightarrow> gone_or e api (ref_of machine) (pm_spec machine) (Some (ob_vmid ob))
               | Inr _ \<Rightarrow> io_return (if poll_soon (pm_spec machine) ob then requeue_default else requeue_long))))
      (returns_well machine)" for r
    using gone keeps_conseq [OF status, where K' = "?gone r"] by (cases r) auto
  from keeps_bind [OF name this] Inr show ?thesis
    by (simp add: report_def Let_def)
qed

lemma emits_credentials:
  assumes "\<And>n r. A (KubeEv (Event KSecret n Get r))" "\<And>n r. A (KubeEv (Event KConfigMap n Get r))"
  shows "emits A (credentials_resolve client ns provider)"
proof -
  have ca: "emits (\<lambda>e. A (KubeEv e)) (resolve_ca_bundle client ns source)" for source
    unfolding resolve_ca_bundle_def read_config_map_key_def read_secret_key_def
    by (auto intro!: emits_bind emits_err emits_calls assms split: sum.split ca_bundle_plan.split option.split)
  show ?thesis
    unfolding credentials_resolve_def kube_def of_result_def
    by (auto intro!: emits_bind emits_err emits_lift emits_calls ca assms split: option.split sum.split)
qed

lemma finalizer_dropped_only_by_patch [simp]:
  "\<not> drops_pve_finalizer (Event k n Get r)" "drops_pve_finalizer (Event KProxmoxMachine n (MergePatch (MergeFinalizers fs)) r) = (MACHINE_FINALIZER \<notin> set fs)"
  by (auto simp: drops_pve_finalizer_def)

text \<open>The pass as a whole keeps every rule of the protocol.\<close>

definition pass_ends :: "'w pve_ctx \<Rightarrow> proxmox_machine \<Rightarrow> action \<Rightarrow> pve_event list \<Rightarrow> bool" where
  "pass_ends ctx machine a tr = (\<not> serves (pxc_provider_name ctx) (lor_name (pms_provider_ref (pm_spec machine))) \<and> tr = []
     \<or> returns_well machine a tr)"

lemma keeps_deletion:
  assumes "om_deletion_timestamp (pm_meta machine) \<noteq> None"
  shows "keeps (proper machine) (\<lambda>_. True)
    (io_bind (finalize_backend api (ref_of machine) (pm_spec machine) (recorded_vmid machine)) (\<lambda>_.
     io_bind (kube PSdk (remove_finalizer (machine_api ctx ns) (pm_meta machine) MACHINE_FINALIZER)) (\<lambda>_.
     io_return requeue_default))) (returns_well machine)"
proof (rule keeps_bind [OF keeps_finalize [where K = "\<lambda>_. True"]])
  let ?K = "\<lambda>tr. True \<and> backend_gone (ref_of machine) (pm_spec machine) (recorded_vmid machine) tr"
  have "keeps (proper machine) ?K (kube PSdk (remove_finalizer (machine_api ctx ns) (pm_meta machine) MACHINE_FINALIZER)) (\<lambda>_. ?K)"
    unfolding kube_def
    by (rule keeps_emits [where A = "\<lambda>e. \<exists>ev. e = KubeEv ev"])
      (use assms in \<open>auto intro!: emits_err emits_lift emits_remove_finalizer upwards\<close>)
  then show "keeps (proper machine) ?K (io_bind (kube PSdk (remove_finalizer (machine_api ctx ns) (pm_meta machine) MACHINE_FINALIZER)) (\<lambda>_.
     io_return requeue_default)) (returns_well machine)"
    by (rule keeps_bind) (auto intro!: keeps_return simp: returns_well_def requeue_default_def)
qed (use assms in \<open>auto simp: doomed_def intro!: upwards\<close>)

lemma keeps_reconcile: "keeps (proper machine) (\<lambda>tr. tr = []) (reconcile_proxmox ctx machine) (pass_ends ctx machine)"
proof (cases "om_namespace (pm_meta machine)")
  case None
  then show ?thesis
    by (simp add: reconcile_proxmox_def keeps_throw)
next
  case (Some ns)
  note ns = this
  show ?thesis
  proof (cases "om_uid (pm_meta machine)")
    case None
    with ns show ?thesis
      by (simp add: reconcile_proxmox_def keeps_throw)
  next
    case (Some uid)
    have m: "\<lparr>mr_name = name_any (pm_meta machine), mr_uid = uid\<rparr> = ref_of machine"
      using Some by (simp add: ref_of_def)
    let ?quiet = "\<lambda>e. \<exists>ev. e = KubeEv ev \<and> \<not> drops_pve_finalizer ev"
    have quiet: "keeps (proper machine) (\<lambda>_. True) n (\<lambda>_ _. True)" if "emits ?quiet n" for n :: "('w, 'z) px"
      by (rule keeps_emits [OF that]) (auto intro: upwards)
    have get: "keeps (proper machine) (\<lambda>_. True) (kube PKube (kget ((cl_providers (pxc_client ctx) ns)\<lparr>api_kind := KProvider\<rparr>) n)) (\<lambda>_ _. True)" for n
      unfolding kube_def by (intro quiet emits_err emits_lift emits_calls) simp
    have creds: "keeps (proper machine) (\<lambda>_. True) (credentials_resolve (pxc_client ctx) ns provider) (\<lambda>_ _. True)" for provider
      by (intro quiet emits_credentials) simp_all
    have keep: "keeps (proper machine) (\<lambda>_. True) (kube PSdk (ensure_finalizer (machine_api ctx ns) (pm_meta machine) MACHINE_FINALIZER)) (\<lambda>_ _. True)"
      unfolding kube_def by (intro quiet emits_err emits_lift emits_ensure_finalizer_with) (simp add: machine_api_def)
    have attempt: "keeps (proper machine) (\<lambda>_. True) (io_attempt (converge_recorded ctx api ns (name_any (pm_meta machine)) (ref_of machine) machine
          (recorded_vmid machine) (generation_of machine)))
        (\<lambda>r tr. \<forall>ob. r = Inr ob \<longrightarrow> outcome_seen machine (needs_configure (pm_status machine) (generation_of machine)) tr ob)" for api
      by (rule keeps_conseq [OF keeps_attempt [OF keeps_converge_recorded]]) (auto intro: upwards)
    note pass = keeps_bind [OF get keeps_bind [OF creds keeps_bind [OF keeps_quiet [where Q = "\<lambda>_ _. True"]
        keeps_if [OF keeps_deletion keeps_bind [OF keep keeps_bind [OF attempt keeps_report_outcome]]]]]]
    show ?thesis
      unfolding reconcile_proxmox_def ns Some option.case Let_def m
      by (rule keeps_if, rule keeps_return, simp add: pass_ends_def, rule keeps_conseq [where K = "\<lambda>_. True", OF pass])
        (auto simp: pass_ends_def)
  qed
qed

subsection \<open>Properties\<close>

text \<open>
  (C1) Foreign machines are never touched: whatever Proxmox and the API server answer, a pass configures, resizes,
  starts, stops or deletes a virtual machine only after reading this machine's ownership marker in its description,
  or after cloning it under that marker; it clones only a template, and uploads and deletes only its own seed image.
\<close>

theorem foreign_vm_untouched: "guarded (acts_on_own machine) (trace_of (reconcile_proxmox ctx machine) w)"
  using keeps_trace(1) [OF keeps_reconcile] by (rule guarded_mono) (simp add: proper_def)

text \<open>
  (C2) The finalizer comes off last: it is removed only from a machine that is being deleted, and only after the
  pass has listed the cluster, found that no candidate carries the marker or seen the deletion of the one that
  does finish or find nothing, and done the same for the seed image.
\<close>

theorem pve_finalizer_dropped_last: "guarded (released_last machine) (trace_of (reconcile_proxmox ctx machine) w)"
  using keeps_trace(1) [OF keeps_reconcile] by (rule guarded_mono) (simp add: proper_def)

text \<open>
  (C3) A machine is disturbed only for a reason: configuration, seed and disk size are sent only for a generation
  that no pass has completed or a fresh clone; the disk is only ever grown, to the size asked for, after reading that
  it is smaller; a start or stop follows a read of the opposite state; and nothing is deleted unless the machine is
  being deleted or the API server has said that it no longer exists.
\<close>

theorem machine_disturbed_only_for_reason: "guarded (acts_for_reason machine) (trace_of (reconcile_proxmox ctx machine) w)"
  using keeps_trace(1) [OF keeps_reconcile] by (rule guarded_mono) (simp add: proper_def)

text \<open>
  (C4) A crash cannot lose a clone: before a template is cloned, the number of the new machine is in the recorded
  status, or the API server has accepted a status that records it.
\<close>

theorem clone_recorded_first: "guarded (clone_recorded machine) (trace_of (reconcile_proxmox ctx machine) w)"
  using keeps_trace(1) [OF keeps_reconcile] by (rule guarded_mono) (simp add: proper_def)




subsection \<open>A run\<close>

text \<open>A machine that is deleted while a pass is running: the API server answers every status with 404.\<close>

definition demo_pve_machine :: proxmox_machine where
  "demo_pve_machine = \<lparr>pm_meta = (demo_meta ''web'' [])\<lparr>om_uid := Some ''u-1'', om_generation := Some 1, om_finalizers := Some [MACHINE_FINALIZER]\<rparr>,
     pm_spec = \<lparr>pms_provider_id = None, pms_failure_domain = None, pms_provider_ref = \<lparr>lor_name = ''prov''\<rparr>, pms_node = ''pve1'',
       pms_template_vmid = 9000, pms_storage = ''lvm'', pms_pool = None, pms_cores = 2, pms_sockets = 1, pms_memory_mib = 2048,
       pms_cpu_type = None, pms_firmware = Bios, pms_tpm_enabled = False, pms_os_disk_size_gib = 20, pms_data_disks = [], pms_nics = [],
       pms_iso_storage = None, pms_user_data = None, pms_desired_power_state = PoweredOn\<rparr>,
     pm_status = None\<rparr>"

definition demo_pve_provider :: provider where
  "demo_pve_provider = (let p = demo_provider []
     in p\<lparr>p_spec := (p_spec p)\<lparr>prs_connection := (prs_connection (p_spec p))\<lparr>pc_credentials_ref := Some \<lparr>lor_name = ''creds''\<rparr>\<rparr>\<rparr>\<rparr>)"

definition demo_pve_secret :: secret where
  "demo_pve_secret = \<lparr>sec_data = Some [(''tokenValue'', as_bytes ''t0ken''), (''username'', as_bytes ''ban@pve!ci'')]\<rparr>"

definition demo_pve_ctx :: "(kube_error, unit) result \<Rightarrow> nat pve_ctx" where
  "demo_pve_ctx answer = \<lparr>pxc_client = (fixed_client [] [] [] [demo_pve_provider] [] [])\<lparr>cl_secrets := (\<lambda>_. fixed_api KSecret [demo_pve_secret])\<rparr>,
     pxc_namespace = None, pxc_build = (\<lambda>_ _ w. (Inr stuck_pve, w)), pxc_provider_name = None, pxc_clock = (\<lambda>w. (0, w)),
     pxc_sha256 = (\<lambda>_. replicate 32 0), pxc_patch_status = (\<lambda>_ _ _ w. (answer, w)), pxc_patch_provider_id = (\<lambda>_ _ _ w. (answer, w)),
     pxc_patch_provider_status = (\<lambda>_ _ _ w. (answer, w)), pxc_patch_image_status = (\<lambda>_ _ _ w. (answer, w)),
     pxc_all_providers = fixed_api KProvider [demo_pve_provider]\<rparr>"



end
