(* ===== verification/Proxmox_Provider.thy ===== *)
theory Proxmox_Provider
  imports Proxmox_Safety Migration Infra_Build
begin

section \<open>The Proxmox provider and image reconcilers\<close>

text \<open>
  Model of \<^verbatim>\<open>crates/banlieue-provider-proxmox/src/reconciler/provider.rs\<close> (failure domains of a cluster) and
  \<^verbatim>\<open>reconciler/image.rs\<close> (the template behind an image), and how they meet the scheduler, the builder of
  machines and the clone of \<^theory_text>\<open>Proxmox_Machine\<close>.
\<close>

subsection \<open>Capabilities\<close>

definition PVE_CLASS_NAME :: string where "PVE_CLASS_NAME = ''proxmox''"
definition PVE_TARGET_KEY_STORAGE :: string where "PVE_TARGET_KEY_STORAGE = ''storage''"
definition PVE_TARGET_KEY_BRIDGE :: string where "PVE_TARGET_KEY_BRIDGE = ''bridge''"
definition SEED_STORAGE_CLASS :: string where "SEED_STORAGE_CLASS = ''seed-iso''"
definition CONTENT_IMAGES :: string where "CONTENT_IMAGES = ''images''"
definition CONTENT_ISO :: string where "CONTENT_ISO = ''iso''"
definition RAW_KEY_NODE :: string where "RAW_KEY_NODE = ''node''"

definition failure_reason :: "prov_error \<Rightarrow> string" where
  "failure_reason e = (case e of
     PMissing _ \<Rightarrow> ''CredentialsUnavailable''
   | PProxmox p \<Rightarrow> if pve_is_unauthorized p then ''Unauthorized'' else ''ConnectFailed''
   | _ \<Rightarrow> ''ConnectFailed'')"

datatype cap_check = CapAvailable | CapProblem string

definition storage_check :: "string \<Rightarrow> string option \<Rightarrow> pve_storage list \<Rightarrow> cap_check" where
  "storage_check cls target storages = (case target of
     None \<Rightarrow> CapProblem (''storageClass '' @ cls @ '': no `'' @ PVE_TARGET_KEY_STORAGE @ ''` target declared'')
   | Some i \<Rightarrow>
       (let need = (if cls = SEED_STORAGE_CLASS then CONTENT_ISO else CONTENT_IMAGES)
        in case find (\<lambda>s. ps_storage s = i) storages of
             None \<Rightarrow> CapProblem (''storageClass '' @ cls @ '': storage '' @ quoted i @ '' not found'')
           | Some storage \<Rightarrow>
               if \<not> ps_enabled storage \<or> \<not> ps_active storage
               then CapProblem (''storageClass '' @ cls @ '': storage '' @ quoted i @ '' is disabled or inactive'')
               else if \<not> has_content storage need
               then CapProblem (''storageClass '' @ cls @ '': storage '' @ quoted i @ '' does not allow '' @ need @ '' content'')
               else CapAvailable))"

definition network_check :: "string \<Rightarrow> string option \<Rightarrow> network_iface list \<Rightarrow> cap_check" where
  "network_check cls target nets = (case target of
     None \<Rightarrow> CapProblem (''networkClass '' @ cls @ '': no `'' @ PVE_TARGET_KEY_BRIDGE @ ''` target declared'')
   | Some bridge \<Rightarrow>
       if list_ex (\<lambda>n. ni_iface n = bridge \<and> is_bridge n) nets then CapAvailable
       else CapProblem (''networkClass '' @ cls @ '': bridge '' @ quoted bridge @ '' not found''))"

text \<open>\<^verbatim>\<open>entry(class).or_default().push(why)\<close> of a \<^verbatim>\<open>BTreeMap\<close>.\<close>

type_synonym reason_map = "(string \<times> string list) list"

fun reason_push :: "string \<Rightarrow> string \<Rightarrow> reason_map \<Rightarrow> reason_map" where
  "reason_push k v [] = [(k, [v])]"
| "reason_push k v ((k', vs) # m) =
     (if k < k' then (k, [v]) # (k', vs) # m
      else if k = k' then (k', vs @ [v]) # m
      else (k', vs) # reason_push k v m)"

text \<open>The loop over the declared classes of one kind, on one node: usable here, usable anywhere, and reasons.\<close>

definition class_step :: "string \<Rightarrow> string \<times> cap_check \<Rightarrow> string list \<times> string list \<times> reason_map \<Rightarrow> string list \<times> string list \<times> reason_map" where
  "class_step node c s = (case (c, s) of ((cls, check), (avail, ok, reasons)) \<Rightarrow>
     (case check of
        CapAvailable \<Rightarrow> (avail @ [cls], ok @ [cls], reasons)
      | CapProblem why \<Rightarrow> (avail, ok, reason_push cls (why @ '' on node '' @ node) reasons)))"

definition storage_checks :: "provider \<Rightarrow> pve_storage list \<Rightarrow> (string \<times> cap_check) list" where
  "storage_checks p storages =
     map (\<lambda>c. (scm_name c, storage_check (scm_name c) (Option.bind (storage_target_for c [] []) (\<lambda>t. map_of t PVE_TARGET_KEY_STORAGE)) storages))
       (pcap_storage_classes (prs_capabilities (p_spec p)))"

definition network_checks :: "provider \<Rightarrow> network_iface list \<Rightarrow> (string \<times> cap_check) list" where
  "network_checks p nets =
     map (\<lambda>c. (ncm_name c, network_check (ncm_name c) (Option.bind (network_target_for c [] []) (\<lambda>t. map_of t PVE_TARGET_KEY_BRIDGE)) nets))
       (pcap_network_classes (prs_capabilities (p_spec p)))"

definition node_domain :: "provider \<Rightarrow> pve_version \<Rightarrow> string \<Rightarrow> string list \<Rightarrow> string list \<Rightarrow> failure_domain" where
  "node_domain p version node avail_storage avail_network =
     (let name = name_any (p_meta p) @ ''-'' @ node
      in \<lparr>fd_name = name,
          fd_labels = bt_insert ''name'' name (case om_labels (p_meta p) of Some ls \<Rightarrow> ls | None \<Rightarrow> []),
          fd_attributes = \<lparr>fda_available_storage_classes = avail_storage, fda_available_network_classes = avail_network,
            fda_features = pcap_features (prs_capabilities (p_spec p)),
            fda_raw = bt_insert ''endpoint'' (pc_endpoint (prs_connection (p_spec p)))
              (bt_insert ''version'' (pv_version version) (bt_insert RAW_KEY_NODE node [])),
            fda_capacity = None\<rparr>\<rparr>)"

record probe =
  pb_domains :: "failure_domain list"
  pb_storage_ok :: "string list"
  pb_network_ok :: "string list"
  pb_storage_reasons :: reason_map
  pb_network_reasons :: reason_map

definition probe_node :: "provider \<Rightarrow> pve_version \<Rightarrow> string \<Rightarrow> pve_storage list \<Rightarrow> network_iface list \<Rightarrow> probe \<Rightarrow> probe" where
  "probe_node p version node storages nets pb =
     (case fold (class_step node) (storage_checks p storages) ([], pb_storage_ok pb, pb_storage_reasons pb) of (avail_storage, sok, sreasons) \<Rightarrow>
     (case fold (class_step node) (network_checks p nets) ([], pb_network_ok pb, pb_network_reasons pb) of (avail_network, nok, nreasons) \<Rightarrow>
        \<lparr>pb_domains = pb_domains pb @ [node_domain p version node avail_storage avail_network],
         pb_storage_ok = sok, pb_network_ok = nok, pb_storage_reasons = sreasons, pb_network_reasons = nreasons\<rparr>))"

fun probe_nodes :: "'w pve \<Rightarrow> provider \<Rightarrow> pve_version \<Rightarrow> pve_node list \<Rightarrow> probe \<Rightarrow> ('w, probe) px" where
  "probe_nodes api p version [] pb = io_return pb"
| "probe_nodes api p version (n # nodes) pb =
     io_bind (must (pve_call (ReqNodeStorage (pn_node n)) AnsweredStorages (px_node_storage api (pn_node n)))) (\<lambda>storages.
     io_bind (must (pve_call (ReqNodeNetworks (pn_node n)) AnsweredNetworks (px_node_networks api (pn_node n)))) (\<lambda>nets.
     probe_nodes api p version nodes (probe_node p version (pn_node n) storages nets pb)))"

text \<open>The first reason of every class that is usable on no node.\<close>

definition class_problems :: "string list \<Rightarrow> reason_map \<Rightarrow> string list" where
  "class_problems ok reasons =
     map (\<lambda>(_, why). case why of w # _ \<Rightarrow> w | [] \<Rightarrow> []) (filter (\<lambda>(cls, _). cls \<notin> set ok) reasons)"

definition probe_problems :: "probe \<Rightarrow> string list" where
  "probe_problems pb = class_problems (pb_storage_ok pb) (pb_storage_reasons pb) @ class_problems (pb_network_ok pb) (pb_network_reasons pb)"

definition ready_condition :: "string list \<Rightarrow> condition list \<Rightarrow> int \<Rightarrow> timestamp \<Rightarrow> condition list" where
  "ready_condition problems cs generation now =
     (if problems = []
      then set_condition cs ''Ready'' TRUE ''Reconciled'' ''all declared capabilities are usable'' generation now
      else set_condition cs ''Ready'' FALSE ''CapabilitiesIncomplete'' (''declared but not usable: '' @ join_with ''; '' problems) generation now)"

definition compute_status :: "('w \<Rightarrow> timestamp \<times> 'w) \<Rightarrow> 'w pve \<Rightarrow> provider \<Rightarrow> int \<Rightarrow> ('w, provider_status) px" where
  "compute_status clock api p generation =
     io_bind (must (pve_call ReqVersion AnsweredVersion (px_version api))) (\<lambda>version.
     io_bind (must (pve_call ReqNodes AnsweredNodes (px_list_nodes api))) (\<lambda>listed.
     let nodes = filter is_online listed
     in if nodes = [] then io_throw (PInvalid ''cluster'' ''no online node'')
        else io_bind (probe_nodes api p version nodes \<lparr>pb_domains = [], pb_storage_ok = [], pb_network_ok = [], pb_storage_reasons = [], pb_network_reasons = []\<rparr>) (\<lambda>pb.
        io_bind (io_now clock) (\<lambda>now1. io_bind (io_now clock) (\<lambda>now2.
        io_return \<lparr>pst_failure_domains = pb_domains pb,
          pst_conditions = ready_condition (probe_problems pb)
            (set_condition [] ''ProviderReachable'' TRUE ''Reconciled''
              (''connected to Proxmox VE '' @ pv_version version @ ''; '' @ show_nat (length nodes) @ '' online node(s)'') generation now1)
            generation now2,
          pst_workload = None, pst_ek_ca_certificates = [], pst_observed_generation = Some generation\<rparr>)))))"

definition failed_status :: "int \<Rightarrow> string \<Rightarrow> string \<Rightarrow> timestamp \<Rightarrow> timestamp \<Rightarrow> provider_status" where
  "failed_status generation reason message now1 now2 =
     \<lparr>pst_failure_domains = [],
      pst_conditions = set_condition (set_condition [] ''ProviderReachable'' FALSE reason message generation now1)
        ''Ready'' FALSE reason message generation now2,
      pst_workload = None, pst_ek_ca_certificates = [], pst_observed_generation = Some generation\<rparr>"

definition patch_provider_status :: "'w pve_ctx \<Rightarrow> string \<Rightarrow> string \<Rightarrow> provider_status \<Rightarrow> ('w, unit) px" where
  "patch_provider_status ctx name ns st =
     io_err PKube (io_call (\<lambda>r. ProviderStatusPatch name st (patch_event_error r)) (pxc_patch_provider_status ctx ns name st))"

definition reconcile_pve_provider :: "'w pve_ctx \<Rightarrow> provider \<Rightarrow> ('w, action) px" where
  "reconcile_pve_provider ctx p =
     (let name = name_any (p_meta p);
          ns = (case om_namespace (p_meta p) of Some n \<Rightarrow> n | None \<Rightarrow> []);
          generation = (case om_generation (p_meta p) of Some g \<Rightarrow> g | None \<Rightarrow> 0)
      in if lor_name (prs_provider_class_ref (p_spec p)) \<noteq> PVE_CLASS_NAME \<or> prs_paused (p_spec p) then io_return requeue_long
         else io_bind (io_attempt
              (io_bind (credentials_resolve (pxc_client ctx) ns p) (\<lambda>creds.
               io_bind (io_quiet (pxc_build ctx (prs_connection (p_spec p)) creds)) (\<lambda>api.
               compute_status (pxc_clock ctx) api p generation)))) (\<lambda>outcome. case outcome of
           Inr st \<Rightarrow> io_bind (patch_provider_status ctx name ns st) (\<lambda>_. io_return requeue_default)
         | Inl e \<Rightarrow>
             io_bind (io_now (pxc_clock ctx)) (\<lambda>now1. io_bind (io_now (pxc_clock ctx)) (\<lambda>now2.
             io_bind (patch_provider_status ctx name ns (failed_status generation (failure_reason e) (prov_error_text e) now1 now2))
               (\<lambda>_. io_return requeue_on_error)))))"

subsection \<open>Images\<close>

definition find_proxmox_source :: "image_source list \<Rightarrow> image_source option" where
  "find_proxmox_source sources = find (\<lambda>s. iso_provider_class s = PVE_CLASS_NAME) sources"

definition api_failure_reason :: "pve_error \<Rightarrow> string" where
  "api_failure_reason e = (if pve_is_unauthorized e then ''Unauthorized'' else ''ConnectFailed'')"

definition failure_row :: "provider \<Rightarrow> string \<Rightarrow> string \<Rightarrow> image_per_provider_status" where
  "failure_row p reason message = \<lparr>ipp_provider_name = name_any (p_meta p),
     ipp_provider_namespace = (case om_namespace (p_meta p) of Some n \<Rightarrow> n | None \<Rightarrow> []), ipp_ready = False,
     ipp_resolved_ref = None, ipp_reason = Some reason, ipp_message = Some message, ipp_zones = []\<rparr>"

definition row_for :: "'w pve \<Rightarrow> provider \<Rightarrow> image_source \<Rightarrow> ('w, image_per_provider_status) px" where
  "row_for api p source =
     (if iso_kind source \<noteq> Template
      then io_return (failure_row p ''UnsupportedSourceKind'' ''Proxmox supports Template sources only (a template VMID)'')
      else case parse_u32 (trim (iso_reference source)) of
        Inl _ \<Rightarrow> io_return (failure_row p ''InvalidRef'' (''ref '' @ debug_str (iso_reference source) @ '' is not a template VMID''))
      | Inr vmid \<Rightarrow>
          io_bind (io_attempt (pve_call ReqClusterVms AnsweredVms (px_cluster_vms api))) (\<lambda>r. case r of
            Inl e \<Rightarrow> io_return (failure_row p (api_failure_reason e) (pve_error_text e))
          | Inr vms \<Rightarrow> (case find (\<lambda>v. cv_vmid v = vmid \<and> (cv_kind v = [] \<or> cv_kind v = KIND_QEMU)) vms of
              None \<Rightarrow> io_return (failure_row p ''TemplateNotFound'' (''no VM with VMID '' @ show_nat vmid))
            | Some vm \<Rightarrow>
                if \<not> cv_template vm
                then io_return (failure_row p ''NotATemplate'' (''VMID '' @ show_nat vmid @ '' is not a template; convert it before use''))
                else io_return \<lparr>ipp_provider_name = name_any (p_meta p),
                  ipp_provider_namespace = (case om_namespace (p_meta p) of Some n \<Rightarrow> n | None \<Rightarrow> []), ipp_ready = True,
                  ipp_resolved_ref = Some (show_nat vmid), ipp_reason = Some ''Reconciled'', ipp_message = None, ipp_zones = []\<rparr>)))"

definition row_for_provider :: "'w pve_ctx \<Rightarrow> image_source \<Rightarrow> provider \<Rightarrow> ('w, image_per_provider_status) px" where
  "row_for_provider ctx source p =
     (let ns = (case om_namespace (p_meta p) of Some n \<Rightarrow> n | None \<Rightarrow> [])
      in io_bind (io_attempt (credentials_resolve (pxc_client ctx) ns p)) (\<lambda>r. case r of
           Inl e \<Rightarrow> io_return (failure_row p ''SecretUnavailable'' (prov_error_text e))
         | Inr creds \<Rightarrow>
             io_bind (io_attempt (io_quiet (pxc_build ctx (prs_connection (p_spec p)) creds))) (\<lambda>r. case r of
               Inl e \<Rightarrow> io_return (failure_row p ''ConnectFailed'' (prov_error_text e))
             | Inr api \<Rightarrow> row_for api p source)))"

definition list_pve_providers :: "'w pve_ctx \<Rightarrow> ('w, provider list) px" where
  "list_pve_providers ctx =
     io_bind (kube PKube (klist ((case pxc_namespace ctx of Some ns \<Rightarrow> cl_providers (pxc_client ctx) ns | None \<Rightarrow> pxc_all_providers ctx)\<lparr>api_kind := KProvider\<rparr>) None))
     (\<lambda>all. io_return (providers_in_scope (filter (\<lambda>p. lor_name (prs_provider_class_ref (p_spec p)) = PVE_CLASS_NAME) all) (pxc_provider_name ctx)))"

fun rows_for :: "'w pve_ctx \<Rightarrow> image_source \<Rightarrow> provider list \<Rightarrow> ('w, image_per_provider_status list) px" where
  "rows_for ctx source [] = io_return []"
| "rows_for ctx source (p # ps) = io_bind (row_for_provider ctx source p) (\<lambda>row. io_bind (rows_for ctx source ps) (\<lambda>rows. io_return (row # rows)))"

definition pve_image_status :: "image_per_provider_status list \<Rightarrow> int \<Rightarrow> vm_image_status" where
  "pve_image_status rows generation = \<lparr>vist_per_provider = rows, vist_build_artifact = None, vist_conditions = [],
     vist_observed_generation = Some generation, vist_first_boot_sealing = None\<rparr>"

definition patch_vmimage_status :: "'w pve_ctx \<Rightarrow> string \<Rightarrow> int \<Rightarrow> image_per_provider_status list \<Rightarrow> string \<Rightarrow> ('w, unit) px" where
  "patch_vmimage_status ctx name generation rows manager =
     io_err PKube (io_call (\<lambda>r. ImageStatusPatch name manager (pve_image_status rows generation) (patch_event_error r))
       (pxc_patch_image_status ctx name manager (pve_image_status rows generation)))"

text \<open>
  \<^verbatim>\<open>status_field_manager\<close> may panic when it truncates the name of a class; the name of this class is short and ASCII,
  so the branch is never taken.
\<close>

definition reconcile_pve_image :: "'w pve_ctx \<Rightarrow> vm_image \<Rightarrow> ('w, action) px" where
  "reconcile_pve_image ctx img =
     (let name = name_any (vmi_meta img);
          generation = (case om_generation (vmi_meta img) of Some g \<Rightarrow> g | None \<Rightarrow> 0)
      in if om_deletion_timestamp (vmi_meta img) \<noteq> None then io_return requeue_long
         else case find_proxmox_source (vi_sources (vmi_spec img)) of
           None \<Rightarrow> io_return requeue_long
         | Some source \<Rightarrow>
             io_bind (list_pve_providers ctx) (\<lambda>providers.
             if providers = [] then io_return requeue_long
             else io_bind (rows_for ctx source providers) (\<lambda>rows.
               let ns = (case om_namespace (p_meta (hd providers)) of Some n \<Rightarrow> n | None \<Rightarrow> [])
               in case status_field_manager FIELD_MANAGER_PROVIDER_PROXMOX (pxc_provider_name ctx) ns of
                    None \<Rightarrow> io_throw (PInvalid ''panic'' ''byte index is not a char boundary'')
                  | Some manager \<Rightarrow>
                      io_bind (patch_vmimage_status ctx name generation rows manager) (\<lambda>_.
                      io_return (if list_ex (\<lambda>r. \<not> ipp_ready r) rows then requeue_default else requeue_long)))))"

subsection \<open>What a probe publishes\<close>

definition usable_classes :: "(string \<times> cap_check) list \<Rightarrow> string list" where
  "usable_classes cs = map fst (filter (\<lambda>c. snd c = CapAvailable) cs)"

lemma usable_classes_simps [simp]:
  "usable_classes [] = []" "usable_classes ((n, CapAvailable) # cs) = n # usable_classes cs"
  "usable_classes ((n, CapProblem why) # cs) = usable_classes cs"
  by (simp_all add: usable_classes_def)

lemma reason_push_keys [simp]: "fst ` set (reason_push k v m) = insert k (fst ` set m)"
  by (induction k v m rule: reason_push.induct) auto

lemma fold_class_step:
  "\<exists>rs'. fold (class_step node) cs (a, ok, rs) = (a @ usable_classes cs, ok @ usable_classes cs, rs')
     \<and> fst ` set rs' = fst ` set rs \<union> {n. \<exists>why. (n, CapProblem why) \<in> set cs}"
proof (induction cs arbitrary: a ok rs)
  case (Cons c cs)
  obtain n check where c: "c = (n, check)"
    by (cases c)
  show ?case
  proof (cases check)
    case CapAvailable
    with Cons.IH [of "a @ [n]" "ok @ [n]" rs] show ?thesis
      by (auto simp: c class_step_def)
  next
    case (CapProblem why)
    from Cons.IH [of a ok "reason_push n (why @ '' on node '' @ node) rs"] CapProblem show ?thesis
      by (auto simp: c class_step_def)
  qed
qed simp

text \<open>The answers of one node, and the part of the outcome that the checks on it determine.\<close>

type_synonym node_answer = "string \<times> pve_storage list \<times> network_iface list"

definition probe_answers :: "provider \<Rightarrow> pve_version \<Rightarrow> node_answer list \<Rightarrow> probe \<Rightarrow> probe" where
  "probe_answers p version rows pb = fold (\<lambda>(n, ss, ns). probe_node p version n ss ns) rows pb"

definition answered_domain :: "provider \<Rightarrow> pve_version \<Rightarrow> node_answer \<Rightarrow> failure_domain" where
  "answered_domain p version r = (case r of (n, ss, ns) \<Rightarrow>
     node_domain p version n (usable_classes (storage_checks p ss)) (usable_classes (network_checks p ns)))"

lemma probe_answers_domains: "pb_domains (probe_answers p version rows pb) = pb_domains pb @ map (answered_domain p version) rows"
proof (induction rows arbitrary: pb)
  case (Cons r rows)
  obtain n ss ns where r: "r = (n, ss, ns)"
    by (cases r)
  have "pb_domains (probe_node p version n ss ns pb) = pb_domains pb @ [answered_domain p version r]"
    using fold_class_step [of n "storage_checks p ss" "[]" "pb_storage_ok pb" "pb_storage_reasons pb"]
      fold_class_step [of n "network_checks p ns" "[]" "pb_network_ok pb" "pb_network_reasons pb"]
    by (auto simp: probe_node_def answered_domain_def r)
  with Cons.IH [of "probe_node p version n ss ns pb"] show ?case
    by (simp add: probe_answers_def r)
qed (simp add: probe_answers_def)

lemma probe_node_sets:
  "set (pb_storage_ok (probe_node p version n ss ns pb)) = set (pb_storage_ok pb) \<union> set (usable_classes (storage_checks p ss))"
  "set (pb_network_ok (probe_node p version n ss ns pb)) = set (pb_network_ok pb) \<union> set (usable_classes (network_checks p ns))"
  "fst ` set (pb_storage_reasons (probe_node p version n ss ns pb)) =
     fst ` set (pb_storage_reasons pb) \<union> {c. \<exists>why. (c, CapProblem why) \<in> set (storage_checks p ss)}"
  "fst ` set (pb_network_reasons (probe_node p version n ss ns pb)) =
     fst ` set (pb_network_reasons pb) \<union> {c. \<exists>why. (c, CapProblem why) \<in> set (network_checks p ns)}"
proof -
  obtain rs where s: "fold (class_step n) (storage_checks p ss) ([], pb_storage_ok pb, pb_storage_reasons pb)
      = (usable_classes (storage_checks p ss), pb_storage_ok pb @ usable_classes (storage_checks p ss), rs)"
      "fst ` set rs = fst ` set (pb_storage_reasons pb) \<union> {c. \<exists>why. (c, CapProblem why) \<in> set (storage_checks p ss)}"
    using fold_class_step [of n "storage_checks p ss" "[]" "pb_storage_ok pb" "pb_storage_reasons pb"] by auto
  obtain rt where t: "fold (class_step n) (network_checks p ns) ([], pb_network_ok pb, pb_network_reasons pb)
      = (usable_classes (network_checks p ns), pb_network_ok pb @ usable_classes (network_checks p ns), rt)"
      "fst ` set rt = fst ` set (pb_network_reasons pb) \<union> {c. \<exists>why. (c, CapProblem why) \<in> set (network_checks p ns)}"
    using fold_class_step [of n "network_checks p ns" "[]" "pb_network_ok pb" "pb_network_reasons pb"] by auto
  show "set (pb_storage_ok (probe_node p version n ss ns pb)) = set (pb_storage_ok pb) \<union> set (usable_classes (storage_checks p ss))"
    "set (pb_network_ok (probe_node p version n ss ns pb)) = set (pb_network_ok pb) \<union> set (usable_classes (network_checks p ns))"
    "fst ` set (pb_storage_reasons (probe_node p version n ss ns pb)) =
       fst ` set (pb_storage_reasons pb) \<union> {c. \<exists>why. (c, CapProblem why) \<in> set (storage_checks p ss)}"
    "fst ` set (pb_network_reasons (probe_node p version n ss ns pb)) =
       fst ` set (pb_network_reasons pb) \<union> {c. \<exists>why. (c, CapProblem why) \<in> set (network_checks p ns)}"
    by (simp_all add: probe_node_def s t)
qed

lemma probe_answers_sets:
  "set (pb_storage_ok (probe_answers p version rows pb)) =
     set (pb_storage_ok pb) \<union> (\<Union>(n, ss, ns) \<in> set rows. set (usable_classes (storage_checks p ss)))"
  "set (pb_network_ok (probe_answers p version rows pb)) =
     set (pb_network_ok pb) \<union> (\<Union>(n, ss, ns) \<in> set rows. set (usable_classes (network_checks p ns)))"
  "fst ` set (pb_storage_reasons (probe_answers p version rows pb)) =
     fst ` set (pb_storage_reasons pb) \<union> (\<Union>(n, ss, ns) \<in> set rows. {c. \<exists>why. (c, CapProblem why) \<in> set (storage_checks p ss)})"
  "fst ` set (pb_network_reasons (probe_answers p version rows pb)) =
     fst ` set (pb_network_reasons pb) \<union> (\<Union>(n, ss, ns) \<in> set rows. {c. \<exists>why. (c, CapProblem why) \<in> set (network_checks p ns)})"
  by (induction rows arbitrary: pb) (simp_all add: probe_answers_def probe_node_sets Un_assoc split_beta)

lemma class_problems_Nil: "class_problems ok reasons = [] \<longleftrightarrow> fst ` set reasons \<subseteq> set ok"
  by (auto simp: class_problems_def filter_empty_conv)

lemma checks_names: "fst ` set (storage_checks p ss) = scm_name ` set (pcap_storage_classes (prs_capabilities (p_spec p)))"
  "fst ` set (network_checks p ns) = ncm_name ` set (pcap_network_classes (prs_capabilities (p_spec p)))"
  by (force simp: storage_checks_def network_checks_def)+

lemma usable_or_problem: "fst ` set cs = set (usable_classes cs) \<union> {n. \<exists>why. (n, CapProblem why) \<in> set cs}"
proof (rule set_eqI, rule iffI)
  fix n
  assume "n \<in> fst ` set cs"
  then obtain check where "(n, check) \<in> set cs"
    by auto
  then show "n \<in> set (usable_classes cs) \<union> {n. \<exists>why. (n, CapProblem why) \<in> set cs}"
    by (cases check) (force simp: usable_classes_def)+
qed (force simp: usable_classes_def)

text \<open>There is no problem exactly when every declared class is usable on some node.\<close>

lemma probe_problems_Nil:
  assumes "rows \<noteq> []"
  shows "probe_problems (probe_answers p version rows \<lparr>pb_domains = [], pb_storage_ok = [], pb_network_ok = [], pb_storage_reasons = [], pb_network_reasons = []\<rparr>) = []
    \<longleftrightarrow> (\<forall>c \<in> set (pcap_storage_classes (prs_capabilities (p_spec p))).
          \<exists>r \<in> set rows. scm_name c \<in> set (fda_available_storage_classes (fd_attributes (answered_domain p version r))))
      \<and> (\<forall>c \<in> set (pcap_network_classes (prs_capabilities (p_spec p))).
          \<exists>r \<in> set rows. ncm_name c \<in> set (fda_available_network_classes (fd_attributes (answered_domain p version r))))"
proof -
  have covered: "(\<Union>r \<in> set rows. B r) \<subseteq> (\<Union>r \<in> set rows. A r) \<longleftrightarrow> N \<subseteq> (\<Union>r \<in> set rows. A r)"
    if "\<And>r. N = A r \<union> B r" for A B :: "node_answer \<Rightarrow> string set" and N
  proof
    assume sub: "(\<Union>r \<in> set rows. B r) \<subseteq> (\<Union>r \<in> set rows. A r)"
    obtain r where "r \<in> set rows"
      using assms by (cases rows) auto
    then show "N \<subseteq> (\<Union>r \<in> set rows. A r)"
      using sub that [of r] by blast
  next
    assume "N \<subseteq> (\<Union>r \<in> set rows. A r)"
    then show "(\<Union>r \<in> set rows. B r) \<subseteq> (\<Union>r \<in> set rows. A r)"
      using that by blast
  qed
  let ?s = "\<lambda>(n, ss, ns). set (usable_classes (storage_checks p ss))" and ?t = "\<lambda>(n, ss, ns). set (usable_classes (network_checks p ns))"
  let ?sb = "\<lambda>(n, ss, ns). {c. \<exists>why. (c, CapProblem why) \<in> set (storage_checks p ss)}"
    and ?tb = "\<lambda>(n, ss, ns). {c. \<exists>why. (c, CapProblem why) \<in> set (network_checks p ns)}"
  have s: "scm_name ` set (pcap_storage_classes (prs_capabilities (p_spec p))) = ?s r \<union> ?sb r" for r :: node_answer
    unfolding checks_names(1) [of p "fst (snd r)", symmetric] by (cases r) (simp add: usable_or_problem)
  have t: "ncm_name ` set (pcap_network_classes (prs_capabilities (p_spec p))) = ?t r \<union> ?tb r" for r :: node_answer
    unfolding checks_names(2) [of p "snd (snd r)", symmetric] by (cases r) (simp add: usable_or_problem)
  have "?s r = set (fda_available_storage_classes (fd_attributes (answered_domain p version r)))"
    "?t r = set (fda_available_network_classes (fd_attributes (answered_domain p version r)))" for r
    by (cases r; simp add: answered_domain_def node_domain_def Let_def)+
  then have listed: "(scm_name ` set (pcap_storage_classes (prs_capabilities (p_spec p))) \<subseteq> (\<Union>r \<in> set rows. ?s r))
      = (\<forall>c \<in> set (pcap_storage_classes (prs_capabilities (p_spec p))).
          \<exists>r \<in> set rows. scm_name c \<in> set (fda_available_storage_classes (fd_attributes (answered_domain p version r))))"
    "(ncm_name ` set (pcap_network_classes (prs_capabilities (p_spec p))) \<subseteq> (\<Union>r \<in> set rows. ?t r))
      = (\<forall>c \<in> set (pcap_network_classes (prs_capabilities (p_spec p))).
          \<exists>r \<in> set rows. ncm_name c \<in> set (fda_available_network_classes (fd_attributes (answered_domain p version r))))"
    by (simp_all add: image_subset_iff)
  show ?thesis
    unfolding probe_problems_def append_is_Nil_conv class_problems_Nil probe_answers_sets
    using covered [of _ ?s ?sb, OF s] covered [of _ ?t ?tb, OF t] listed by simp
qed

lemma keeps_probe_nodes:
  assumes "upward K"
  shows "keeps (\<lambda>_ _. True) K (probe_nodes api p version nodes pb)
    (\<lambda>pb' tr. K tr \<and> (\<exists>rows. map fst rows = map pn_node nodes \<and> pb' = probe_answers p version rows pb
       \<and> list_all (\<lambda>(n, ss, ns). seen tr (ReqNodeStorage n) (AnsweredStorages ss) \<and> seen tr (ReqNodeNetworks n) (AnsweredNetworks ns)) rows))"
  using assms
proof (induction nodes arbitrary: pb K)
  case Nil
  then show ?case
    by (auto intro!: keeps_return simp: probe_answers_def)
next
  case (Cons n nodes)
  let ?q = "\<lambda>ss tr. K tr \<and> seen tr (ReqNodeStorage (pn_node n)) (AnsweredStorages ss)"
  let ?qq = "\<lambda>ss ns tr. ?q ss tr \<and> seen tr (ReqNodeNetworks (pn_node n)) (AnsweredNetworks ns)"
  have storage: "keeps (\<lambda>_ _. True) K (must (pve_call (ReqNodeStorage (pn_node n)) AnsweredStorages f)) ?q" for f
    by (rule keeps_must) (use Cons.prems in \<open>auto simp: seen_def upward_def\<close>)
  have networks: "keeps (\<lambda>_ _. True) (?q ss) (must (pve_call (ReqNodeNetworks (pn_node n)) AnsweredNetworks f)) (?qq ss)" for f ss
    by (rule keeps_must) (use Cons.prems in \<open>auto simp: seen_def upward_def\<close>)
  have rest: "keeps (\<lambda>_ _. True) (?qq ss ns) (probe_nodes api p version nodes (probe_node p version (pn_node n) ss ns pb))
      (\<lambda>pb' tr. K tr \<and> (\<exists>rows. map fst rows = map pn_node (n # nodes) \<and> pb' = probe_answers p version rows pb
       \<and> list_all (\<lambda>(n, ss, ns). seen tr (ReqNodeStorage n) (AnsweredStorages ss) \<and> seen tr (ReqNodeNetworks n) (AnsweredNetworks ns)) rows))" for ss ns
  proof (rule keeps_conseq [OF Cons.IH [of "?qq ss ns"]])
    show "upward (?qq ss ns)"
      by (intro upwards Cons.prems)
    fix pb' tr
    assume "?qq ss ns tr \<and> (\<exists>rows. map fst rows = map pn_node nodes \<and> pb' = probe_answers p version rows (probe_node p version (pn_node n) ss ns pb)
       \<and> list_all (\<lambda>(n, ss, ns). seen tr (ReqNodeStorage n) (AnsweredStorages ss) \<and> seen tr (ReqNodeNetworks n) (AnsweredNetworks ns)) rows)"
    then obtain rows where "?qq ss ns tr" "map fst rows = map pn_node nodes" "pb' = probe_answers p version rows (probe_node p version (pn_node n) ss ns pb)"
      "list_all (\<lambda>(n, ss, ns). seen tr (ReqNodeStorage n) (AnsweredStorages ss) \<and> seen tr (ReqNodeNetworks n) (AnsweredNetworks ns)) rows"
      by blast
    then show "K tr \<and> (\<exists>rows. map fst rows = map pn_node (n # nodes) \<and> pb' = probe_answers p version rows pb
       \<and> list_all (\<lambda>(n, ss, ns). seen tr (ReqNodeStorage n) (AnsweredStorages ss) \<and> seen tr (ReqNodeNetworks n) (AnsweredNetworks ns)) rows)"
      by (intro conjI exI [of _ "(pn_node n, ss, ns) # rows"]) (simp_all add: probe_answers_def)
  qed
  show ?case
    unfolding probe_nodes.simps by (rule keeps_bind [OF storage], rule keeps_bind [OF networks], rule rest)
qed

definition pve_domains_seen :: "provider \<Rightarrow> pve_event list \<Rightarrow> provider_status \<Rightarrow> bool" where
  "pve_domains_seen p tr st = (\<exists>version listed rows. seen tr ReqNodes (AnsweredNodes listed)
     \<and> map fst rows = map pn_node (filter is_online listed) \<and> rows \<noteq> []
     \<and> list_all (\<lambda>(n, ss, ns). seen tr (ReqNodeStorage n) (AnsweredStorages ss) \<and> seen tr (ReqNodeNetworks n) (AnsweredNetworks ns)) rows
     \<and> pst_failure_domains st = map (answered_domain p version) rows
     \<and> is_condition_true (pst_conditions st) ''Ready'' = (
         (\<forall>c \<in> set (pcap_storage_classes (prs_capabilities (p_spec p))). \<exists>fd \<in> set (pst_failure_domains st).
            scm_name c \<in> set (fda_available_storage_classes (fd_attributes fd)))
         \<and> (\<forall>c \<in> set (pcap_network_classes (prs_capabilities (p_spec p))). \<exists>fd \<in> set (pst_failure_domains st).
            ncm_name c \<in> set (fda_available_network_classes (fd_attributes fd)))))"

lemma ready_condition_true:
  "is_condition_true (ready_condition problems (set_condition [] ty st r m g now1) g now2) ''Ready'' = (problems = [])"
proof -
  have "distinct (map c_type (ready_condition problems (set_condition [] ty st r m g now1) g now2))"
    using set_condition_wf [of "[]" ty st r m g now1] set_condition_wf
    by (auto simp: ready_condition_def conditions_wf_def)
  then show ?thesis
    by (auto simp: is_condition_true_iff ready_condition_def find_condition_set_same TRUE_def FALSE_def)
qed

lemma keeps_compute_status:
  "keeps (\<lambda>_ _. True) (\<lambda>tr. tr = []) (compute_status clock api p g) (\<lambda>st tr. pve_domains_seen p tr st)"
  unfolding compute_status_def
proof (rule keeps_bind [where R = "\<lambda>_ _. True"], rule keeps_must, simp, simp, rule keeps_bind)
  fix version
  show "keeps (\<lambda>_ _. True) (\<lambda>_. True) (must (pve_call ReqNodes AnsweredNodes (px_list_nodes api))) (\<lambda>listed tr. seen tr ReqNodes (AnsweredNodes listed))"
    by (rule keeps_must) (auto simp: seen_def)
  fix listed
  let ?nodes = "filter is_online listed"
  let ?pb = "\<lparr>pb_domains = [], pb_storage_ok = [], pb_network_ok = [], pb_storage_reasons = [], pb_network_reasons = []\<rparr>"
  show "keeps (\<lambda>_ _. True) (\<lambda>tr. seen tr ReqNodes (AnsweredNodes listed))
      (let nodes = ?nodes in if nodes = [] then io_throw (PInvalid ''cluster'' ''no online node'')
       else io_bind (probe_nodes api p version nodes ?pb) (\<lambda>pb.
        io_bind (io_now clock) (\<lambda>now1. io_bind (io_now clock) (\<lambda>now2.
        io_return \<lparr>pst_failure_domains = pb_domains pb,
          pst_conditions = ready_condition (probe_problems pb)
            (set_condition [] ''ProviderReachable'' TRUE ''Reconciled''
              (''connected to Proxmox VE '' @ pv_version version @ ''; '' @ show_nat (length nodes) @ '' online node(s)'') g now1) g now2,
          pst_workload = None, pst_ek_ca_certificates = [], pst_observed_generation = Some g\<rparr>))))
      (\<lambda>st tr. pve_domains_seen p tr st)"
    unfolding Let_def
  proof (rule keeps_if [OF keeps_throw], rule keeps_bind [OF keeps_probe_nodes [where K = "\<lambda>tr. seen tr ReqNodes (AnsweredNodes listed)"]],
      simp, intro keeps_now_bind keeps_return)
    fix pb now1 now2 tr
    assume some: "?nodes \<noteq> []" and "seen tr ReqNodes (AnsweredNodes listed) \<and> (\<exists>rows. map fst rows = map pn_node ?nodes
       \<and> pb = probe_answers p version rows ?pb
       \<and> list_all (\<lambda>(n, ss, ns). seen tr (ReqNodeStorage n) (AnsweredStorages ss) \<and> seen tr (ReqNodeNetworks n) (AnsweredNetworks ns)) rows)"
    then obtain rows where rows: "seen tr ReqNodes (AnsweredNodes listed)" "map fst rows = map pn_node ?nodes" "pb = probe_answers p version rows ?pb"
       "list_all (\<lambda>(n, ss, ns). seen tr (ReqNodeStorage n) (AnsweredStorages ss) \<and> seen tr (ReqNodeNetworks n) (AnsweredNetworks ns)) rows"
      by blast
    from some rows(2) have ne: "rows \<noteq> []"
      by auto
    show "pve_domains_seen p tr \<lparr>pst_failure_domains = pb_domains pb,
          pst_conditions = ready_condition (probe_problems pb)
            (set_condition [] ''ProviderReachable'' TRUE ''Reconciled''
              (''connected to Proxmox VE '' @ pv_version version @ ''; '' @ show_nat (length ?nodes) @ '' online node(s)'') g now1) g now2,
          pst_workload = None, pst_ek_ca_certificates = [], pst_observed_generation = Some g\<rparr>"
      unfolding pve_domains_seen_def
      by (intro exI [of _ version] exI [of _ listed] exI [of _ rows])
        (simp add: rows(1,2,4) ne ready_condition_true rows(3) probe_problems_Nil [OF ne] probe_answers_domains)
  qed
qed

subsection \<open>From a probe to a machine\<close>

lemma storage_checkD:
  assumes "storage_check cls target storages = CapAvailable"
  obtains s where "target = Some (ps_storage s)" "s \<in> set storages"
    "usable_for s (if cls = SEED_STORAGE_CLASS then CONTENT_ISO else CONTENT_IMAGES)"
  using assms
  by (auto simp: storage_check_def Let_def usable_for_def dest!: findD split: option.splits if_splits intro: that)

lemma network_checkD:
  assumes "network_check cls target nets = CapAvailable"
  obtains i where "target = Some (ni_iface i)" "i \<in> set nets" "is_bridge i"
  using assms by (auto simp: network_check_def list_ex_iff split: option.splits if_splits intro: that)

lemma usable_classesD: "n \<in> set (usable_classes cs) \<Longrightarrow> (n, CapAvailable) \<in> set cs"
  by (auto simp: usable_classes_def)

text \<open>A class that a node lists is backed by a storage or a bridge of that node.\<close>

definition storage_backed :: "provider \<Rightarrow> pve_storage list \<Rightarrow> string \<Rightarrow> bool" where
  "storage_backed p ss cls = (\<exists>c \<in> set (pcap_storage_classes (prs_capabilities (p_spec p))). \<exists>s \<in> set ss. scm_name c = cls
     \<and> Option.bind (storage_target_for c [] []) (\<lambda>t. map_of t PVE_TARGET_KEY_STORAGE) = Some (ps_storage s)
     \<and> usable_for s (if cls = SEED_STORAGE_CLASS then CONTENT_ISO else CONTENT_IMAGES))"

definition bridge_backed :: "provider \<Rightarrow> network_iface list \<Rightarrow> string \<Rightarrow> bool" where
  "bridge_backed p ns cls = (\<exists>c \<in> set (pcap_network_classes (prs_capabilities (p_spec p))). \<exists>i \<in> set ns. ncm_name c = cls
     \<and> Option.bind (network_target_for c [] []) (\<lambda>t. map_of t PVE_TARGET_KEY_BRIDGE) = Some (ni_iface i) \<and> is_bridge i)"

lemma usable_storage_backed:
  assumes "cls \<in> set (usable_classes (storage_checks p ss))"
  shows "storage_backed p ss cls"
proof -
  obtain c where "c \<in> set (pcap_storage_classes (prs_capabilities (p_spec p)))" "scm_name c = cls"
    "storage_check cls (Option.bind (storage_target_for c [] []) (\<lambda>t. map_of t PVE_TARGET_KEY_STORAGE)) ss = CapAvailable"
    using usable_classesD [OF assms] unfolding storage_checks_def by auto
  then show ?thesis
    unfolding storage_backed_def by (metis storage_checkD)
qed

lemma usable_bridge_backed:
  assumes "cls \<in> set (usable_classes (network_checks p ns))"
  shows "bridge_backed p ns cls"
proof -
  obtain c where "c \<in> set (pcap_network_classes (prs_capabilities (p_spec p)))" "ncm_name c = cls"
    "network_check cls (Option.bind (network_target_for c [] []) (\<lambda>t. map_of t PVE_TARGET_KEY_BRIDGE)) ns = CapAvailable"
    using usable_classesD [OF assms] unfolding network_checks_def by auto
  then show ?thesis
    unfolding bridge_backed_def by (metis network_checkD)
qed

lemma answered_domain_raw [simp]:
  "map_of (fda_raw (fd_attributes (answered_domain p version (n, ss, ns)))) FD_RAW_PROXMOX_NODE = Some n"
  "get_or [] (fda_raw (fd_attributes (answered_domain p version (n, ss, ns)))) ''datacenter'' = []"
  "get_or [] (fda_raw (fd_attributes (answered_domain p version (n, ss, ns)))) ''cluster'' = []"
  "fda_available_storage_classes (fd_attributes (answered_domain p version (n, ss, ns))) = usable_classes (storage_checks p ss)"
  "fda_available_network_classes (fd_attributes (answered_domain p version (n, ss, ns))) = usable_classes (network_checks p ns)"
  by (simp_all add: answered_domain_def node_domain_def Let_def FD_RAW_PROXMOX_NODE_def RAW_KEY_NODE_def get_or_def)

lemma published_domain:
  assumes "pve_domains_seen p tr st" and "fd \<in> set (pst_failure_domains st)"
  obtains version listed n ss ns where "fd = answered_domain p version (n, ss, ns)" "seen tr ReqNodes (AnsweredNodes listed)"
    "\<exists>x \<in> set listed. pn_node x = n \<and> is_online x"
    "seen tr (ReqNodeStorage n) (AnsweredStorages ss)" "seen tr (ReqNodeNetworks n) (AnsweredNetworks ns)"
proof -
  from assms(1) obtain version listed rows where rows: "seen tr ReqNodes (AnsweredNodes listed)"
      "map fst rows = map pn_node (filter is_online listed)"
      "list_all (\<lambda>(n, ss, ns). seen tr (ReqNodeStorage n) (AnsweredStorages ss) \<and> seen tr (ReqNodeNetworks n) (AnsweredNetworks ns)) rows"
      "pst_failure_domains st = map (answered_domain p version) rows"
    unfolding pve_domains_seen_def by blast
  with assms(2) obtain n ss ns where r: "(n, ss, ns) \<in> set rows" "fd = answered_domain p version (n, ss, ns)"
    by auto
  then have "n \<in> set (map pn_node (filter is_online listed))"
    unfolding rows(2) [symmetric] by force
  with rows r show thesis
    by (intro that [of version n ss ns listed]) (auto simp: list_all_iff)
qed

text \<open>
  (C9) What a Provider publishes is there: every failure domain names a node that the cluster lists as online, each
  storage class it lists is backed by a storage that this node answered as enabled, active and allowing the right
  content, each network class by a bridge of the node; and the Provider is Ready exactly when every declared class
  is listed in some failure domain.
\<close>

theorem published_classes_are_backed:
  assumes "result_of (compute_status clock api p g) w = Inr st"
  shows "let tr = trace_of (compute_status clock api p g) w in
    (\<forall>fd \<in> set (pst_failure_domains st). \<exists>node listed ss ns. map_of (fda_raw (fd_attributes fd)) FD_RAW_PROXMOX_NODE = Some node
       \<and> seen tr ReqNodes (AnsweredNodes listed) \<and> (\<exists>n \<in> set listed. pn_node n = node \<and> is_online n)
       \<and> seen tr (ReqNodeStorage node) (AnsweredStorages ss) \<and> seen tr (ReqNodeNetworks node) (AnsweredNetworks ns)
       \<and> list_all (storage_backed p ss) (fda_available_storage_classes (fd_attributes fd))
       \<and> list_all (bridge_backed p ns) (fda_available_network_classes (fd_attributes fd)))
    \<and> is_condition_true (pst_conditions st) ''Ready'' = (
         (\<forall>c \<in> set (pcap_storage_classes (prs_capabilities (p_spec p))). \<exists>fd \<in> set (pst_failure_domains st).
            scm_name c \<in> set (fda_available_storage_classes (fd_attributes fd)))
         \<and> (\<forall>c \<in> set (pcap_network_classes (prs_capabilities (p_spec p))). \<exists>fd \<in> set (pst_failure_domains st).
            ncm_name c \<in> set (fda_available_network_classes (fd_attributes fd))))"
  unfolding Let_def
proof (intro conjI ballI)
  let ?tr = "trace_of (compute_status clock api p g) w"
  have seen: "pve_domains_seen p ?tr st"
    by (rule keeps_trace(2) [OF keeps_compute_status assms])
  then show "is_condition_true (pst_conditions st) ''Ready'' = (
         (\<forall>c \<in> set (pcap_storage_classes (prs_capabilities (p_spec p))). \<exists>fd \<in> set (pst_failure_domains st).
            scm_name c \<in> set (fda_available_storage_classes (fd_attributes fd)))
         \<and> (\<forall>c \<in> set (pcap_network_classes (prs_capabilities (p_spec p))). \<exists>fd \<in> set (pst_failure_domains st).
            ncm_name c \<in> set (fda_available_network_classes (fd_attributes fd))))"
    unfolding pve_domains_seen_def by blast
  fix fd
  assume "fd \<in> set (pst_failure_domains st)"
  from published_domain [OF seen this] obtain version listed n ss ns where "fd = answered_domain p version (n, ss, ns)"
    "seen ?tr ReqNodes (AnsweredNodes listed)" "\<exists>x \<in> set listed. pn_node x = n \<and> is_online x"
    "seen ?tr (ReqNodeStorage n) (AnsweredStorages ss)" "seen ?tr (ReqNodeNetworks n) (AnsweredNetworks ns)" .
  then show "\<exists>node listed ss ns. map_of (fda_raw (fd_attributes fd)) FD_RAW_PROXMOX_NODE = Some node
       \<and> seen ?tr ReqNodes (AnsweredNodes listed) \<and> (\<exists>n \<in> set listed. pn_node n = node \<and> is_online n)
       \<and> seen ?tr (ReqNodeStorage node) (AnsweredStorages ss) \<and> seen ?tr (ReqNodeNetworks node) (AnsweredNetworks ns)
       \<and> list_all (storage_backed p ss) (fda_available_storage_classes (fd_attributes fd))
       \<and> list_all (bridge_backed p ns) (fda_available_network_classes (fd_attributes fd))"
    by (intro exI [of _ n] exI [of _ listed] exI [of _ ss] exI [of _ ns])
      (simp add: list_all_iff usable_storage_backed usable_bridge_backed)
qed

lemma schedule_placeable:
  assumes "schedule vm cls img providers existing classes = Inr d"
  obtains p fd where "placeable vm cls img providers existing classes p fd" "d = build_decision cls p fd"
proof -
  from assms schedule_pairs [where vm = vm and existing = existing and cls = cls and img = img and providers = providers and classes = classes] obtain p fd
    where "min_by (spread_le vm existing) (allowed_pairs vm cls img providers existing classes) = Some (p, fd)" "d = build_decision cls p fd"
    by (auto split: option.splits)
  with that [of p fd] show thesis
    using min_by_in allowed_pairs_iff by metis
qed

lemma distinct_find: "distinct (map f xs) \<Longrightarrow> x \<in> set xs \<Longrightarrow> find (\<lambda>y. f y = f x) xs = Some x"
  by (induction xs) (auto simp: image_iff)

lemma list_all2_source: "list_all2 P xs ys \<Longrightarrow> y \<in> set ys \<Longrightarrow> \<exists>x \<in> set xs. P x y"
  by (induction rule: list_all2_induct) auto

text \<open>The storages that the disks of a machine are on.\<close>

definition storages_of :: "proxmox_machine_spec \<Rightarrow> string list" where
  "storages_of spec = pms_storage spec # List.map_filter pdd_storage (pms_data_disks spec)"

lemma build_proxmox_places:
  assumes "build_proxmox_machine vm cls img d p ud = Inr m"
  shows "map_of (d_failure_domain_raw d) FD_RAW_PROXMOX_NODE = Some (pms_node (pm_spec m))"
    and "set (storages_of (pm_spec m)) \<subseteq> rr_backend_id ` set (d_resolved_storage d)"
    and "list_all2 (\<lambda>x nic. proxmox_nic vm p x = Inr nic) (zip (interfaces_of cls) (d_resolved_networks d)) (pms_nics (pm_spec m))"
    and "\<exists>r z. resolve_template_ref img (d_provider_name d) (d_failure_domain_name d) = Some (r, z) \<and> parse_u32 r = Inr (pms_template_vmid (pm_spec m))"
proof -
  obtain os_disk extra os_storage storages nics node vmid r z where
    eqs: "map_of (d_failure_domain_raw d) FD_RAW_PROXMOX_NODE = Some node" "d_resolved_storage d = os_storage # storages"
      "resolve_template_ref img (d_provider_name d) (d_failure_domain_name d) = Some (r, z)" "parse_u32 r = Inr vmid"
      "collect_results (proxmox_nic vm p) (zip (interfaces_of cls) (d_resolved_networks d)) = Inr nics"
    and m: "pms_node (pm_spec m) = node" "pms_template_vmid (pm_spec m) = vmid" "pms_storage (pm_spec m) = rr_backend_id os_storage"
      "pms_data_disks (pm_spec m) = proxmox_data_disks vm (rr_backend_id os_storage) (os_disk # extra) (d_resolved_storage d)"
      "pms_nics (pm_spec m) = nics"
    using assms unfolding build_proxmox_machine_def Let_def
    by (auto split: option.splits list.splits sum.splits if_splits)
  show "map_of (d_failure_domain_raw d) FD_RAW_PROXMOX_NODE = Some (pms_node (pm_spec m))"
    "\<exists>r z. resolve_template_ref img (d_provider_name d) (d_failure_domain_name d) = Some (r, z) \<and> parse_u32 r = Inr (pms_template_vmid (pm_spec m))"
    using eqs m by simp_all
  show "list_all2 (\<lambda>x nic. proxmox_nic vm p x = Inr nic) (zip (interfaces_of cls) (d_resolved_networks d)) (pms_nics (pm_spec m))"
    using collect_results_Inr [OF eqs(5)] m(5) by simp
  have "s \<in> rr_backend_id ` set (d_resolved_storage d)" if "x \<in> set (pms_data_disks (pm_spec m))" "pdd_storage x = Some s" for x s
  proof -
    from that(1) obtain disk r where "(disk, r) \<in> set (zip (os_disk # extra) (d_resolved_storage d))"
        "pdd_storage x = (if rr_backend_id r \<noteq> rr_backend_id os_storage then Some (rr_backend_id r) else None)"
      unfolding m(4) proxmox_data_disks_def by (auto dest!: in_set_dropD)
    with that(2) show ?thesis
      by (auto split: if_splits dest!: set_zip_rightD)
  qed
  moreover have "rr_backend_id os_storage \<in> rr_backend_id ` set (d_resolved_storage d)"
    by (simp add: eqs(2))
  ultimately show "set (storages_of (pm_spec m)) \<subseteq> rr_backend_id ` set (d_resolved_storage d)"
    unfolding storages_of_def m(3) List.map_filter_def by force
qed


subsection \<open>From an image to a clone\<close>

lemma parse_digits_bound: "parse_digits upper acc cs = Inr n \<Longrightarrow> acc \<le> upper \<Longrightarrow> n \<le> upper"
  by (induction upper acc cs rule: parse_digits.induct) (auto split: option.splits if_splits)

lemma parse_u32_bound: "parse_u32 s = Inr n \<Longrightarrow> n \<le> u32_max"
  by (auto simp: parse_u32_def parse_uint_def dest: parse_digits_bound split: if_splits)

lemma ready_row:
  assumes "result_of (row_for api p source) w = Inr row" and "ipp_ready row"
  obtains vms t where "trace_of (row_for api p source) w = [Pve ReqClusterVms (AnsweredVms vms)]"
    "find (\<lambda>v. cv_vmid v = cv_vmid t \<and> (cv_kind v = [] \<or> cv_kind v = KIND_QEMU)) vms = Some t" "cv_template t"
    "ipp_resolved_ref row = Some (show_nat (cv_vmid t))" "cv_vmid t \<le> u32_max"
proof -
  obtain vmid where vmid: "iso_kind source = Template" "parse_u32 (trim (iso_reference source)) = Inr vmid"
    using assms by (auto simp: row_for_def result_of_def io_return_def failure_row_def split: if_splits sum.splits)
  obtain r w' where call: "px_cluster_vms api w = (r, w')"
    by (metis prod.exhaust)
  with assms vmid obtain vms where r: "r = Inr vms"
    by (cases r) (auto simp: row_for_def result_of_def io_return_def io_bind_def io_attempt_def pve_call_def io_call_def failure_row_def)
  with assms vmid call obtain t where t: "find (\<lambda>v. cv_vmid v = vmid \<and> (cv_kind v = [] \<or> cv_kind v = KIND_QEMU)) vms = Some t" "cv_template t"
      "ipp_resolved_ref row = Some (show_nat vmid)"
    by (auto simp: row_for_def result_of_def io_return_def io_bind_def io_attempt_def pve_call_def io_call_def failure_row_def
        split: option.splits if_splits)
  then have "cv_vmid t = vmid"
    by (auto dest: findD)
  moreover have "trace_of (row_for api p source) w = [Pve ReqClusterVms (AnsweredVms vms)]"
    using vmid call r t by (simp add: row_for_def trace_of_def io_return_def io_bind_def io_attempt_def pve_call_def io_call_def)
  ultimately show thesis
    using that [of vms t] t parse_u32_bound [OF vmid(2)] by blast
qed

lemma clone_of_listed_template:
  assumes "find (\<lambda>v. cv_vmid v = cv_vmid t \<and> (cv_kind v = [] \<or> cv_kind v = KIND_QEMU)) vms = Some t" and "cv_template t"
    and "pms_template_vmid spec = cv_vmid t" and "fst (px_cluster_vms api w) = Inr vms"
  shows "\<exists>a. take 2 (trace_of (clone_from_template api m spec vmid) w) = [Pve ReqClusterVms (AnsweredVms vms),
    Pve (ReqClone (cv_node t) (cv_vmid t) (clone_request m spec (cv_node t) vmid)) a]"
proof -
  obtain w1 where list: "px_cluster_vms api w = (Inr vms, w1)"
    using assms(4) by (metis fst_conv prod.exhaust)
  obtain r w2 where clone: "px_clone_vm api (cv_node t) (cv_vmid t) (clone_request m spec (cv_node t) vmid) w1 = (r, w2)"
    by (metis prod.exhaust)
  obtain r2 w3 where wait: "px_wait_task api u CLONE_TASK_TIMEOUT w2 = (r2, w3)" if "r = Inr u" for u
    by (metis prod.exhaust sum.sel(2))
  show ?thesis
    using assms list clone
    by (cases r)
      (auto simp: clone_from_template_def cluster_vms_def must_def pve_call_def io_call_def io_bind_def io_err_def trace_of_def
        wait_def Let_def case_prod_unfold split: sum.splits prod.splits)
qed

text \<open>
  (C11) An advertised image can be cloned: when the image reconciler calls an image ready, its reference names a listed
  template, the controller's builder reads back exactly that number, and a pass that sees the same listing does not
  refuse the template but asks for a clone of it on the template's own node.
\<close>

theorem advertised_template_is_cloned:
  assumes "result_of (row_for api p source) w = Inr row" and "ipp_ready row"
    and "build_proxmox_machine vm cls img d q ud = Inr m"
    and "resolve_template_ref img (d_provider_name d) (d_failure_domain_name d) = Some (the (ipp_resolved_ref row), z)"
  shows "\<exists>vms t. trace_of (row_for api p source) w = [Pve ReqClusterVms (AnsweredVms vms)] \<and> t \<in> set vms \<and> cv_template t
    \<and> cv_vmid t = pms_template_vmid (pm_spec m)
    \<and> (\<forall>w'. fst (px_cluster_vms api' w') = Inr vms \<longrightarrow>
         (\<exists>a. take 2 (trace_of (clone_from_template api' mr (pm_spec m) vmid) w') = [Pve ReqClusterVms (AnsweredVms vms),
            Pve (ReqClone (cv_node t) (cv_vmid t) (clone_request mr (pm_spec m) (cv_node t) vmid)) a]))"
proof -
  from ready_row [OF assms(1,2)] obtain vms t where t: "trace_of (row_for api p source) w = [Pve ReqClusterVms (AnsweredVms vms)]"
    "find (\<lambda>v. cv_vmid v = cv_vmid t \<and> (cv_kind v = [] \<or> cv_kind v = KIND_QEMU)) vms = Some t" "cv_template t"
    "ipp_resolved_ref row = Some (show_nat (cv_vmid t))" "cv_vmid t \<le> u32_max" .
  from build_proxmox_places(4) [OF assms(3)] assms(4) t(4) have "parse_u32 (show_nat (cv_vmid t)) = Inr (pms_template_vmid (pm_spec m))"
    by auto
  with parse_u32_show_nat [OF t(5)] have eq: "pms_template_vmid (pm_spec m) = cv_vmid t"
    by simp
  from findD [OF t(2)] have "t \<in> set vms"
    by simp
  moreover have "\<forall>w'. fst (px_cluster_vms api' w') = Inr vms \<longrightarrow>
      (\<exists>a. take 2 (trace_of (clone_from_template api' mr (pm_spec m) vmid) w') = [Pve ReqClusterVms (AnsweredVms vms),
         Pve (ReqClone (cv_node t) (cv_vmid t) (clone_request mr (pm_spec m) (cv_node t) vmid)) a])"
    by (intro allI impI clone_of_listed_template [OF t(2,3) eq])
  ultimately show ?thesis
    using t(1,3) eq [symmetric] by blast
qed

subsection \<open>A run of the probe\<close>

definition probe_pve :: "nat pve" where
  "probe_pve = stuck_pve\<lparr>px_version := (\<lambda>w. (Inr \<lparr>pv_version = ''9.1.1'', pv_release = None, pv_repoid = None\<rparr>, w)),
     px_list_nodes := (\<lambda>w. (Inr [\<lparr>pn_node = ''n1'', pn_status = ''online'', pn_maxcpu = None, pn_maxmem = None\<rparr>], w)),
     px_node_storage := (\<lambda>_ w. (Inr [\<lparr>ps_storage = ''lvm'', ps_kind = ''lvmthin'', ps_content = ''images,rootdir'', ps_enabled = True,
       ps_active = True, ps_shared = False, ps_total = None, ps_avail = None\<rparr>], w)),
     px_node_networks := (\<lambda>_ w. (Inr [\<lparr>ni_iface = ''vmbr0'', ni_kind = ''bridge'', ni_active = True, ni_vlan_aware = False\<rparr>], w)),
     px_cluster_vms := (\<lambda>w. (Inr [\<lparr>cv_vmid = 100, cv_node = ''n1'', cv_name = Some ''ubuntu'', cv_status = ''stopped'', cv_kind = ''qemu'',
       cv_template = True\<rparr>], w))\<rparr>"

definition probe_provider :: provider where
  "probe_provider = (let p = demo_provider [] in p\<lparr>p_spec := (p_spec p)\<lparr>prs_provider_class_ref := \<lparr>lor_name = PVE_CLASS_NAME\<rparr>,
     prs_capabilities := \<lparr>pcap_storage_classes = [\<lparr>scm_name = ''fast'', scm_target = Some [(''storage'', ''lvm'')], scm_per_zone = []\<rparr>],
       pcap_network_classes = [\<lparr>ncm_name = ''lan'', ncm_target = Some [(''bridge'', ''vmbr0'')], ncm_per_zone = [], ncm_subnet = None,
         ncm_per_zone_subnet = []\<rparr>], pcap_features = []\<rparr>\<rparr>\<rparr>)"

definition still_clock :: "nat \<Rightarrow> timestamp \<times> nat" where
  "still_clock w = (0, w)"

definition probe_status :: provider_status where
  "probe_status = projr (result_of (compute_status still_clock probe_pve probe_provider 1) 0)"

definition probe_decision :: decision where
  "probe_decision = projr (schedule (static_vm ''a'' 1 [''192.0.2.1''] []) wired_class everywhere_image [probe_provider\<lparr>p_status := Some probe_status\<rparr>] [] [wired_class])"

definition template_source :: image_source where
  "template_source = \<lparr>iso_provider_class = PVE_CLASS_NAME, iso_kind = Template, iso_reference = '' 100 '', iso_import_from = None, iso_checksum = None\<rparr>"

lemma probe_runs:
  "result_of (compute_status still_clock probe_pve probe_provider 1) 0 = Inr probe_status"
  "schedule (static_vm ''a'' 1 [''192.0.2.1''] []) wired_class everywhere_image [probe_provider\<lparr>p_status := Some probe_status\<rparr>] [] [wired_class] = Inr probe_decision"
  "\<not> isl (build_proxmox_machine (static_vm ''a'' 1 [''192.0.2.1''] []) wired_class everywhere_image probe_decision probe_provider None)"
  by code_simp+

theorem published_classes_are_backed_witness:
  "\<exists>fd. fd \<in> set (pst_failure_domains probe_status) \<and> fda_available_storage_classes (fd_attributes fd) = [''fast'']
    \<and> is_condition_true (pst_conditions probe_status) ''Ready''
    \<and> (\<exists>ss. storage_backed probe_provider ss ''fast'')"
proof -
  have "length (pst_failure_domains probe_status) = 1"
    "list_all (\<lambda>fd. fda_available_storage_classes (fd_attributes fd) = [''fast'']) (pst_failure_domains probe_status)"
    "is_condition_true (pst_conditions probe_status) ''Ready''"
    by code_simp+
  then obtain fd where fd: "fd \<in> set (pst_failure_domains probe_status)" "fda_available_storage_classes (fd_attributes fd) = [''fast'']"
    by (cases "pst_failure_domains probe_status") auto
  with published_classes_are_backed [OF probe_runs(1), unfolded Let_def] obtain ss where
    "list_all (storage_backed probe_provider ss) (fda_available_storage_classes (fd_attributes fd))"
    by meson
  with fd \<open>is_condition_true _ _\<close> show ?thesis
    by auto
qed


theorem advertised_template_is_cloned_witness:
  "\<exists>m row. build_proxmox_machine (static_vm ''a'' 1 [''192.0.2.1''] []) wired_class everywhere_image probe_decision probe_provider None = Inr m
    \<and> result_of (row_for probe_pve probe_provider template_source) 0 = Inr row \<and> ipp_ready row
    \<and> length (take 2 (trace_of (clone_from_template probe_pve \<lparr>mr_name = ''a'', mr_uid = ''u''\<rparr> (pm_spec m) 101) 0)) = 2"
proof -
  let ?vm = "static_vm ''a'' 1 [''192.0.2.1''] []"
  from not_isl [OF probe_runs(3)] obtain m where m: "build_proxmox_machine ?vm wired_class everywhere_image probe_decision probe_provider None = Inr m" ..
  have "\<not> isl (result_of (row_for probe_pve probe_provider template_source) 0)"
    by code_simp
  from not_isl [OF this] obtain row where row: "result_of (row_for probe_pve probe_provider template_source) 0 = Inr row" ..
  have "ipp_ready (projr (result_of (row_for probe_pve probe_provider template_source) 0))"
    "resolve_template_ref everywhere_image (d_provider_name probe_decision) (d_failure_domain_name probe_decision)
      = Some (the (ipp_resolved_ref (projr (result_of (row_for probe_pve probe_provider template_source) 0))), None)"
    "fst (px_cluster_vms probe_pve 0) = Inr [\<lparr>cv_vmid = 100, cv_node = ''n1'', cv_name = Some ''ubuntu'', cv_status = ''stopped'', cv_kind = ''qemu'', cv_template = True\<rparr>]"
    "trace_of (row_for probe_pve probe_provider template_source) 0 = [Pve ReqClusterVms (AnsweredVms
       [\<lparr>cv_vmid = 100, cv_node = ''n1'', cv_name = Some ''ubuntu'', cv_status = ''stopped'', cv_kind = ''qemu'', cv_template = True\<rparr>])]"
    by code_simp+
  note run = this
  have "ipp_ready row" "resolve_template_ref everywhere_image (d_provider_name probe_decision) (d_failure_domain_name probe_decision)
      = Some (the (ipp_resolved_ref row), None)"
    using run(1,2) by (simp_all add: row)
  from advertised_template_is_cloned [OF row this(1) m this(2), of probe_pve "\<lparr>mr_name = ''a'', mr_uid = ''u''\<rparr>" 101] obtain vms t where
    t: "trace_of (row_for probe_pve probe_provider template_source) 0 = [Pve ReqClusterVms (AnsweredVms vms)]" "t \<in> set vms"
      "\<forall>w'. fst (px_cluster_vms probe_pve w') = Inr vms \<longrightarrow>
         (\<exists>a. take 2 (trace_of (clone_from_template probe_pve \<lparr>mr_name = ''a'', mr_uid = ''u''\<rparr> (pm_spec m) 101) w') = [Pve ReqClusterVms (AnsweredVms vms),
            Pve (ReqClone (cv_node t) (cv_vmid t) (clone_request \<lparr>mr_name = ''a'', mr_uid = ''u''\<rparr> (pm_spec m) (cv_node t) 101)) a])"
    by blast
  have "fst (px_cluster_vms probe_pve 0) = Inr vms"
    using run(3,4) t(1) by simp
  with t(3) obtain x y where "take 2 (trace_of (clone_from_template probe_pve \<lparr>mr_name = ''a'', mr_uid = ''u''\<rparr> (pm_spec m) 101) 0) = [x, y]"
    by blast
  then have "length (take 2 (trace_of (clone_from_template probe_pve \<lparr>mr_name = ''a'', mr_uid = ''u''\<rparr> (pm_spec m) 101) 0)) = 2"
    by (simp only: list.size)
  with row m \<open>ipp_ready row\<close> show ?thesis
    by blast
qed

end
