(* ===== verification/Spec2Isabelle.thy ===== *)
theory Spec2Isabelle
  imports Pool_Plan Claim_Plan Rpc Migration Status_Mirror Claim_Reconcile Vm_Safety Leader Proxmox_Config Proxmox_Provider
begin

text \<open>
  A verification development of banlieue, a Kubernetes control plane for virtual machines.
\<close>

end
